(* ===== verification/Relayer_Prelude.thy ===== *)
theory Relayer_Prelude
  imports Main "HOL-Library.Word" "HOL-Library.AList" "HOL-Library.Multiset" "HOL-Library.Sublist"
begin

text \<open>
  What every component of the development shares: the machine integers of the
  Rust source with their saturating operations, the string functions the source
  uses, the effect type of its async functions (a state that is passed on also
  when the function returns an error, as Rust keeps the side effects made before
  a \<open>?\<close>), and a small Hoare logic for that type.
\<close>

named_theorems eff_defs \<open>the combinators of the effect type\<close>
named_theorems hoare \<open>Hoare rules, used as introduction rules\<close>
named_theorems model_defs \<open>definitions that are always unfolded\<close>

section \<open>Machine integers\<close>

type_synonym u8 = "8 word"
type_synonym u32 = "32 word"
type_synonym u64 = "64 word"
type_synonym u128 = "128 word"
type_synonym u256 = "256 word"

definition saturating_add :: "'a::len word \<Rightarrow> 'a word \<Rightarrow> 'a word" where
  "saturating_add a b = (if unat a + unat b < 2 ^ LENGTH('a) then a + b else - 1)"

definition saturating_sub :: "'a::len word \<Rightarrow> 'a word \<Rightarrow> 'a word" where
  "saturating_sub a b = (if a < b then 0 else a - b)"

definition saturating_mul :: "'a::len word \<Rightarrow> 'a word \<Rightarrow> 'a word" where
  "saturating_mul a b = (if unat a * unat b < 2 ^ LENGTH('a) then a * b else - 1)"

lemma unat_max_word: "unat (- 1 :: 'a::len word) = 2 ^ LENGTH('a) - 1"
  by (simp add: unat_eq_nat_uint uint_word_ariths nat_diff_distrib' nat_power_eq zmod_minus1)

lemma unat_saturating_add:
  "unat (saturating_add a b) = min (unat a + unat b) (2 ^ LENGTH('a) - 1)" for a b :: "'a::len word"
  by (auto simp: saturating_add_def unat_max_word unat_word_ariths)

lemma unat_saturating_mul:
  "unat (saturating_mul a b) = min (unat a * unat b) (2 ^ LENGTH('a) - 1)" for a b :: "'a::len word"
  by (auto simp: saturating_mul_def unat_max_word unat_word_ariths)

lemma unat_saturating_sub: "unat (saturating_sub a b) = unat a - unat b" for a b :: "'a::len word"
  by (auto simp: saturating_sub_def word_less_nat_alt unat_sub_if')

lemma unat_le_max: "unat (a :: 'a::len word) \<le> 2 ^ LENGTH('a) - 1"
  using unsigned_less [of a] by (metis One_nat_def Suc_pred less_Suc_eq_le zero_less_numeral zero_less_power)

section \<open>Strings\<close>

definition lower_char :: "char \<Rightarrow> char" where
  "lower_char c =
     (let n = (of_char c :: nat) in if 65 \<le> n \<and> n \<le> 90 then char_of (n + 32) else c)"

definition to_lowercase :: "string \<Rightarrow> string" where
  "to_lowercase s = map lower_char s"

fun starts_with :: "string \<Rightarrow> string \<Rightarrow> bool" where
  "starts_with [] s = True"
| "starts_with (p # ps) [] = False"
| "starts_with (p # ps) (c # cs) = (p = c \<and> starts_with ps cs)"

fun contains_str :: "string \<Rightarrow> string \<Rightarrow> bool" where
  "contains_str p [] = (p = [])"
| "contains_str p (c # cs) = (starts_with p (c # cs) \<or> contains_str p cs)"

fun find_str :: "string \<Rightarrow> string \<Rightarrow> nat option" where
  "find_str p [] = (if p = [] then Some 0 else None)"
| "find_str p (c # cs) =
     (if starts_with p (c # cs) then Some 0 else map_option Suc (find_str p cs))"

definition ends_with :: "string \<Rightarrow> string \<Rightarrow> bool" where
  "ends_with p s = starts_with (rev p) (rev s)"

fun show_nat :: "nat \<Rightarrow> string" where
  "show_nat n = (if n < 10 then [char_of (48 + n)] else show_nat (n div 10) @ [char_of (48 + n mod 10)])"

definition show_int :: "int \<Rightarrow> string" where
  "show_int i = (if i < 0 then CHR ''-'' # show_nat (nat (- i)) else show_nat (nat i))"

declare show_nat.simps [simp del]

lemma starts_with_prefix: "starts_with p s \<longleftrightarrow> prefix p s"
  by (induction p s rule: starts_with.induct) auto

lemma contains_str_sublist: "contains_str p s \<longleftrightarrow> sublist p s"
  by (induction s) (auto simp: starts_with_prefix sublist_Cons_right)

lemma find_str_Some_iff: "(\<exists>i. find_str p s = Some i) \<longleftrightarrow> contains_str p s"
  by (induction s) auto

lemma ends_with_suffix: "ends_with p s \<longleftrightarrow> suffix p s"
  by (simp add: ends_with_def starts_with_prefix suffix_to_prefix)

section \<open>The effect type\<close>

text \<open>
  An async function of the source that may fail is a function from the state to
  a result and a state; \<^const>\<open>Inl\<close> is \<open>Err\<close>. The state survives an error.
\<close>

type_synonym ('s, 'e, 'a) eff = "'s \<Rightarrow> ('e + 'a) \<times> 's"

definition returnM :: "'a \<Rightarrow> ('s, 'e, 'a) eff" where
  "returnM x = (\<lambda>s. (Inr x, s))"

definition throwM :: "'e \<Rightarrow> ('s, 'e, 'a) eff" where
  "throwM e = (\<lambda>s. (Inl e, s))"

definition bindM :: "('s, 'e, 'a) eff \<Rightarrow> ('a \<Rightarrow> ('s, 'e, 'b) eff) \<Rightarrow> ('s, 'e, 'b) eff" where
  "bindM m f = (\<lambda>s. case m s of (Inl e, s') \<Rightarrow> (Inl e, s') | (Inr x, s') \<Rightarrow> f x s')"

definition attemptM :: "('s, 'e, 'a) eff \<Rightarrow> ('s, 'f, 'e + 'a) eff" where
  "attemptM m = (\<lambda>s. case m s of (r, s') \<Rightarrow> (Inr r, s'))"

definition liftR :: "'e + 'a \<Rightarrow> ('s, 'e, 'a) eff" where
  "liftR r = (\<lambda>s. (r, s))"

definition readM :: "('s \<Rightarrow> 'a) \<Rightarrow> ('s, 'e, 'a) eff" where
  "readM f = (\<lambda>s. (Inr (f s), s))"

definition modifyM :: "('s \<Rightarrow> 's) \<Rightarrow> ('s, 'e, unit) eff" where
  "modifyM f = (\<lambda>s. (Inr (), f s))"

definition thenM :: "('s, 'e, 'a) eff \<Rightarrow> ('s, 'e, 'b) eff \<Rightarrow> ('s, 'e, 'b) eff" where
  "thenM m n = bindM m (\<lambda>_. n)"

definition whenM :: "bool \<Rightarrow> ('s, 'e, unit) eff \<Rightarrow> ('s, 'e, unit) eff" where
  "whenM b m = (if b then m else returnM ())"

definition map_errM :: "('e \<Rightarrow> 'f) \<Rightarrow> ('s, 'e, 'a) eff \<Rightarrow> ('s, 'f, 'a) eff" where
  "map_errM g m = (\<lambda>s. case m s of (Inl e, s') \<Rightarrow> (Inl (g e), s') | (Inr x, s') \<Rightarrow> (Inr x, s'))"

text \<open>A call whose result the source ignores or only logs.\<close>

definition ignoreM :: "('s, 'e, 'a) eff \<Rightarrow> ('s, 'f, unit) eff" where
  "ignoreM m = (\<lambda>s. (Inr (), snd (m s)))"

declare returnM_def [eff_defs] throwM_def [eff_defs] bindM_def [eff_defs] attemptM_def [eff_defs]
  liftR_def [eff_defs] readM_def [eff_defs] modifyM_def [eff_defs] thenM_def [eff_defs]
  whenM_def [eff_defs] map_errM_def [eff_defs] ignoreM_def [eff_defs]

lemma bindM_returnM [simp]: "bindM (returnM x) f = f x"
  by (simp add: eff_defs)

lemma bindM_returnM_right [simp]: "bindM m returnM = m"
  by (rule ext) (simp add: eff_defs split: prod.splits sum.splits)

lemma bindM_throwM [simp]: "bindM (throwM e) f = throwM e"
  by (simp add: eff_defs)

lemma bindM_assoc: "bindM (bindM m f) g = bindM m (\<lambda>x. bindM (f x) g)"
  by (rule ext) (simp add: eff_defs split: prod.splits sum.splits)

lemma bindM_okE:
  assumes "bindM m k s = (Inr x, s')"
  obtains y s1 where "m s = (Inr y, s1)" "k y s1 = (Inr x, s')"
  using assms that by (cases "m s"; cases "fst (m s)") (auto simp: bindM_def)

lemma thenM_okE:
  assumes "thenM m k s = (Inr x, s')"
  obtains y s1 where "m s = (Inr y, s1)" "k s1 = (Inr x, s')"
  using assms unfolding thenM_def by (elim bindM_okE)

lemma bindM_run: "m s = (Inr y, s1) \<Longrightarrow> bindM m k s = k y s1"
  by (simp add: bindM_def)


section \<open>Hoare triples\<close>

text \<open>
  \<open>valid P m Q E\<close>: started in a state where \<open>P\<close> holds, \<open>m\<close> ends with a value and
  a state satisfying \<open>Q\<close>, or with an error and a state satisfying \<open>E\<close>. Every
  function of the effect type is total, so this is total correctness.
\<close>

definition valid ::
  "('s \<Rightarrow> bool) \<Rightarrow> ('s, 'e, 'a) eff \<Rightarrow> ('a \<Rightarrow> 's \<Rightarrow> bool) \<Rightarrow> ('e \<Rightarrow> 's \<Rightarrow> bool) \<Rightarrow> bool" where
  "valid P m Q E \<longleftrightarrow>
     (\<forall>s. P s \<longrightarrow> (case m s of (Inr x, s') \<Rightarrow> Q x s' | (Inl e, s') \<Rightarrow> E e s'))"

lemma validI:
  assumes "\<And>s x s'. P s \<Longrightarrow> m s = (Inr x, s') \<Longrightarrow> Q x s'"
    and "\<And>s e s'. P s \<Longrightarrow> m s = (Inl e, s') \<Longrightarrow> E e s'"
  shows "valid P m Q E"
  using assms by (auto simp: valid_def split: prod.splits sum.splits)

lemma valid_Inr: "valid P m Q E \<Longrightarrow> P s \<Longrightarrow> m s = (Inr x, s') \<Longrightarrow> Q x s'"
  by (auto simp: valid_def split: prod.splits sum.splits dest!: spec)

lemma valid_Inl: "valid P m Q E \<Longrightarrow> P s \<Longrightarrow> m s = (Inl e, s') \<Longrightarrow> E e s'"
  by (auto simp: valid_def split: prod.splits sum.splits dest!: spec)

lemma valid_conseq:
  assumes "valid P m Q E" "\<And>s. P' s \<Longrightarrow> P s"
    "\<And>x s. Q x s \<Longrightarrow> Q' x s" "\<And>e s. E e s \<Longrightarrow> E' e s"
  shows "valid P' m Q' E'"
  using assms unfolding valid_def by (fastforce split: prod.splits sum.splits)

lemma valid_pre: "valid P m Q E \<Longrightarrow> (\<And>s. P' s \<Longrightarrow> P s) \<Longrightarrow> valid P' m Q E"
  by (rule valid_conseq)

lemma valid_return [hoare]: "(\<And>s. P s \<Longrightarrow> Q x s) \<Longrightarrow> valid P (returnM x) Q E"
  by (simp add: valid_def eff_defs)

lemma valid_throw [hoare]: "(\<And>s. P s \<Longrightarrow> E e s) \<Longrightarrow> valid P (throwM e) Q E"
  by (simp add: valid_def eff_defs)

lemma valid_bind [hoare]:
  assumes "valid P m R E" "\<And>x. valid (R x) (f x) Q E"
  shows "valid P (bindM m f) Q E"
  using assms unfolding valid_def bindM_def by (fastforce split: prod.splits sum.splits)

lemma valid_then [hoare]: "valid P m (\<lambda>_. R) E \<Longrightarrow> valid R n Q E \<Longrightarrow> valid P (thenM m n) Q E"
  unfolding thenM_def by (rule valid_bind)

lemma valid_attempt [hoare]:
  assumes "valid P m (\<lambda>x. R (Inr x)) (\<lambda>e. R (Inl e))"
  shows "valid P (attemptM m) R E"
  using assms unfolding valid_def attemptM_def by (fastforce split: prod.splits sum.splits)

lemma valid_ignore [hoare]:
  assumes "valid P m (\<lambda>_. R) (\<lambda>_. R)"
  shows "valid P (ignoreM m) (\<lambda>_. R) E"
  using assms unfolding valid_def ignoreM_def by (fastforce split: prod.splits sum.splits)

lemma valid_map_err [hoare]:
  "valid P m Q (\<lambda>e. E (g e)) \<Longrightarrow> valid P (map_errM g m) Q E"
  unfolding valid_def map_errM_def by (fastforce split: prod.splits sum.splits)

lemma valid_lift [hoare]:
  "(\<And>x s. P s \<Longrightarrow> r = Inr x \<Longrightarrow> Q x s) \<Longrightarrow> (\<And>e s. P s \<Longrightarrow> r = Inl e \<Longrightarrow> E e s) \<Longrightarrow> valid P (liftR r) Q E"
  by (auto simp: valid_def liftR_def split: sum.splits)

lemma valid_read [hoare]: "(\<And>s. P s \<Longrightarrow> Q (f s) s) \<Longrightarrow> valid P (readM f) Q E"
  by (simp add: valid_def readM_def)

lemma valid_modify [hoare]: "(\<And>s. P s \<Longrightarrow> Q () (f s)) \<Longrightarrow> valid P (modifyM f) Q E"
  by (simp add: valid_def modifyM_def)

lemma valid_when [hoare]:
  "(b \<Longrightarrow> valid P m Q E) \<Longrightarrow> (\<And>s. \<not> b \<Longrightarrow> P s \<Longrightarrow> Q () s) \<Longrightarrow> valid P (whenM b m) Q E"
  by (auto simp: whenM_def intro: valid_return)

lemma valid_if [hoare]:
  "(b \<Longrightarrow> valid P m Q E) \<Longrightarrow> (\<not> b \<Longrightarrow> valid P n Q E) \<Longrightarrow> valid P (if b then m else n) Q E"
  by simp

lemma valid_Let [hoare]: "valid P (f t) Q E \<Longrightarrow> valid P (let x = t in f x) Q E"
  by simp

lemma valid_case_option [hoare]:
  "(v = None \<Longrightarrow> valid P m Q E) \<Longrightarrow> (\<And>x. v = Some x \<Longrightarrow> valid P (f x) Q E) \<Longrightarrow>
   valid P (case v of None \<Rightarrow> m | Some x \<Rightarrow> f x) Q E"
  by (cases v) auto

lemma valid_case_sum [hoare]:
  "(\<And>e. v = Inl e \<Longrightarrow> valid P (g e) Q E) \<Longrightarrow> (\<And>x. v = Inr x \<Longrightarrow> valid P (f x) Q E) \<Longrightarrow>
   valid P (case v of Inl e \<Rightarrow> g e | Inr x \<Rightarrow> f x) Q E"
  by (cases v) auto

lemma valid_case_prod [hoare]:
  "(\<And>a b. v = (a, b) \<Longrightarrow> valid P (f a b) Q E) \<Longrightarrow> valid P (case v of (a, b) \<Rightarrow> f a b) Q E"
  by (cases v) auto

lemma valid_conj:
  "valid P m Q E \<Longrightarrow> valid P m Q' E' \<Longrightarrow> valid P m (\<lambda>x s. Q x s \<and> Q' x s) (\<lambda>e s. E e s \<and> E' e s)"
  unfolding valid_def by (auto split: prod.splits sum.splits)

lemma valid_fact: "(V \<Longrightarrow> valid P m Q F) \<Longrightarrow> valid (\<lambda>w. P w \<and> V) m Q F"
  by (auto simp: valid_def)

lemma valid_run: "valid P m Q F \<Longrightarrow> P s \<Longrightarrow> (case m s of (Inr x, s') \<Rightarrow> Q x s' | (Inl e, s') \<Rightarrow> F e s')"
  by (simp add: valid_def)

lemma valid_snd: "valid P m (\<lambda>_. R) (\<lambda>_. R) \<Longrightarrow> P s \<Longrightarrow> R (snd (m s))"
  by (cases "m s"; cases "fst (m s)") (auto simp: valid_def dest!: spec [of _ s])

lemma valid_sndI: "(\<And>s. P s \<Longrightarrow> R (snd (m s))) \<Longrightarrow> valid P m (\<lambda>_. R) (\<lambda>_. R)"
  by (rule validI) (metis snd_conv)+

section \<open>Preserved relations\<close>

text \<open>
  \<open>keeps R m\<close>: \<open>m\<close> relates its initial state to its final state by \<open>R\<close>, whatever it
  returns. For a preorder \<open>R\<close> the combinators preserve it, which is proved once
  here and used for each relation the components show (frames, append-only logs).
\<close>

definition keeps :: "('s \<Rightarrow> 's \<Rightarrow> bool) \<Rightarrow> ('s, 'e, 'a) eff \<Rightarrow> bool" where
  "keeps R m \<longleftrightarrow> (\<forall>s. R s (snd (m s)))"

locale state_preorder =
  fixes R :: "'s \<Rightarrow> 's \<Rightarrow> bool"
  assumes rel_refl: "R s s"
    and rel_trans: "R s t \<Longrightarrow> R t u \<Longrightarrow> R s u"
begin

lemma keeps_return: "keeps R (returnM x)"
  by (simp add: keeps_def eff_defs rel_refl)

lemma keeps_throw: "keeps R (throwM e)"
  by (simp add: keeps_def eff_defs rel_refl)

lemma keeps_lift: "keeps R (liftR r)"
  by (simp add: keeps_def eff_defs rel_refl)

lemma keeps_read: "keeps R (readM f)"
  by (simp add: keeps_def eff_defs rel_refl)

lemma keeps_bind: "keeps R m \<Longrightarrow> (\<And>x. keeps R (f x)) \<Longrightarrow> keeps R (bindM m f)"
  unfolding keeps_def bindM_def
  by (auto split: prod.splits sum.splits) (metis rel_trans snd_conv)+

lemma keeps_then: "keeps R m \<Longrightarrow> keeps R n \<Longrightarrow> keeps R (thenM m n)"
  unfolding thenM_def by (rule keeps_bind)

lemma keeps_attempt: "keeps R m \<Longrightarrow> keeps R (attemptM m)"
  by (auto simp: keeps_def attemptM_def split: prod.splits) (metis snd_conv)

lemma keeps_ignore: "keeps R m \<Longrightarrow> keeps R (ignoreM m)"
  by (auto simp: keeps_def ignoreM_def)

lemma keeps_map_err: "keeps R m \<Longrightarrow> keeps R (map_errM g m)"
  by (auto simp: keeps_def map_errM_def split: prod.splits sum.splits) (metis snd_conv)+

lemma keeps_when: "(b \<Longrightarrow> keeps R m) \<Longrightarrow> keeps R (whenM b m)"
  by (simp add: whenM_def keeps_return)

lemma keeps_if: "(b \<Longrightarrow> keeps R m) \<Longrightarrow> (\<not> b \<Longrightarrow> keeps R n) \<Longrightarrow> keeps R (if b then m else n)"
  by simp

lemma keeps_case_option:
  "(v = None \<Longrightarrow> keeps R m) \<Longrightarrow> (\<And>x. v = Some x \<Longrightarrow> keeps R (f x)) \<Longrightarrow>
   keeps R (case v of None \<Rightarrow> m | Some x \<Rightarrow> f x)"
  by (cases v) auto

lemma keeps_case_sum:
  "(\<And>e. v = Inl e \<Longrightarrow> keeps R (g e)) \<Longrightarrow> (\<And>x. v = Inr x \<Longrightarrow> keeps R (f x)) \<Longrightarrow>
   keeps R (case v of Inl e \<Rightarrow> g e | Inr x \<Rightarrow> f x)"
  by (cases v) auto

lemmas keeps_rules = keeps_return keeps_throw keeps_lift keeps_read keeps_bind keeps_then
  keeps_attempt keeps_ignore keeps_map_err keeps_when keeps_if keeps_case_option keeps_case_sum

end

section \<open>Invariants with a fact about the result\<close>

text \<open>
  \<open>preserves J m V\<close>: \<open>m\<close> keeps the state predicate \<open>J\<close>, also when it fails, and a value it
  returns satisfies \<open>V\<close>. The rules give the strongest \<open>V\<close> the combinators determine, so
  that they resolve against a schematic one.
\<close>

definition preserves :: "('s \<Rightarrow> bool) \<Rightarrow> ('s, 'e, 'a) eff \<Rightarrow> ('a \<Rightarrow> bool) \<Rightarrow> bool" where
  "preserves J m V \<longleftrightarrow> valid J m (\<lambda>x s. J s \<and> V x) (\<lambda>_. J)"

named_theorems pres \<open>rules for invariants, used as introduction rules\<close>

lemma pres_conseq: "preserves J m V \<Longrightarrow> (\<And>x. V x \<Longrightarrow> V' x) \<Longrightarrow> preserves J m V'"
  unfolding preserves_def by (erule valid_conseq) auto

lemma pres_Inr: "preserves J m V \<Longrightarrow> J s \<Longrightarrow> m s = (Inr x, s') \<Longrightarrow> J s' \<and> V x"
  unfolding preserves_def by (rule valid_Inr)

lemma pres_snd: "preserves J m V \<Longrightarrow> J s \<Longrightarrow> J (snd (m s))"
  unfolding preserves_def
  by (rule valid_snd [where P = J and R = J], erule valid_conseq) auto

lemma pres_return [pres]: "V x \<Longrightarrow> preserves J (returnM x) V"
  unfolding preserves_def by (rule valid_return) simp

lemma pres_throw [pres]: "preserves J (throwM e) V"
  unfolding preserves_def by (rule valid_throw)

lemma pres_lift [pres]: "preserves J (liftR r) (\<lambda>x. r = Inr x)"
  unfolding preserves_def by (rule valid_lift) simp_all

lemma pres_read [pres]: "preserves J (readM f) (\<lambda>_. True)"
  unfolding preserves_def by (rule valid_read) simp

lemma pres_bind [pres]:
  assumes "preserves J m U" "\<And>x. U x \<Longrightarrow> preserves J (f x) V"
  shows "preserves J (bindM m f) V"
proof -
  have "valid (\<lambda>s. J s \<and> U x) (f x) (\<lambda>x s. J s \<and> V x) (\<lambda>_. J)" for x
    by (cases "U x") (use assms(2) in \<open>auto simp: preserves_def valid_def\<close>)
  then show ?thesis
    using assms(1) unfolding preserves_def by (rule valid_bind [rotated])
qed

lemma pres_then [pres]: "preserves J m U \<Longrightarrow> preserves J n V \<Longrightarrow> preserves J (thenM m n) V"
  unfolding thenM_def by (rule pres_bind)

lemma pres_attempt [pres]:
  "preserves J m V \<Longrightarrow> preserves J (attemptM m) (\<lambda>r. \<forall>x. r = Inr x \<longrightarrow> V x)"
  unfolding preserves_def by (rule valid_attempt) (simp add: all_conj_distrib)

lemma pres_ignore [pres]: "preserves J m V \<Longrightarrow> preserves J (ignoreM m) (\<lambda>_. True)"
  by (rule pres_conseq [where V = "\<lambda>_. True"])
    (auto simp: preserves_def intro!: valid_ignore elim: valid_conseq)

lemma pres_map_err [pres]: "preserves J m V \<Longrightarrow> preserves J (map_errM g m) V"
  unfolding preserves_def by (rule valid_map_err)

lemma pres_when [pres]: "(b \<Longrightarrow> preserves J m (\<lambda>_. True)) \<Longrightarrow> preserves J (whenM b m) (\<lambda>_. True)"
  by (simp add: whenM_def pres_return)

lemma pres_if [pres]: "(b \<Longrightarrow> preserves J m V) \<Longrightarrow> (\<not> b \<Longrightarrow> preserves J n V) \<Longrightarrow> preserves J (if b then m else n) V"
  by simp

lemma pres_Let [pres]: "(\<And>x. x = t \<Longrightarrow> preserves J (f x) V) \<Longrightarrow> preserves J (let x = t in f x) V"
  by simp

lemma pres_case_option [pres]:
  "(v = None \<Longrightarrow> preserves J m V) \<Longrightarrow> (\<And>x. v = Some x \<Longrightarrow> preserves J (f x) V) \<Longrightarrow>
   preserves J (case v of None \<Rightarrow> m | Some x \<Rightarrow> f x) V"
  by (cases v) auto

lemma pres_case_sum [pres]:
  "(\<And>e. v = Inl e \<Longrightarrow> preserves J (g e) V) \<Longrightarrow> (\<And>x. v = Inr x \<Longrightarrow> preserves J (f x) V) \<Longrightarrow>
   preserves J (case v of Inl e \<Rightarrow> g e | Inr x \<Rightarrow> f x) V"
  by (cases v) auto

lemma pres_case_prod [pres]:
  "(\<And>a b. v = (a, b) \<Longrightarrow> preserves J (f a b) V) \<Longrightarrow> preserves J (case v of (a, b) \<Rightarrow> f a b) V"
  by (cases v) auto

end
