(* ===== verification/Relayer_Errors.thy ===== *)
theory Relayer_Errors
  imports Relayer_Prelude
begin

text \<open>
  The error values of the program and how they are classified: provider errors
  and the retry decision on them (\<open>services/provider/mod.rs\<close>), repository errors
  (\<open>models/error/repository.rs\<close>), transaction errors with their transience
  (\<open>models/error/transaction.rs\<close>), and the RPC message patterns of
  \<open>constants/evm_transaction.rs\<close>.
\<close>

section \<open>Error types\<close>

datatype rpc_selector_error =
    NoProviders
  | ClientInitializationError string
  | WeightedIndexError string
  | AllProvidersFailed

datatype solana_provider_error =
    SolNetworkError string
  | SolRpcError string
  | SolRequestError string nat
  | SolInvalidAddress string
  | SolSelectorError rpc_selector_error
  | SolNetworkConfiguration string
  | SolInsufficientFunds string
  | SolBlockhashNotFound string
  | SolInvalidTransaction string
  | SolAlreadyProcessed string

datatype provider_error =
    SolanaRpcError solana_provider_error
  | InvalidAddress string
  | PNetworkConfiguration string
  | Timeout
  | RateLimited
  | BadGateway
  | RequestError string nat
  | RpcErrorCode int string "string option"
  | TransportError string
  | OtherProviderError string

datatype solana_validation_error =
    SvDecodeError string
  | SvDeserializeError string
  | SvSigningError string
  | SvPolicyViolation string
  | SvExpiredBlockhash string
  | SvValidationError string
  | SvFeePayer string
  | SvInsufficientFunds string
  | SvInsufficientBalance string
  | SvUnderlyingSolanaProvider solana_provider_error

datatype stellar_validation_error =
    StValidationError string
  | StPolicyViolation string
  | StInvalidAssetIdentifier string
  | StTokenNotAllowed string
  | StInsufficientTokenPayment nat nat
  | StMaxFeeExceeded nat

datatype repository_error =
    NotFound string
  | LockError string
  | ConnectionError string
  | ConstraintViolation string
  | InvalidData string
  | TransactionFailure string
  | RConcurrentUpdateConflict string
  | TransactionValidationFailed string
  | PermissionDenied string
  | UnknownError string
  | RNotSupported string
  | RUnexpectedError string
  | OtherError string

text \<open>
  The last constructor is not a variant of the source: it stands for a panic, which
  unwinds the task that calls the function.
\<close>

datatype transaction_error =
    ValidationError string
  | SolanaValidation solana_validation_error
  | NetworkConfiguration string
  | JobProducerError string
  | InvalidType string
  | UnderlyingProvider provider_error
  | UnderlyingSolanaProvider solana_provider_error
  | StellarTransactionValidationError stellar_validation_error
  | UnexpectedError string
  | ConcurrentUpdateConflict string
  | NotSupported string
  | SignerError string
  | InsufficientBalance string
  | SimulationFailed string
  | Panicked string

text \<open>\<open>Display\<close> of the errors.\<close>

fun show_repository_error :: "repository_error \<Rightarrow> string" where
  "show_repository_error (NotFound m) = ''Entity not found: '' @ m"
| "show_repository_error (LockError m) = ''Entity already exists: '' @ m"
| "show_repository_error (ConnectionError m) = ''Failed to connect to the database: '' @ m"
| "show_repository_error (ConstraintViolation m) = ''Constraint violated: '' @ m"
| "show_repository_error (InvalidData m) = ''Invalid data: '' @ m"
| "show_repository_error (TransactionFailure m) = ''Transaction failure: '' @ m"
| "show_repository_error (RConcurrentUpdateConflict m) = ''Concurrent update conflict: '' @ m"
| "show_repository_error (TransactionValidationFailed m) = ''Transaction validation failed: '' @ m"
| "show_repository_error (PermissionDenied m) = ''Permission denied: '' @ m"
| "show_repository_error (UnknownError m) = ''An unknown error occurred: '' @ m"
| "show_repository_error (RNotSupported m) = ''Not supported: '' @ m"
| "show_repository_error (RUnexpectedError m) = ''Unexpected error: '' @ m"
| "show_repository_error (OtherError m) = ''Other error: '' @ m"

fun show_rpc_selector_error :: "rpc_selector_error \<Rightarrow> string" where
  "show_rpc_selector_error NoProviders = ''No providers available''"
| "show_rpc_selector_error (ClientInitializationError m) = ''Client initialization failed: '' @ m"
| "show_rpc_selector_error (WeightedIndexError m) = ''Weighted index error: '' @ m"
| "show_rpc_selector_error AllProvidersFailed = ''All available providers have failed''"

fun show_solana_provider_error :: "solana_provider_error \<Rightarrow> string" where
  "show_solana_provider_error (SolNetworkError m) = ''Network error: '' @ m"
| "show_solana_provider_error (SolRpcError m) = ''RPC error: '' @ m"
| "show_solana_provider_error (SolRequestError m c) = ''Request error (HTTP '' @ show_nat c @ ''): '' @ m"
| "show_solana_provider_error (SolInvalidAddress m) = ''Invalid address: '' @ m"
| "show_solana_provider_error (SolSelectorError e) = ''RPC selector error: '' @ show_rpc_selector_error e"
| "show_solana_provider_error (SolNetworkConfiguration m) = ''Network configuration error: '' @ m"
| "show_solana_provider_error (SolInsufficientFunds m) = ''Insufficient funds for transaction: '' @ m"
| "show_solana_provider_error (SolBlockhashNotFound m) = ''Blockhash not found or expired: '' @ m"
| "show_solana_provider_error (SolInvalidTransaction m) = ''Invalid transaction: '' @ m"
| "show_solana_provider_error (SolAlreadyProcessed m) = ''Transaction already processed: '' @ m"

fun show_provider_error :: "provider_error \<Rightarrow> string" where
  "show_provider_error (SolanaRpcError e) = ''RPC client error: '' @ show_solana_provider_error e"
| "show_provider_error (InvalidAddress m) = ''Invalid address: '' @ m"
| "show_provider_error (PNetworkConfiguration m) = ''Network configuration error: '' @ m"
| "show_provider_error Timeout = ''Request timeout''"
| "show_provider_error RateLimited = ''Rate limited (HTTP 429)''"
| "show_provider_error BadGateway = ''Bad gateway (HTTP 502)''"
| "show_provider_error (RequestError m c) = ''Request error (HTTP '' @ show_nat c @ ''): '' @ m"
| "show_provider_error (RpcErrorCode c m _) = ''JSON-RPC error (code '' @ show_int c @ ''): '' @ m"
| "show_provider_error (TransportError m) = ''Transport error: '' @ m"
| "show_provider_error (OtherProviderError m) = ''Other provider error: '' @ m"

section \<open>Message patterns\<close>

definition ALREADY_SUBMITTED_PATTERNS :: "string list" where
  "ALREADY_SUBMITTED_PATTERNS =
     [''nonce too low'', ''nonce is too low'', ''already known'',
      ''replacement transaction underpriced'', ''same hash was already imported'']"

definition NONCE_TOO_HIGH_PATTERNS :: "string list" where
  "NONCE_TOO_HIGH_PATTERNS =
     [''nonce too high'', ''nonce is too high'', ''nonce too far in the future'',
      ''exceeds next nonce'', ''nonce out of range'', ''tx-nonce-too-high'']"

definition matches_known_transaction :: "string \<Rightarrow> bool" where
  "matches_known_transaction msg_lower =
     (case find_str ''known transaction'' msg_lower of
        Some pos \<Rightarrow> \<not> ends_with ''un'' (take pos msg_lower)
      | None \<Rightarrow> False)"

definition is_non_retriable_transaction_rpc_message :: "string \<Rightarrow> bool" where
  "is_non_retriable_transaction_rpc_message message =
     (let msg_lower = to_lowercase message in
        list_ex (\<lambda>p. contains_str p msg_lower) ALREADY_SUBMITTED_PATTERNS
      \<or> list_ex (\<lambda>p. contains_str p msg_lower) NONCE_TOO_HIGH_PATTERNS
      \<or> matches_known_transaction msg_lower)"

section \<open>Retry decision\<close>

definition retriable_status_code :: "nat \<Rightarrow> bool" where
  "retriable_status_code c =
     (if c = 501 \<or> c = 505 then False
      else if c = 500 \<or> (502 \<le> c \<and> c \<le> 504) \<or> (506 \<le> c \<and> c \<le> 599) then True
      else if c = 408 \<or> c = 425 \<or> c = 429 then True
      else False)"

fun solana_is_transient :: "solana_provider_error \<Rightarrow> bool" where
  "solana_is_transient (SolNetworkError _) = True"
| "solana_is_transient (SolRpcError _) = True"
| "solana_is_transient (SolBlockhashNotFound _) = True"
| "solana_is_transient (SolSelectorError _) = True"
| "solana_is_transient (SolRequestError _ c) = retriable_status_code c"
| "solana_is_transient (SolInsufficientFunds _) = False"
| "solana_is_transient (SolInvalidTransaction _) = False"
| "solana_is_transient (SolAlreadyProcessed _) = False"
| "solana_is_transient (SolInvalidAddress _) = False"
| "solana_is_transient (SolNetworkConfiguration _) = False"

definition network_related_message :: "string \<Rightarrow> bool" where
  "network_related_message err_msg =
     (let msg_lower = to_lowercase err_msg in
        contains_str ''timeout'' msg_lower \<or> contains_str ''connection'' msg_lower
      \<or> contains_str ''reset'' msg_lower)"

fun is_retriable_error :: "provider_error \<Rightarrow> bool" where
  "is_retriable_error Timeout = True"
| "is_retriable_error RateLimited = True"
| "is_retriable_error BadGateway = True"
| "is_retriable_error (TransportError _) = True"
| "is_retriable_error (RequestError _ c) = retriable_status_code c"
| "is_retriable_error (RpcErrorCode code message _) =
     (if code = -32002 then \<not> is_non_retriable_transaction_rpc_message message
      else if code = -32005 then True
      else if code = -32603 then \<not> is_non_retriable_transaction_rpc_message message
      else False)"
| "is_retriable_error (SolanaRpcError err) = solana_is_transient err"
| "is_retriable_error (InvalidAddress m) = network_related_message (show_provider_error (InvalidAddress m))"
| "is_retriable_error (PNetworkConfiguration m) =
     network_related_message (show_provider_error (PNetworkConfiguration m))"
| "is_retriable_error (OtherProviderError m) = network_related_message (show_provider_error (OtherProviderError m))"

definition should_mark_provider_failed_by_status_code :: "nat \<Rightarrow> bool" where
  "should_mark_provider_failed_by_status_code c =
     ((500 \<le> c \<and> c \<le> 599) \<or> c = 401 \<or> c = 403 \<or> c = 404 \<or> c = 410)"

fun should_mark_provider_failed :: "provider_error \<Rightarrow> bool" where
  "should_mark_provider_failed (RequestError _ c) = should_mark_provider_failed_by_status_code c"
| "should_mark_provider_failed _ = False"

section \<open>Transaction errors\<close>

fun solana_validation_is_transient :: "solana_validation_error \<Rightarrow> bool" where
  "solana_validation_is_transient (SvPolicyViolation _) = False"
| "solana_validation_is_transient (SvFeePayer _) = False"
| "solana_validation_is_transient (SvDecodeError _) = False"
| "solana_validation_is_transient (SvDeserializeError _) = False"
| "solana_validation_is_transient (SvExpiredBlockhash _) = False"
| "solana_validation_is_transient (SvSigningError _) = False"
| "solana_validation_is_transient (SvUnderlyingSolanaProvider err) = solana_is_transient err"
| "solana_validation_is_transient (SvValidationError msg) =
     list_ex (\<lambda>p. contains_str p msg)
       [''RPC'', ''timeout'', ''timed out'', ''connection'', ''network'', ''Failed to check'',
        ''Failed to get'', ''node behind'', ''rate limit'']"
| "solana_validation_is_transient (SvInsufficientBalance msg) =
     list_ex (\<lambda>p. contains_str p msg) [''Failed to get balance'', ''RPC'', ''timeout'', ''network'']"
| "solana_validation_is_transient (SvInsufficientFunds msg) =
     list_ex (\<lambda>p. contains_str p msg) [''Failed to get balance'', ''RPC'', ''timeout'', ''network'']"

fun tx_error_is_transient :: "transaction_error \<Rightarrow> bool" where
  "tx_error_is_transient (SolanaValidation err) = solana_validation_is_transient err"
| "tx_error_is_transient (UnderlyingSolanaProvider err) = solana_is_transient err"
| "tx_error_is_transient (UnderlyingProvider err) = is_retriable_error err"
| "tx_error_is_transient (UnexpectedError _) = True"
| "tx_error_is_transient (ConcurrentUpdateConflict _) = True"
| "tx_error_is_transient (JobProducerError _) = True"
| "tx_error_is_transient (ValidationError _) = False"
| "tx_error_is_transient (InsufficientBalance _) = False"
| "tx_error_is_transient (NetworkConfiguration _) = False"
| "tx_error_is_transient (InvalidType _) = False"
| "tx_error_is_transient (NotSupported _) = False"
| "tx_error_is_transient (SignerError _) = False"
| "tx_error_is_transient (SimulationFailed _) = False"
| "tx_error_is_transient (StellarTransactionValidationError _) = False"
| "tx_error_is_transient (Panicked _) = False"

fun is_concurrent_update_conflict :: "transaction_error \<Rightarrow> bool" where
  "is_concurrent_update_conflict (ConcurrentUpdateConflict _) = True"
| "is_concurrent_update_conflict _ = False"

fun tx_error_of_repository_error :: "repository_error \<Rightarrow> transaction_error" where
  "tx_error_of_repository_error (NotFound msg) = ValidationError msg"
| "tx_error_of_repository_error (InvalidData msg) = ValidationError msg"
| "tx_error_of_repository_error (ConstraintViolation msg) = ValidationError msg"
| "tx_error_of_repository_error (TransactionValidationFailed msg) = ValidationError msg"
| "tx_error_of_repository_error (RConcurrentUpdateConflict msg) = ConcurrentUpdateConflict msg"
| "tx_error_of_repository_error (TransactionFailure msg) = UnexpectedError msg"
| "tx_error_of_repository_error (LockError msg) = UnexpectedError msg"
| "tx_error_of_repository_error (ConnectionError msg) = UnexpectedError msg"
| "tx_error_of_repository_error (PermissionDenied msg) = UnexpectedError msg"
| "tx_error_of_repository_error (UnknownError msg) = UnexpectedError msg"
| "tx_error_of_repository_error (RUnexpectedError msg) = UnexpectedError msg"
| "tx_error_of_repository_error (OtherError msg) = UnexpectedError msg"
| "tx_error_of_repository_error (RNotSupported msg) = NotSupported msg"

section \<open>Facts about the classification\<close>

text \<open>
  A JSON-RPC error whose message says that the transaction was already submitted,
  or that its nonce is off, is never retried by the RPC layer.
\<close>

lemma rpc_code_retriable_iff:
  "is_retriable_error (RpcErrorCode code message d) \<longleftrightarrow>
     code = -32005 \<or> ((code = -32002 \<or> code = -32603) \<and> \<not> is_non_retriable_transaction_rpc_message message)"
  by auto

lemma retriable_status_code_range:
  "retriable_status_code c \<Longrightarrow> c = 408 \<or> c = 425 \<or> c = 429 \<or> (500 \<le> c \<and> c \<le> 599)"
  by (auto simp: retriable_status_code_def split: if_splits)

lemma repository_error_transient_iff:
  "tx_error_is_transient (tx_error_of_repository_error e) \<longleftrightarrow>
     (case e of NotFound _ \<Rightarrow> False | InvalidData _ \<Rightarrow> False | ConstraintViolation _ \<Rightarrow> False
      | TransactionValidationFailed _ \<Rightarrow> False | RNotSupported _ \<Rightarrow> False | _ \<Rightarrow> True)"
  by (cases e) auto

end
