(* ===== verification/Tx_Model.thy ===== *)
theory Tx_Model
  imports Relayer_Errors
begin

text \<open>
  The transaction record that the repositories store and every handler reads and
  updates (\<open>models/transaction/repository.rs\<close>), the status groups of
  \<open>constants/transactions.rs\<close> and \<open>domain/transaction/common.rs\<close>, and the pure
  updates of the network specific data. Timestamps are the RFC 3339 strings of the
  source; their parser and printer belong to the \<open>chrono\<close> crate and are fields of
  \<open>clock_env\<close>. Instants are nanoseconds since the epoch.
\<close>

section \<open>Data\<close>

datatype transaction_status =
    Canceled | Pending | Sent | Submitted | Mined | Confirmed | Failed | Expired

datatype network_type = NtEvm | NtStellar | NtSolana

datatype speed = Fastest | Fast | Average | SafeLow

record transaction_metadata =
  consecutive_failures :: u32
  total_failures :: u32
  insufficient_fee_retries :: u32
  try_again_later_retries :: u32
  nonce_too_high_retries :: u32

record evm_signature =
  sig_r :: string
  sig_s :: string
  sig_v :: u8
  sig_sig :: string

record evm_transaction_data =
  gas_price :: "u128 option"
  gas_limit :: "u64 option"
  nonce :: "u64 option"
  evm_value :: u256
  evm_data :: "string option"
  evm_from :: string
  evm_to :: "string option"
  chain_id :: u64
  evm_hash :: "string option"
  evm_signature_of :: "evm_signature option"
  evm_speed :: "speed option"
  max_fee_per_gas :: "u128 option"
  max_priority_fee_per_gas :: "u128 option"
  evm_raw :: "u8 list option"

record solana_account_meta =
  pubkey :: string
  is_signer :: bool
  is_writable :: bool

record solana_instruction_spec =
  program_id :: string
  ix_accounts :: "solana_account_meta list"
  ix_data :: string

record solana_transaction_data =
  sol_transaction :: "string option"
  sol_instructions :: "solana_instruction_spec list option"
  sol_signature :: "string option"

datatype memo_spec =
    MemoNone | MemoText string | MemoId u64 | MemoHash "u8 list" | MemoReturn "u8 list"

datatype asset_spec = Native | Credit4 string string | Credit12 string string

datatype auth_spec = AuthNone | AuthSourceAccount | AuthAddresses "string list" | AuthXdr "string list"

datatype contract_source = FromAddress string | FromContract string

datatype wasm_source = WasmHex string | WasmBase64 string

text \<open>JSON arguments are kept as their text.\<close>

datatype operation_spec =
    Payment string int asset_spec
  | InvokeContract string string "string list" "auth_spec option"
  | CreateContract contract_source string "string option" "string list option" "auth_spec option"
  | UploadWasm wasm_source "auth_spec option"

datatype transaction_input =
    Operations "operation_spec list"
  | UnsignedXdr string
  | SignedXdr string int
  | SorobanGasAbstraction string string

record decorated_signature =
  sig_hint :: "u8 list"
  sig_bytes :: "u8 list"

record stellar_transaction_data =
  source_account :: string
  st_fee :: "u32 option"
  sequence_number :: "int option"
  st_memo :: "memo_spec option"
  st_valid_until :: "string option"
  network_passphrase :: string
  signatures :: "decorated_signature list"
  st_hash :: "string option"
  simulation_transaction_data :: "string option"
  st_transaction_input :: transaction_input
  signed_envelope_xdr :: "string option"
  transaction_result_xdr :: "string option"

datatype network_transaction_data =
    Evm evm_transaction_data
  | Solana solana_transaction_data
  | Stellar stellar_transaction_data

record transaction_update_request =
  up_status :: "transaction_status option"
  up_status_reason :: "string option"
  up_sent_at :: "string option"
  up_confirmed_at :: "string option"
  up_network_data :: "network_transaction_data option"
  up_priced_at :: "string option"
  up_hashes :: "string list option"
  up_noop_count :: "u32 option"
  up_is_canceled :: "bool option"
  up_delete_at :: "string option"
  up_metadata :: "transaction_metadata option"

record transaction_repo_model =
  tx_id :: string
  relayer_id :: string
  status :: transaction_status
  status_reason :: "string option"
  created_at :: string
  sent_at :: "string option"
  confirmed_at :: "string option"
  valid_until :: "string option"
  delete_at :: "string option"
  network_data :: network_transaction_data
  priced_at :: "string option"
  hashes :: "string list"
  tx_network_type :: network_type
  noop_count :: "u32 option"
  is_canceled :: "bool option"
  metadata :: "transaction_metadata option"

record evm_transaction_request =
  req_to :: "string option"
  req_value :: u256
  req_data :: "string option"
  req_gas_limit :: "u64 option"
  req_gas_price :: "u128 option"
  req_speed :: "speed option"
  req_max_fee_per_gas :: "u128 option"
  req_max_priority_fee_per_gas :: "u128 option"
  req_valid_until :: "string option"

record sign_transaction_response_evm =
  sr_hash :: string
  sr_signature :: evm_signature
  sr_raw :: "u8 list"

record price_params =
  pp_gas_price :: "u128 option"
  pp_max_fee_per_gas :: "u128 option"
  pp_max_priority_fee_per_gas :: "u128 option"
  pp_is_min_bumped :: "bool option"
  pp_extra_fee :: "u256 option"
  pp_total_cost :: u256

text \<open>
  The clock. \<open>parse_rfc3339\<close> and \<open>to_rfc3339\<close> are \<open>chrono\<close>'s; the configured
  expiration of final transactions is read from the environment, in seconds.
\<close>

record clock_env =
  parse_rfc3339 :: "string \<Rightarrow> int option"
  to_rfc3339 :: "int \<Rightarrow> string"
  transaction_expiration_secs :: int

definition secs :: "int \<Rightarrow> int" where
  "secs n = n * 1000000000"

definition millis :: "int \<Rightarrow> int" where
  "millis n = n * 1000000"

definition mins :: "int \<Rightarrow> int" where
  "mins n = secs (n * 60)"

section \<open>Status groups\<close>

definition FINAL_TRANSACTION_STATUSES :: "transaction_status list" where
  "FINAL_TRANSACTION_STATUSES = [Canceled, Confirmed, Failed, Expired]"

definition PENDING_TRANSACTION_STATUSES :: "transaction_status list" where
  "PENDING_TRANSACTION_STATUSES = [Pending, Sent, Submitted]"

definition ALL_TRANSACTION_STATUSES :: "transaction_status list" where
  "ALL_TRANSACTION_STATUSES =
     [Canceled, Pending, Sent, Submitted, Mined, Confirmed, Failed, Expired]"

definition is_final_state :: "transaction_status \<Rightarrow> bool" where
  "is_final_state s = (s \<in> set FINAL_TRANSACTION_STATUSES)"

definition is_active_nonce_status :: "transaction_status \<Rightarrow> bool" where
  "is_active_nonce_status s = (case s of
     Pending \<Rightarrow> True | Sent \<Rightarrow> True | Submitted \<Rightarrow> True | Mined \<Rightarrow> True | _ \<Rightarrow> False)"

definition is_pending_transaction :: "transaction_status \<Rightarrow> bool" where
  "is_pending_transaction s = (case s of
     Pending \<Rightarrow> True | Sent \<Rightarrow> True | Submitted \<Rightarrow> True | _ \<Rightarrow> False)"

definition is_unsubmitted_transaction :: "transaction_status \<Rightarrow> bool" where
  "is_unsubmitted_transaction s = (case s of Pending \<Rightarrow> True | Sent \<Rightarrow> True | _ \<Rightarrow> False)"

section \<open>Metadata and partial updates\<close>

definition default_metadata :: transaction_metadata where
  "default_metadata =
     \<lparr> consecutive_failures = 0, total_failures = 0, insufficient_fee_retries = 0,
       try_again_later_retries = 0, nonce_too_high_retries = 0 \<rparr>"

definition with_nonce_retries_reset :: "transaction_metadata \<Rightarrow> transaction_metadata option" where
  "with_nonce_retries_reset m =
     (if nonce_too_high_retries m = 0 then None else Some (m\<lparr> nonce_too_high_retries := 0 \<rparr>))"

definition default_update :: transaction_update_request where
  "default_update =
     \<lparr> up_status = None, up_status_reason = None, up_sent_at = None, up_confirmed_at = None,
       up_network_data = None, up_priced_at = None, up_hashes = None, up_noop_count = None,
       up_is_canceled = None, up_delete_at = None, up_metadata = None \<rparr>"

definition calculate_delete_at :: "'e clock_env_scheme \<Rightarrow> int \<Rightarrow> string option" where
  "calculate_delete_at C now = Some (to_rfc3339 C (now + secs (transaction_expiration_secs C)))"

definition update_delete_at_if_final_status ::
  "'e clock_env_scheme \<Rightarrow> int \<Rightarrow> transaction_repo_model \<Rightarrow> transaction_repo_model" where
  "update_delete_at_if_final_status C now tx =
     (if delete_at tx = None \<and> status tx \<in> set FINAL_TRANSACTION_STATUSES
      then tx\<lparr> delete_at := calculate_delete_at C now \<rparr> else tx)"

definition set_opt :: "'v option \<Rightarrow> ('v \<Rightarrow> 'r \<Rightarrow> 'r) \<Rightarrow> 'r \<Rightarrow> 'r" where
  "set_opt v f r = (case v of None \<Rightarrow> r | Some x \<Rightarrow> f x r)"

definition apply_partial_update ::
  "'e clock_env_scheme \<Rightarrow> int \<Rightarrow> transaction_update_request \<Rightarrow> transaction_repo_model \<Rightarrow>
   transaction_repo_model" where
  "apply_partial_update C now update tx =
     (let tx = set_opt (up_status update)
                 (\<lambda>v tx. update_delete_at_if_final_status C now (tx\<lparr> status := v \<rparr>)) tx;
          tx = set_opt (up_status_reason update) (\<lambda>v. status_reason_update (\<lambda>_. Some v)) tx;
          tx = set_opt (up_sent_at update) (\<lambda>v. sent_at_update (\<lambda>_. Some v)) tx;
          tx = set_opt (up_confirmed_at update) (\<lambda>v. confirmed_at_update (\<lambda>_. Some v)) tx;
          tx = set_opt (up_network_data update) (\<lambda>v. network_data_update (\<lambda>_. v)) tx;
          tx = set_opt (up_priced_at update) (\<lambda>v. priced_at_update (\<lambda>_. Some v)) tx;
          tx = set_opt (up_hashes update) (\<lambda>v. hashes_update (\<lambda>_. v)) tx;
          tx = set_opt (up_noop_count update) (\<lambda>v. noop_count_update (\<lambda>_. Some v)) tx;
          tx = set_opt (up_is_canceled update) (\<lambda>v. is_canceled_update (\<lambda>_. Some v)) tx;
          tx = set_opt (up_delete_at update) (\<lambda>v. delete_at_update (\<lambda>_. Some v)) tx
      in set_opt (up_metadata update) (\<lambda>v. metadata_update (\<lambda>_. Some v)) tx)"

section \<open>Network data\<close>

definition get_evm_transaction_data ::
  "network_transaction_data \<Rightarrow> transaction_error + evm_transaction_data" where
  "get_evm_transaction_data d = (case d of
     Evm e \<Rightarrow> Inr e | _ \<Rightarrow> Inl (InvalidType ''Expected EVM transaction''))"

definition get_solana_transaction_data ::
  "network_transaction_data \<Rightarrow> transaction_error + solana_transaction_data" where
  "get_solana_transaction_data d = (case d of
     Solana e \<Rightarrow> Inr e | _ \<Rightarrow> Inl (InvalidType ''Expected Solana transaction''))"

definition get_stellar_transaction_data ::
  "network_transaction_data \<Rightarrow> transaction_error + stellar_transaction_data" where
  "get_stellar_transaction_data d = (case d of
     Stellar e \<Rightarrow> Inr e | _ \<Rightarrow> Inl (InvalidType ''Expected Stellar transaction''))"

definition DEFAULT_TRANSACTION_SPEED :: speed where
  "DEFAULT_TRANSACTION_SPEED = Fast"

definition for_replacement ::
  "evm_transaction_data \<Rightarrow> evm_transaction_request \<Rightarrow> evm_transaction_data" where
  "for_replacement old_data request =
     \<lparr> gas_price = None, gas_limit = req_gas_limit request, nonce = nonce old_data,
       evm_value = req_value request, evm_data = req_data request, evm_from = evm_from old_data,
       evm_to = req_to request, chain_id = chain_id old_data, evm_hash = None,
       evm_signature_of = None,
       evm_speed = (case req_speed request of
           Some s \<Rightarrow> Some s
         | None \<Rightarrow> (case evm_speed old_data of Some s \<Rightarrow> Some s
                    | None \<Rightarrow> Some DEFAULT_TRANSACTION_SPEED)),
       max_fee_per_gas = None, max_priority_fee_per_gas = None, evm_raw = None \<rparr>"

definition with_price_params :: "evm_transaction_data \<Rightarrow> price_params \<Rightarrow> evm_transaction_data" where
  "with_price_params d p = d\<lparr> gas_price := pp_gas_price p, max_fee_per_gas := pp_max_fee_per_gas p,
     max_priority_fee_per_gas := pp_max_priority_fee_per_gas p \<rparr>"

definition with_gas_estimate :: "evm_transaction_data \<Rightarrow> u64 \<Rightarrow> evm_transaction_data" where
  "with_gas_estimate d g = d\<lparr> gas_limit := Some g \<rparr>"

definition with_nonce :: "evm_transaction_data \<Rightarrow> u64 \<Rightarrow> evm_transaction_data" where
  "with_nonce d n = d\<lparr> nonce := Some n \<rparr>"

definition with_signed_transaction_data ::
  "evm_transaction_data \<Rightarrow> sign_transaction_response_evm \<Rightarrow> evm_transaction_data" where
  "with_signed_transaction_data d s = d\<lparr> evm_signature_of := Some (sr_signature s),
     evm_hash := Some (sr_hash s), evm_raw := Some (sr_raw s) \<rparr>"

definition is_legacy :: "evm_transaction_data \<Rightarrow> bool" where
  "is_legacy d = (gas_price d \<noteq> None)"

definition is_eip1559 :: "evm_transaction_data \<Rightarrow> bool" where
  "is_eip1559 d = (max_fee_per_gas d \<noteq> None \<and> max_priority_fee_per_gas d \<noteq> None)"

definition is_speed :: "evm_transaction_data \<Rightarrow> bool" where
  "is_speed d = (evm_speed d \<noteq> None)"

definition sol_with_signature :: "solana_transaction_data \<Rightarrow> string \<Rightarrow> solana_transaction_data" where
  "sol_with_signature d s = d\<lparr> sol_signature := Some s \<rparr>"

definition reset_to_pre_prepare_state :: "stellar_transaction_data \<Rightarrow> stellar_transaction_data" where
  "reset_to_pre_prepare_state d = d\<lparr> st_fee := None, sequence_number := None, signatures := [],
     signed_envelope_xdr := None, simulation_transaction_data := None, st_hash := None \<rparr>"

definition with_sequence_number :: "stellar_transaction_data \<Rightarrow> int \<Rightarrow> stellar_transaction_data" where
  "with_sequence_number d n = d\<lparr> sequence_number := Some n \<rparr>"

definition with_fee :: "stellar_transaction_data \<Rightarrow> u32 \<Rightarrow> stellar_transaction_data" where
  "with_fee d f = d\<lparr> st_fee := Some f \<rparr>"

definition with_transaction_result_xdr :: "stellar_transaction_data \<Rightarrow> string \<Rightarrow> stellar_transaction_data" where
  "with_transaction_result_xdr d x = d\<lparr> transaction_result_xdr := Some x \<rparr>"

definition attach_signature :: "stellar_transaction_data \<Rightarrow> decorated_signature \<Rightarrow> stellar_transaction_data" where
  "attach_signature d s = d\<lparr> signatures := signatures d @ [s] \<rparr>"

definition st_with_hash :: "stellar_transaction_data \<Rightarrow> string \<Rightarrow> stellar_transaction_data" where
  "st_with_hash d h = d\<lparr> st_hash := Some h \<rparr>"

definition create_reset_update_request :: "transaction_repo_model \<Rightarrow> transaction_update_request" where
  "create_reset_update_request tx =
     \<lparr> up_status = Some Pending, up_status_reason = None, up_sent_at = None,
       up_confirmed_at = None,
       up_network_data = (case network_data tx of
           Stellar d \<Rightarrow> Some (Stellar (reset_to_pre_prepare_state d)) | _ \<Rightarrow> None),
       up_priced_at = None, up_hashes = Some [], up_noop_count = None, up_is_canceled = None,
       up_delete_at = None, up_metadata = None \<rparr>"

text \<open>
  The EVM case of \<open>TryFrom\<close> for a request; \<open>uid\<close> is the fresh UUID, \<open>addr\<close> the
  relayer's address and \<open>cid\<close> the chain id of its network.
\<close>

definition evm_tx_of_request ::
  "string \<Rightarrow> string \<Rightarrow> string \<Rightarrow> string \<Rightarrow> u64 \<Rightarrow> evm_transaction_request \<Rightarrow> transaction_repo_model" where
  "evm_tx_of_request uid rid addr now_str cid r =
     \<lparr> tx_id = uid, relayer_id = rid, status = Pending, status_reason = None,
       created_at = now_str, sent_at = None, confirmed_at = None,
       valid_until = req_valid_until r, delete_at = None,
       network_data = Evm
         \<lparr> gas_price = req_gas_price r, gas_limit = req_gas_limit r, nonce = None,
           evm_value = req_value r, evm_data = req_data r, evm_from = addr, evm_to = req_to r,
           chain_id = cid, evm_hash = None, evm_signature_of = None, evm_speed = req_speed r,
           max_fee_per_gas = req_max_fee_per_gas r,
           max_priority_fee_per_gas = req_max_priority_fee_per_gas r, evm_raw = None \<rparr>,
       priced_at = None, hashes = [], tx_network_type = NtEvm, noop_count = None,
       is_canceled = Some False, metadata = None \<rparr>"

section \<open>Ages\<close>

definition get_age_of_sent_at ::
  "'e clock_env_scheme \<Rightarrow> int \<Rightarrow> transaction_repo_model \<Rightarrow> transaction_error + int" where
  "get_age_of_sent_at C now tx = (case sent_at tx of
     None \<Rightarrow> Inl (UnexpectedError ''Transaction sent_at time is missing'')
   | Some s \<Rightarrow> (case parse_rfc3339 C s of
       None \<Rightarrow> Inl (UnexpectedError ''Error parsing sent_at time'')
     | Some t \<Rightarrow> Inr (now - t)))"

definition get_age_since_created ::
  "'e clock_env_scheme \<Rightarrow> int \<Rightarrow> transaction_repo_model \<Rightarrow> transaction_error + int" where
  "get_age_since_created C now tx = (case parse_rfc3339 C (created_at tx) of
     None \<Rightarrow> Inl (UnexpectedError ''Invalid created_at timestamp'')
   | Some t \<Rightarrow> Inr (now - t))"

definition get_age_since_sent ::
  "'e clock_env_scheme \<Rightarrow> int \<Rightarrow> transaction_repo_model \<Rightarrow> transaction_error + int" where
  "get_age_since_sent C now tx = (case sent_at tx of
     None \<Rightarrow> Inl (UnexpectedError ''Missing sent_at timestamp'')
   | Some s \<Rightarrow> (case parse_rfc3339 C s of
       None \<Rightarrow> Inl (UnexpectedError ''Invalid sent_at timestamp'')
     | Some t \<Rightarrow> Inr (now - t)))"

definition get_age_since_sent_or_created ::
  "'e clock_env_scheme \<Rightarrow> int \<Rightarrow> transaction_repo_model \<Rightarrow> transaction_error + int" where
  "get_age_since_sent_or_created C now tx = (case get_age_since_sent C now tx of
     Inr age \<Rightarrow> Inr age | Inl _ \<Rightarrow> get_age_since_created C now tx)"

section \<open>Facts\<close>

lemma is_final_state_iff:
  "is_final_state s \<longleftrightarrow> s = Canceled \<or> s = Confirmed \<or> s = Failed \<or> s = Expired"
  by (auto simp: is_final_state_def FINAL_TRANSACTION_STATUSES_def)

lemma is_final_state_simps [simp]:
  "is_final_state Canceled" "is_final_state Confirmed" "is_final_state Failed" "is_final_state Expired"
  "\<not> is_final_state Pending" "\<not> is_final_state Sent" "\<not> is_final_state Submitted" "\<not> is_final_state Mined"
  by (auto simp: is_final_state_iff)

lemma final_member [simp]: "(s \<in> set FINAL_TRANSACTION_STATUSES) = is_final_state s"
  by (simp add: is_final_state_def)

lemma active_iff_not_final: "is_active_nonce_status s \<longleftrightarrow> \<not> is_final_state s"
  by (cases s) (auto simp: is_active_nonce_status_def is_final_state_iff)

lemma set_opt_simps [simp]: "set_opt None f r = r" "set_opt (Some x) f r = f x r"
  by (simp_all add: set_opt_def)

lemma update_delete_at_fields [simp]:
  "tx_id (update_delete_at_if_final_status C now tx) = tx_id tx"
  "relayer_id (update_delete_at_if_final_status C now tx) = relayer_id tx"
  "status (update_delete_at_if_final_status C now tx) = status tx"
  "status_reason (update_delete_at_if_final_status C now tx) = status_reason tx"
  "created_at (update_delete_at_if_final_status C now tx) = created_at tx"
  "sent_at (update_delete_at_if_final_status C now tx) = sent_at tx"
  "confirmed_at (update_delete_at_if_final_status C now tx) = confirmed_at tx"
  "valid_until (update_delete_at_if_final_status C now tx) = valid_until tx"
  "network_data (update_delete_at_if_final_status C now tx) = network_data tx"
  "priced_at (update_delete_at_if_final_status C now tx) = priced_at tx"
  "hashes (update_delete_at_if_final_status C now tx) = hashes tx"
  "tx_network_type (update_delete_at_if_final_status C now tx) = tx_network_type tx"
  "noop_count (update_delete_at_if_final_status C now tx) = noop_count tx"
  "is_canceled (update_delete_at_if_final_status C now tx) = is_canceled tx"
  "metadata (update_delete_at_if_final_status C now tx) = metadata tx"
  by (simp_all add: update_delete_at_if_final_status_def)

lemma case_option_same [simp]: "(case v of None \<Rightarrow> c | Some _ \<Rightarrow> c) = c"
  by (cases v) simp_all

lemma set_opt_fields:
  "tx_id (set_opt v f r) = (case v of None \<Rightarrow> tx_id r | Some x \<Rightarrow> tx_id (f x r))"
  "relayer_id (set_opt v f r) = (case v of None \<Rightarrow> relayer_id r | Some x \<Rightarrow> relayer_id (f x r))"
  "status (set_opt v f r) = (case v of None \<Rightarrow> status r | Some x \<Rightarrow> status (f x r))"
  "status_reason (set_opt v f r) = (case v of None \<Rightarrow> status_reason r | Some x \<Rightarrow> status_reason (f x r))"
  "created_at (set_opt v f r) = (case v of None \<Rightarrow> created_at r | Some x \<Rightarrow> created_at (f x r))"
  "sent_at (set_opt v f r) = (case v of None \<Rightarrow> sent_at r | Some x \<Rightarrow> sent_at (f x r))"
  "confirmed_at (set_opt v f r) = (case v of None \<Rightarrow> confirmed_at r | Some x \<Rightarrow> confirmed_at (f x r))"
  "valid_until (set_opt v f r) = (case v of None \<Rightarrow> valid_until r | Some x \<Rightarrow> valid_until (f x r))"
  "delete_at (set_opt v f r) = (case v of None \<Rightarrow> delete_at r | Some x \<Rightarrow> delete_at (f x r))"
  "network_data (set_opt v f r) = (case v of None \<Rightarrow> network_data r | Some x \<Rightarrow> network_data (f x r))"
  "priced_at (set_opt v f r) = (case v of None \<Rightarrow> priced_at r | Some x \<Rightarrow> priced_at (f x r))"
  "hashes (set_opt v f r) = (case v of None \<Rightarrow> hashes r | Some x \<Rightarrow> hashes (f x r))"
  "tx_network_type (set_opt v f r) = (case v of None \<Rightarrow> tx_network_type r | Some x \<Rightarrow> tx_network_type (f x r))"
  "noop_count (set_opt v f r) = (case v of None \<Rightarrow> noop_count r | Some x \<Rightarrow> noop_count (f x r))"
  "is_canceled (set_opt v f r) = (case v of None \<Rightarrow> is_canceled r | Some x \<Rightarrow> is_canceled (f x r))"
  "metadata (set_opt v f r) = (case v of None \<Rightarrow> metadata r | Some x \<Rightarrow> metadata (f x r))"
  by (cases v, simp_all)+

lemma apply_partial_update_fields [simp]:
  "tx_id (apply_partial_update C now u tx) = tx_id tx"
  "relayer_id (apply_partial_update C now u tx) = relayer_id tx"
  "created_at (apply_partial_update C now u tx) = created_at tx"
  "valid_until (apply_partial_update C now u tx) = valid_until tx"
  "tx_network_type (apply_partial_update C now u tx) = tx_network_type tx"
  "status (apply_partial_update C now u tx) = (case up_status u of None \<Rightarrow> status tx | Some s \<Rightarrow> s)"
  "network_data (apply_partial_update C now u tx) = (case up_network_data u of None \<Rightarrow> network_data tx | Some d \<Rightarrow> d)"
  "hashes (apply_partial_update C now u tx) = (case up_hashes u of None \<Rightarrow> hashes tx | Some h \<Rightarrow> h)"
  "status_reason (apply_partial_update C now u tx) = (case up_status_reason u of None \<Rightarrow> status_reason tx | Some v \<Rightarrow> Some v)"
  "sent_at (apply_partial_update C now u tx) = (case up_sent_at u of None \<Rightarrow> sent_at tx | Some v \<Rightarrow> Some v)"
  "confirmed_at (apply_partial_update C now u tx) = (case up_confirmed_at u of None \<Rightarrow> confirmed_at tx | Some v \<Rightarrow> Some v)"
  "priced_at (apply_partial_update C now u tx) = (case up_priced_at u of None \<Rightarrow> priced_at tx | Some v \<Rightarrow> Some v)"
  "noop_count (apply_partial_update C now u tx) = (case up_noop_count u of None \<Rightarrow> noop_count tx | Some v \<Rightarrow> Some v)"
  "is_canceled (apply_partial_update C now u tx) = (case up_is_canceled u of None \<Rightarrow> is_canceled tx | Some v \<Rightarrow> Some v)"
  "metadata (apply_partial_update C now u tx) = (case up_metadata u of None \<Rightarrow> metadata tx | Some v \<Rightarrow> Some v)"
  by (simp_all add: apply_partial_update_def Let_def set_opt_fields cong: option.case_cong)

text \<open>
  The deletion time: an explicit one wins; otherwise a status that becomes final
  sets it once, from the configured expiration.
\<close>

lemma delete_at_apply_partial_update:
  "delete_at (apply_partial_update C now u tx) =
     (case up_delete_at u of Some d \<Rightarrow> Some d
      | None \<Rightarrow> (case up_status u of
          Some s \<Rightarrow> if delete_at tx = None \<and> is_final_state s then calculate_delete_at C now else delete_at tx
        | None \<Rightarrow> delete_at tx))"
  by (auto simp: apply_partial_update_def Let_def set_opt_fields update_delete_at_if_final_status_def
      cong: option.case_cong split: option.splits)

lemma default_update_sel [simp]:
  "up_status default_update = None"
  "up_status_reason default_update = None"
  "up_sent_at default_update = None"
  "up_confirmed_at default_update = None"
  "up_network_data default_update = None"
  "up_priced_at default_update = None"
  "up_hashes default_update = None"
  "up_noop_count default_update = None"
  "up_is_canceled default_update = None"
  "up_delete_at default_update = None"
  "up_metadata default_update = None"
  by (simp_all add: default_update_def)

text \<open>The fields of the updated record never depend on the fields an extension adds to the clock.\<close>

lemma update_delete_at_truncate:
  "update_delete_at_if_final_status (clock_env.truncate C) = update_delete_at_if_final_status C"
  by (intro ext)
    (simp add: update_delete_at_if_final_status_def calculate_delete_at_def clock_env.truncate_def)

lemma apply_partial_update_truncate:
  "apply_partial_update (clock_env.truncate C) = apply_partial_update C"
  by (intro ext) (simp only: apply_partial_update_def update_delete_at_truncate)

section \<open>Sample values\<close>

text \<open>Concrete values at which the properties of the components are instantiated.\<close>

definition ex_evm_data :: evm_transaction_data where
  "ex_evm_data =
     \<lparr> gas_price = None, gas_limit = Some 21000, nonce = Some 7, evm_value = 5,
       evm_data = Some ''0xabcd'', evm_from = ''0xaa'', evm_to = Some ''0xbb'', chain_id = 1,
       evm_hash = Some ''0x01'', evm_signature_of = None, evm_speed = Some Fast,
       max_fee_per_gas = None, max_priority_fee_per_gas = None, evm_raw = Some [1, 2, 3] \<rparr>"

definition ex_tx :: transaction_repo_model where
  "ex_tx =
     \<lparr> tx_id = ''tx-1'', relayer_id = ''relayer'', status = Submitted, status_reason = None,
       created_at = ''+'', sent_at = Some ''+'', confirmed_at = None, valid_until = None,
       delete_at = None, network_data = Evm ex_evm_data, priced_at = None, hashes = [''0x01''],
       tx_network_type = NtEvm, noop_count = None, is_canceled = Some False, metadata = None \<rparr>"

definition ex_to_rfc3339 :: "int \<Rightarrow> string" where
  "ex_to_rfc3339 i = (if i < 0 then CHR ''-'' # replicate (nat (- i)) (CHR ''+'')
                      else replicate (nat i) (CHR ''+''))"

definition ex_parse_rfc3339 :: "string \<Rightarrow> int option" where
  "ex_parse_rfc3339 s = (case s of [] \<Rightarrow> Some 0
     | c # cs \<Rightarrow> if c = CHR ''-'' then Some (- int (length cs)) else Some (int (length s)))"

definition ex_clock :: clock_env where
  "ex_clock = \<lparr> parse_rfc3339 = ex_parse_rfc3339, to_rfc3339 = ex_to_rfc3339,
     transaction_expiration_secs = 14400 \<rparr>"

lemma ex_rfc3339_roundtrip: "ex_parse_rfc3339 (ex_to_rfc3339 i) = Some i"
  by (cases "nat i") (auto simp: ex_parse_rfc3339_def ex_to_rfc3339_def)

section \<open>Properties\<close>

text \<open>
  A transaction in a final status always carries a deletion time, and no partial
  update breaks this, moves a deletion time that is already set unless it names a new
  one, or sets one for a status that is not final.
\<close>

theorem partial_update_delete_at:
  assumes "is_final_state (status tx) \<Longrightarrow> delete_at tx \<noteq> None"
    and "tx' = apply_partial_update C now u tx"
  shows "(is_final_state (status tx') \<longrightarrow> delete_at tx' \<noteq> None)
    \<and> (up_delete_at u = None \<longrightarrow> delete_at tx \<noteq> None \<longrightarrow> delete_at tx' = delete_at tx)
    \<and> (up_delete_at u = None \<longrightarrow> \<not> is_final_state (status tx') \<longrightarrow> delete_at tx' = delete_at tx)"
  using assms by (auto simp: delete_at_apply_partial_update calculate_delete_at_def split: option.splits)

theorem partial_update_delete_at_witness:
  "(\<not> is_final_state (status ex_tx)) \<and>
   delete_at (apply_partial_update ex_clock 0 (default_update\<lparr> up_status := Some Failed \<rparr>) ex_tx) \<noteq> None"
  using partial_update_delete_at [OF _ refl, of ex_tx ex_clock 0 "default_update\<lparr> up_status := Some Failed \<rparr>"]
  by (simp add: ex_tx_def)

text \<open>
  The update built to send a transaction back to its pre-prepare state makes it
  pending and forgets its hash history, but it does not clear the sent and confirmed
  timestamps (a missing field of a partial update leaves the stored value), although
  the documentation of the function says that it clears them.
\<close>

theorem reset_request_keeps_timestamps:
  "let tx' = apply_partial_update C now (create_reset_update_request tx) tx in
     status tx' = Pending \<and> hashes tx' = [] \<and> sent_at tx' = sent_at tx \<and> confirmed_at tx' = confirmed_at tx
     \<and> network_data tx' = (case network_data tx of
          Stellar d \<Rightarrow> Stellar (reset_to_pre_prepare_state d) | d \<Rightarrow> d)"
  by (cases "network_data tx") (simp_all add: create_reset_update_request_def)

end
