(* ===== verification/Tx_Repository.thy ===== *)
theory Tx_Repository
  imports Tx_Model "HOL-Library.List_Lexorder" "HOL-Library.Char_ord"
begin

text \<open>
  The in-memory transaction repository (\<open>repositories/transaction/transaction_in_memory.rs\<close>):
  a store of transactions by id and the idempotency records. A \<open>HashMap\<close> is an
  association list with distinct keys; the order in which the standard library
  visits its values is not specified, so the queries take it as the argument
  \<open>order\<close>, of which they rely only on visiting every value once. The contract of
  the store is the locale \<open>tx_store\<close>, interpreted on these definitions.
\<close>

record idempotency_record =
  fingerprint :: string
  idem_tx_id :: string
  idem_created_at :: string

record tx_repo =
  store :: "(string \<times> transaction_repo_model) list"
  idempotency :: "(string \<times> (idempotency_record \<times> int)) list"

record pagination_query =
  page :: u32
  per_page :: u32

record 'a paginated_result =
  items :: "'a list"
  pr_total :: u64
  pr_page :: u32
  pr_per_page :: u32

record batch_delete_result =
  deleted_count :: nat
  failed :: "(string \<times> string) list"

record transaction_delete_request =
  del_id :: string
  del_relayer_id :: string
  del_nonce :: "u64 option"

type_synonym values_order = "transaction_repo_model list \<Rightarrow> transaction_repo_model list"
type_synonym 'a repo_op = "(tx_repo, repository_error, 'a) eff"

definition new_repo :: tx_repo where
  "new_repo = \<lparr> store = [], idempotency = [] \<rparr>"

definition tx_not_found :: "string \<Rightarrow> repository_error" where
  "tx_not_found i = NotFound (''Transaction with ID '' @ i @ '' not found'')"

section \<open>The generic repository operations\<close>

definition create :: "transaction_repo_model \<Rightarrow> transaction_repo_model repo_op" where
  "create tx = (\<lambda>R.
     if map_of (store R) (tx_id tx) \<noteq> None
     then (Inl (ConstraintViolation (''Transaction with ID '' @ tx_id tx @ '' already exists'')), R)
     else (Inr tx, R\<lparr> store := AList.update (tx_id tx) tx (store R) \<rparr>))"

definition get_by_id :: "string \<Rightarrow> transaction_repo_model repo_op" where
  "get_by_id i = (\<lambda>R. case map_of (store R) i of
     Some tx \<Rightarrow> (Inr tx, R) | None \<Rightarrow> (Inl (tx_not_found i), R))"

definition update_entity :: "string \<Rightarrow> transaction_repo_model \<Rightarrow> transaction_repo_model repo_op" where
  "update_entity i tx = (\<lambda>R.
     if map_of (store R) i \<noteq> None
     then (let updated_tx = tx\<lparr> tx_id := i \<rparr>
           in (Inr updated_tx, R\<lparr> store := AList.update i updated_tx (store R) \<rparr>))
     else (Inl (tx_not_found i), R))"

definition delete_by_id :: "string \<Rightarrow> unit repo_op" where
  "delete_by_id i = (\<lambda>R.
     if map_of (store R) i \<noteq> None then (Inr (), R\<lparr> store := AList.delete i (store R) \<rparr>)
     else (Inl (tx_not_found i), R))"

definition store_values :: "values_order \<Rightarrow> tx_repo \<Rightarrow> transaction_repo_model list" where
  "store_values order R = order (map snd (store R))"

definition list_all_txs :: "values_order \<Rightarrow> transaction_repo_model list repo_op" where
  "list_all_txs order = (\<lambda>R. (Inr (store_values order R), R))"

definition count_txs :: "nat repo_op" where
  "count_txs = (\<lambda>R. (Inr (length (store R)), R))"

definition list_paginated ::
  "values_order \<Rightarrow> pagination_query \<Rightarrow> transaction_repo_model paginated_result repo_op" where
  "list_paginated order q = (\<lambda>R.
     let total = length (store R);
         start = unat ((page q - 1) * per_page q)
     in (Inr \<lparr> items = take (unat (per_page q)) (drop start (store_values order R)),
               pr_total = of_nat total, pr_page = page q, pr_per_page = per_page q \<rparr>, R))"

definition has_entries :: "bool repo_op" where
  "has_entries = (\<lambda>R. (Inr (store R \<noteq> []), R))"

definition drop_all_entries :: "unit repo_op" where
  "drop_all_entries = (\<lambda>R. (Inr (), R\<lparr> store := [] \<rparr>))"

section \<open>Sorted queries\<close>

text \<open>\<open>Itertools::sorted_by\<close> is a stable sort; \<open>le a b\<close> is \<open>cmp(a, b) \<noteq> Greater\<close>.\<close>

fun insert_by :: "('a \<Rightarrow> 'a \<Rightarrow> bool) \<Rightarrow> 'a \<Rightarrow> 'a list \<Rightarrow> 'a list" where
  "insert_by le x [] = [x]"
| "insert_by le x (y # ys) = (if le x y then x # y # ys else y # insert_by le x ys)"

fun sorted_by :: "('a \<Rightarrow> 'a \<Rightarrow> bool) \<Rightarrow> 'a list \<Rightarrow> 'a list" where
  "sorted_by le [] = []"
| "sorted_by le (x # xs) = insert_by le x (sorted_by le xs)"

definition get_sort_key :: "transaction_repo_model \<Rightarrow> string \<times> bool" where
  "get_sort_key tx =
     (case (if status tx = Confirmed then confirmed_at tx else None) of
        Some c \<Rightarrow> (c, True) | None \<Rightarrow> (created_at tx, False))"

definition compare_for_sort :: "transaction_repo_model \<Rightarrow> transaction_repo_model \<Rightarrow> bool" where
  "compare_for_sort a b =
     (let ka = fst (get_sort_key a); kb = fst (get_sort_key b)
      in kb < ka \<or> (kb = ka \<and> tx_id b \<le> tx_id a))"

definition compare_oldest_first :: "transaction_repo_model \<Rightarrow> transaction_repo_model \<Rightarrow> bool" where
  "compare_oldest_first a b =
     (let ka = fst (get_sort_key a); kb = fst (get_sort_key b)
      in ka < kb \<or> (ka = kb \<and> tx_id a \<le> tx_id b))"

definition newest_created_first :: "transaction_repo_model \<Rightarrow> transaction_repo_model \<Rightarrow> bool" where
  "newest_created_first a b = (created_at b \<le> created_at a)"

definition find_by_relayer_id ::
  "values_order \<Rightarrow> string \<Rightarrow> pagination_query \<Rightarrow> transaction_repo_model paginated_result repo_op" where
  "find_by_relayer_id order rid q = (\<lambda>R.
     let filtered = filter (\<lambda>tx. relayer_id tx = rid) (store_values order R);
         total = of_nat (length filtered) :: u64
     in if total = 0
        then (Inr \<lparr> items = [], pr_total = 0, pr_page = page q, pr_per_page = per_page q \<rparr>, R)
        else (let start = unat ((page q - 1) * per_page q)
              in (Inr \<lparr> items = take (unat (per_page q))
                          (drop start (sorted_by newest_created_first filtered)),
                        pr_total = total, pr_page = page q, pr_per_page = per_page q \<rparr>, R)))"

definition find_by_status ::
  "values_order \<Rightarrow> string \<Rightarrow> transaction_status list \<Rightarrow> transaction_repo_model list repo_op" where
  "find_by_status order rid statuses = (\<lambda>R.
     let filtered = filter (\<lambda>tx. relayer_id tx = rid \<and> status tx \<in> set statuses) (store_values order R)
     in (Inr (sorted_by newest_created_first filtered), R))"

definition find_by_status_paginated ::
  "values_order \<Rightarrow> string \<Rightarrow> transaction_status list \<Rightarrow> pagination_query \<Rightarrow> bool \<Rightarrow>
   transaction_repo_model paginated_result repo_op" where
  "find_by_status_paginated order rid statuses q oldest_first = (\<lambda>R.
     let filtered = filter (\<lambda>tx. relayer_id tx = rid \<and> status tx \<in> set statuses) (store_values order R);
         start = unat (saturating_sub (page q) 1 * per_page q);
         sorted = (if oldest_first then sorted_by compare_oldest_first filtered
                   else sorted_by compare_for_sort filtered)
     in (Inr \<lparr> items = take (unat (per_page q)) (drop start sorted),
               pr_total = of_nat (length filtered), pr_page = page q, pr_per_page = per_page q \<rparr>, R))"

definition find_by_status_paginated_filtered ::
  "values_order \<Rightarrow> string \<Rightarrow> transaction_status list \<Rightarrow> pagination_query \<Rightarrow> bool \<Rightarrow> bool \<Rightarrow>
   transaction_repo_model paginated_result repo_op" where
  "find_by_status_paginated_filtered order rid statuses q oldest_first exclude_canceled =
     (if \<not> exclude_canceled then find_by_status_paginated order rid statuses q oldest_first
      else (\<lambda>R.
        let filtered = filter (\<lambda>tx. relayer_id tx = rid \<and> status tx \<in> set statuses
                                 \<and> is_canceled tx \<noteq> Some True) (store_values order R);
            start = unat (saturating_sub (page q) 1 * per_page q);
            sorted = (if oldest_first then sorted_by compare_oldest_first filtered
                      else sorted_by compare_for_sort filtered)
        in (Inr \<lparr> items = take (unat (per_page q)) (drop start sorted),
                  pr_total = of_nat (length filtered), pr_page = page q, pr_per_page = per_page q \<rparr>, R)))"

definition count_by_status ::
  "values_order \<Rightarrow> string \<Rightarrow> transaction_status list \<Rightarrow> u64 repo_op" where
  "count_by_status order rid statuses = (\<lambda>R.
     (Inr (of_nat (length (filter (\<lambda>tx. relayer_id tx = rid \<and> status tx \<in> set statuses)
        (store_values order R)))), R))"

section \<open>Nonce queries\<close>

definition has_nonce :: "string \<Rightarrow> u64 \<Rightarrow> transaction_repo_model \<Rightarrow> bool" where
  "has_nonce rid n tx = (relayer_id tx = rid \<and>
     (case network_data tx of Evm d \<Rightarrow> nonce d = Some n | _ \<Rightarrow> False))"

definition find_by_nonce ::
  "values_order \<Rightarrow> string \<Rightarrow> u64 \<Rightarrow> transaction_repo_model option repo_op" where
  "find_by_nonce order rid n = (\<lambda>R.
     (Inr (case filter (has_nonce rid n) (store_values order R) of [] \<Rightarrow> None | tx # _ \<Rightarrow> Some tx), R))"

definition nonce_range :: "u64 \<Rightarrow> u64 \<Rightarrow> u64 list" where
  "nonce_range from_nonce to_nonce = map of_nat [unat from_nonce ..< unat to_nonce]"

fun occupancy_loop ::
  "values_order \<Rightarrow> string \<Rightarrow> u64 list \<Rightarrow> (u64 \<times> transaction_status option) list \<Rightarrow>
   (u64 \<times> transaction_status option) list repo_op" where
  "occupancy_loop order rid [] results = returnM results"
| "occupancy_loop order rid (n # ns) results =
     bindM (find_by_nonce order rid n) (\<lambda>tx.
     occupancy_loop order rid ns (results @ [(n, map_option status tx)]))"

definition get_nonce_occupancy ::
  "values_order \<Rightarrow> string \<Rightarrow> u64 \<Rightarrow> u64 \<Rightarrow> (u64 \<times> transaction_status option) list repo_op" where
  "get_nonce_occupancy order rid from_nonce to_nonce =
     occupancy_loop order rid (nonce_range from_nonce to_nonce) []"

section \<open>Updates\<close>

definition partial_update ::
  "'e clock_env_scheme \<Rightarrow> int \<Rightarrow> string \<Rightarrow> transaction_update_request \<Rightarrow> transaction_repo_model repo_op" where
  "partial_update C now i update = (\<lambda>R. case map_of (store R) i of
     Some tx \<Rightarrow> (let tx' = apply_partial_update C now update tx
                 in (Inr tx', R\<lparr> store := AList.update i tx' (store R) \<rparr>))
   | None \<Rightarrow> (Inl (tx_not_found i), R))"

definition update_status ::
  "'e clock_env_scheme \<Rightarrow> int \<Rightarrow> string \<Rightarrow> transaction_status \<Rightarrow> transaction_repo_model repo_op" where
  "update_status C now i s = partial_update C now i (default_update\<lparr> up_status := Some s \<rparr>)"

definition set_sent_at ::
  "'e clock_env_scheme \<Rightarrow> int \<Rightarrow> string \<Rightarrow> string \<Rightarrow> transaction_repo_model repo_op" where
  "set_sent_at C now i t = partial_update C now i (default_update\<lparr> up_sent_at := Some t \<rparr>)"

definition update_network_data ::
  "string \<Rightarrow> network_transaction_data \<Rightarrow> transaction_repo_model repo_op" where
  "update_network_data i d =
     bindM (get_by_id i) (\<lambda>tx. update_entity i (tx\<lparr> network_data := d \<rparr>))"

definition set_confirmed_at :: "string \<Rightarrow> string \<Rightarrow> transaction_repo_model repo_op" where
  "set_confirmed_at i t =
     bindM (get_by_id i) (\<lambda>tx. update_entity i (tx\<lparr> confirmed_at := Some t \<rparr>))"

text \<open>The four counters share their shape: no effect on a final transaction.\<close>

definition metadata_or_default :: "transaction_repo_model \<Rightarrow> transaction_metadata" where
  "metadata_or_default tx = (case metadata tx of Some m \<Rightarrow> m | None \<Rightarrow> default_metadata)"

definition mem_is_final_state :: "transaction_status \<Rightarrow> bool" where
  "mem_is_final_state s = (case s of
     Confirmed \<Rightarrow> True | Failed \<Rightarrow> True | Expired \<Rightarrow> True | Canceled \<Rightarrow> True | _ \<Rightarrow> False)"

definition update_unless_final ::
  "string \<Rightarrow> (transaction_repo_model \<Rightarrow> transaction_repo_model) \<Rightarrow> transaction_repo_model repo_op" where
  "update_unless_final i f = (\<lambda>R. case map_of (store R) i of
     Some tx \<Rightarrow> (if mem_is_final_state (status tx) then (Inr tx, R)
                 else (Inr (f tx), R\<lparr> store := AList.update i (f tx) (store R) \<rparr>))
   | None \<Rightarrow> (Inl (tx_not_found i), R))"

definition increment_status_check_failures :: "string \<Rightarrow> transaction_repo_model repo_op" where
  "increment_status_check_failures i = update_unless_final i (\<lambda>tx.
     let m = metadata_or_default tx
     in tx\<lparr> metadata := Some (m\<lparr>
          consecutive_failures := saturating_add (consecutive_failures m) 1,
          total_failures := saturating_add (total_failures m) 1 \<rparr>) \<rparr>)"

definition reset_status_check_consecutive_failures :: "string \<Rightarrow> transaction_repo_model repo_op" where
  "reset_status_check_consecutive_failures i = update_unless_final i (\<lambda>tx.
     tx\<lparr> metadata := Some ((metadata_or_default tx)\<lparr> consecutive_failures := 0 \<rparr>) \<rparr>)"

definition record_stellar_insufficient_fee_retry ::
  "string \<Rightarrow> string \<Rightarrow> transaction_repo_model repo_op" where
  "record_stellar_insufficient_fee_retry i t = update_unless_final i (\<lambda>tx.
     let m = metadata_or_default tx
     in tx\<lparr> metadata := Some (m\<lparr>
              insufficient_fee_retries := saturating_add (insufficient_fee_retries m) 1 \<rparr>),
            sent_at := Some t \<rparr>)"

definition record_stellar_try_again_later_retry ::
  "string \<Rightarrow> string \<Rightarrow> transaction_repo_model repo_op" where
  "record_stellar_try_again_later_retry i t = update_unless_final i (\<lambda>tx.
     let m = metadata_or_default tx
     in tx\<lparr> metadata := Some (m\<lparr>
              try_again_later_retries := saturating_add (try_again_later_retries m) 1 \<rparr>),
            sent_at := Some t \<rparr>)"

section \<open>Batch deletion\<close>

fun delete_loop :: "string list \<Rightarrow> nat \<Rightarrow> (string \<times> string) list \<Rightarrow> batch_delete_result repo_op" where
  "delete_loop [] n fs = returnM \<lparr> deleted_count = n, failed = fs \<rparr>"
| "delete_loop (i # is) n fs = (\<lambda>R.
     if map_of (store R) i \<noteq> None
     then delete_loop is (n + 1) fs (R\<lparr> store := AList.delete i (store R) \<rparr>)
     else delete_loop is n (fs @ [(i, ''Transaction with ID '' @ i @ '' not found'')]) R)"

definition delete_by_ids :: "string list \<Rightarrow> batch_delete_result repo_op" where
  "delete_by_ids ids =
     (if ids = [] then returnM \<lparr> deleted_count = 0, failed = [] \<rparr> else delete_loop ids 0 [])"

definition delete_by_requests :: "transaction_delete_request list \<Rightarrow> batch_delete_result repo_op" where
  "delete_by_requests requests =
     (if requests = [] then returnM \<lparr> deleted_count = 0, failed = [] \<rparr>
      else delete_by_ids (map del_id requests))"

section \<open>Idempotency records\<close>

text \<open>
  The expiry is a reading of the monotonic clock. The reservation reads the clock
  twice: for the purge and for the expiry of the new record.
\<close>

definition idempotency_map_key :: "string \<Rightarrow> string \<Rightarrow> string" where
  "idempotency_map_key rid key = rid @ '':'' @ key"

definition purge_expired_idempotency ::
  "int \<Rightarrow> (string \<times> (idempotency_record \<times> int)) list \<Rightarrow> (string \<times> (idempotency_record \<times> int)) list" where
  "purge_expired_idempotency now m = filter (\<lambda>(_, (_, expires_at)). expires_at > now) m"

definition reserve_idempotency_key ::
  "int \<Rightarrow> int \<Rightarrow> string \<Rightarrow> string \<Rightarrow> idempotency_record \<Rightarrow> u64 \<Rightarrow> bool repo_op" where
  "reserve_idempotency_key now now' rid key record ttl_seconds = (\<lambda>R.
     let m = purge_expired_idempotency now (idempotency R);
         map_key = idempotency_map_key rid key
     in if map_of m map_key \<noteq> None then (Inr False, R\<lparr> idempotency := m \<rparr>)
        else (Inr True, R\<lparr> idempotency :=
                AList.update map_key (record, now' + secs (uint ttl_seconds)) m \<rparr>))"

definition get_idempotency_record ::
  "int \<Rightarrow> string \<Rightarrow> string \<Rightarrow> idempotency_record option repo_op" where
  "get_idempotency_record now rid key = (\<lambda>R.
     let m = purge_expired_idempotency now (idempotency R)
     in (Inr (map_option fst (map_of m (idempotency_map_key rid key))), R\<lparr> idempotency := m \<rparr>))"

definition release_idempotency_key_if_unused ::
  "string \<Rightarrow> string \<Rightarrow> string \<Rightarrow> bool repo_op" where
  "release_idempotency_key_if_unused rid key i = (\<lambda>R.
     if map_of (store R) i \<noteq> None then (Inr False, R)
     else (let map_key = idempotency_map_key rid key;
               owned = (case map_of (idempotency R) map_key of
                          Some (record, _) \<Rightarrow> idem_tx_id record = i | None \<Rightarrow> False)
           in (Inr owned,
               if owned then R\<lparr> idempotency := AList.delete map_key (idempotency R) \<rparr> else R)))"

section \<open>Sorting\<close>

lemma mset_insert_by [simp]: "mset (insert_by le x xs) = add_mset x (mset xs)"
  by (induction xs) auto

lemma mset_sorted_by [simp]: "mset (sorted_by le xs) = mset xs"
  by (induction xs) auto

lemma set_sorted_by [simp]: "set (sorted_by le xs) = set xs"
  using mset_sorted_by [of le xs] by (rule mset_eq_setD)

lemma length_sorted_by [simp]: "length (sorted_by le xs) = length xs"
  using mset_sorted_by [of le xs] by (rule mset_eq_length)

lemma set_insert_by [simp]: "set (insert_by le x xs) = insert x (set xs)"
  by (induction xs) auto

text \<open>The comparators of the source are total preorders, as \<open>Ord::cmp\<close> gives.\<close>

locale comparator =
  fixes le :: "'a \<Rightarrow> 'a \<Rightarrow> bool"
  assumes le_total: "le x y \<or> le y x"
    and le_trans: "le x y \<Longrightarrow> le y z \<Longrightarrow> le x z"
begin

lemma sorted_wrt_insert_by: "sorted_wrt le xs \<Longrightarrow> sorted_wrt le (insert_by le x xs)"
proof (induction xs)
  case (Cons a xs)
  then show ?case
    using le_total [of x a] by (auto intro: le_trans)
qed simp

lemma sorted_wrt_sorted_by: "sorted_wrt le (sorted_by le xs)"
  by (induction xs) (auto simp: sorted_wrt_insert_by)

end

text \<open>With no two equivalent elements the sorted permutation is unique.\<close>

lemma sorted_wrt_unique:
  assumes "sorted_wrt le xs" "sorted_wrt le ys" "mset xs = mset ys"
    and anti: "\<And>x y. x \<in> set xs \<Longrightarrow> y \<in> set xs \<Longrightarrow> le x y \<Longrightarrow> le y x \<Longrightarrow> x = y"
  shows "xs = ys"
  using assms
proof (induction xs arbitrary: ys)
  case (Cons x xs)
  then obtain y ys' where ys: "ys = y # ys'" by (cases ys) auto
  have "x \<in> set ys" "y \<in> set (x # xs)"
    using Cons.prems(3) ys by (metis list.set_intros(1) set_mset_mset)+
  then have "x = y"
    using Cons.prems(1,2) Cons.prems(4)[of x y] ys by auto
  then show ?case
    using Cons.prems ys Cons.IH[of ys'] by auto
qed simp

interpretation sort_newest: comparator compare_for_sort
  by unfold_locales (auto simp: compare_for_sort_def Let_def)

interpretation sort_oldest: comparator compare_oldest_first
  by unfold_locales (auto simp: compare_oldest_first_def Let_def)

interpretation sort_created: comparator newest_created_first
  by unfold_locales (auto simp: newest_created_first_def)

lemma compare_for_sort_antisym: "compare_for_sort a b \<Longrightarrow> compare_for_sort b a \<Longrightarrow> tx_id a = tx_id b"
  by (auto simp: compare_for_sort_def Let_def)

lemma compare_oldest_first_antisym:
  "compare_oldest_first a b \<Longrightarrow> compare_oldest_first b a \<Longrightarrow> tx_id a = tx_id b"
  by (auto simp: compare_oldest_first_def Let_def)

section \<open>Well-formed repositories\<close>

definition repo_wf :: "tx_repo \<Rightarrow> bool" where
  "repo_wf R \<longleftrightarrow> distinct (map fst (store R)) \<and> (\<forall>(i, tx) \<in> set (store R). tx_id tx = i)
     \<and> distinct (map fst (idempotency R))"

abbreviation tx_lookup :: "tx_repo \<Rightarrow> string \<Rightarrow> transaction_repo_model option" where
  "tx_lookup R \<equiv> map_of (store R)"

lemma repo_wf_lookup_id: "repo_wf R \<Longrightarrow> tx_lookup R i = Some tx \<Longrightarrow> tx_id tx = i"
  by (auto simp: repo_wf_def dest!: map_of_SomeD)

lemma in_set_alist_update: "p \<in> set (AList.update k v al) \<Longrightarrow> p = (k, v) \<or> p \<in> set al"
  by (induction al) (auto split: if_splits)

lemma in_set_alist_delete: "p \<in> set (AList.delete k al) \<Longrightarrow> p \<in> set al"
  by (auto simp: AList.delete_eq)

lemma repo_wf_update:
  "repo_wf R \<Longrightarrow> tx_id tx = i \<Longrightarrow> repo_wf (R\<lparr> store := AList.update i tx (store R) \<rparr>)"
  unfolding repo_wf_def
  by (auto simp: distinct_update dest!: in_set_alist_update)

lemma repo_wf_delete: "repo_wf R \<Longrightarrow> repo_wf (R\<lparr> store := AList.delete i (store R) \<rparr>)"
  unfolding repo_wf_def by (auto simp: distinct_delete dest!: in_set_alist_delete)

lemma distinct_map_fst_filter: "distinct (map fst xs) \<Longrightarrow> distinct (map fst (filter P xs))"
  by (induction xs) (auto simp: image_iff)

lemma repo_wf_idempotency:
  "repo_wf R \<Longrightarrow> distinct (map fst m) \<Longrightarrow> repo_wf (R\<lparr> idempotency := m \<rparr>)"
  by (simp add: repo_wf_def)

text \<open>
  The ways the repository changes: one rule per operation of the two traits that
  writes.
\<close>

inductive repo_step :: "tx_repo \<Rightarrow> tx_repo \<Rightarrow> bool" where
  step_create: "repo_step R (snd (create tx R))"
| step_update: "repo_step R (snd (update_entity i tx R))"
| step_delete: "repo_step R (snd (delete_by_id i R))"
| step_drop: "repo_step R (snd (drop_all_entries R))"
| step_partial: "repo_step R (snd (partial_update (C :: clock_env) now i u R))"
| step_network_data: "repo_step R (snd (update_network_data i d R))"
| step_confirmed: "repo_step R (snd (set_confirmed_at i t R))"
| step_incr: "repo_step R (snd (increment_status_check_failures i R))"
| step_reset: "repo_step R (snd (reset_status_check_consecutive_failures i R))"
| step_fee_retry: "repo_step R (snd (record_stellar_insufficient_fee_retry i t R))"
| step_later_retry: "repo_step R (snd (record_stellar_try_again_later_retry i t R))"
| step_delete_ids: "repo_step R (snd (delete_by_ids is R))"
| step_reserve: "repo_step R (snd (reserve_idempotency_key now now' rid key r ttl R))"
| step_get_record: "repo_step R (snd (get_idempotency_record now rid key R))"
| step_release: "repo_step R (snd (release_idempotency_key_if_unused rid key i R))"

lemma repo_wf_delete_loop: "repo_wf R \<Longrightarrow> repo_wf (snd (delete_loop is n fs R))"
  by (induction "is" n fs arbitrary: R rule: delete_loop.induct)
     (auto simp: returnM_def repo_wf_delete)

lemma repo_wf_update_unless_final:
  "repo_wf R \<Longrightarrow> (\<And>tx. tx_id (f tx) = tx_id tx) \<Longrightarrow> repo_wf (snd (update_unless_final i f R))"
  by (auto simp: update_unless_final_def repo_wf_update repo_wf_lookup_id split: option.split)

lemma repo_wf_update_entity: "repo_wf R \<Longrightarrow> repo_wf (snd (update_entity i tx R))"
  by (auto simp: update_entity_def Let_def intro: repo_wf_update)

lemma repo_step_wf: "repo_step R R' \<Longrightarrow> repo_wf R \<Longrightarrow> repo_wf R'"
proof (induction rule: repo_step.induct)
  case (step_partial R C now i u)
  then show ?case
    by (auto simp: partial_update_def Let_def repo_wf_lookup_id intro!: repo_wf_update split: option.split)
next
  case (step_reserve R now now' rid key r ttl)
  then show ?case
    by (auto simp: reserve_idempotency_key_def Let_def purge_expired_idempotency_def repo_wf_def
        intro!: repo_wf_idempotency distinct_map_fst_filter distinct_update)
next
  case (step_get_record R now rid key)
  then show ?case
    by (auto simp: get_idempotency_record_def Let_def purge_expired_idempotency_def repo_wf_def
        intro!: distinct_map_fst_filter)
next
  case (step_release R rid key i)
  then show ?case
    by (auto simp: release_idempotency_key_if_unused_def Let_def repo_wf_def distinct_delete)
next
  case (step_drop R)
  then show ?case by (simp add: drop_all_entries_def repo_wf_def)
next
  case (step_incr R i)
  then show ?case
    unfolding increment_status_check_failures_def by (intro repo_wf_update_unless_final) (auto simp: Let_def)
next
  case (step_reset R i)
  then show ?case
    unfolding reset_status_check_consecutive_failures_def by (intro repo_wf_update_unless_final) auto
next
  case (step_fee_retry R i t)
  then show ?case
    unfolding record_stellar_insufficient_fee_retry_def
    by (intro repo_wf_update_unless_final) (auto simp: Let_def)
next
  case (step_later_retry R i t)
  then show ?case
    unfolding record_stellar_try_again_later_retry_def
    by (intro repo_wf_update_unless_final) (auto simp: Let_def)
qed (auto simp: create_def delete_by_id_def drop_all_entries_def repo_wf_update_entity
    update_network_data_def set_confirmed_at_def bindM_def get_by_id_def delete_by_ids_def returnM_def
    repo_wf_delete_loop repo_wf_delete intro!: repo_wf_update split: option.split)

section \<open>The contract of the store\<close>

text \<open>
  What the handlers rely on, over an abstract lookup. The Redis repository promises
  the same operations; the model proves it for the in-memory one.
\<close>

locale tx_store =
  fixes lookup :: "'r \<Rightarrow> string \<Rightarrow> transaction_repo_model option"
    and create_op :: "transaction_repo_model \<Rightarrow> ('r, repository_error, transaction_repo_model) eff"
    and get_op :: "string \<Rightarrow> ('r, repository_error, transaction_repo_model) eff"
    and delete_op :: "string \<Rightarrow> ('r, repository_error, unit) eff"
    and partial_op :: "int \<Rightarrow> string \<Rightarrow> transaction_update_request \<Rightarrow>
      ('r, repository_error, transaction_repo_model) eff"
    and upd :: "int \<Rightarrow> transaction_update_request \<Rightarrow> transaction_repo_model \<Rightarrow> transaction_repo_model"
  assumes create_fresh: "lookup R (tx_id tx) = None \<Longrightarrow>
      fst (create_op tx R) = Inr tx \<and> lookup (snd (create_op tx R)) = (lookup R)(tx_id tx \<mapsto> tx)"
    and create_dup: "lookup R (tx_id tx) \<noteq> None \<Longrightarrow>
      (\<exists>e. fst (create_op tx R) = Inl e) \<and> lookup (snd (create_op tx R)) = lookup R"
    and get_law: "get_op i R = ((case lookup R i of Some tx \<Rightarrow> Inr tx | None \<Rightarrow> Inl (tx_not_found i)), R)"
    and delete_hit: "lookup R i \<noteq> None \<Longrightarrow>
      fst (delete_op i R) = Inr () \<and> lookup (snd (delete_op i R)) = (lookup R)(i := None)"
    and delete_miss: "lookup R i = None \<Longrightarrow> delete_op i R = (Inl (tx_not_found i), R)"
    and partial_hit: "lookup R i = Some tx \<Longrightarrow> fst (partial_op now i u R) = Inr (upd now u tx) \<and>
      lookup (snd (partial_op now i u R)) = (lookup R)(i \<mapsto> upd now u tx)"
    and partial_miss: "lookup R i = None \<Longrightarrow> partial_op now i u R = (Inl (tx_not_found i), R)"
begin

lemma create_get:
  "fst (create_op tx R) = Inr tx' \<Longrightarrow> fst (get_op (tx_id tx) (snd (create_op tx R))) = Inr tx"
  using create_fresh [of R tx] create_dup [of R tx] by (cases "lookup R (tx_id tx)") (auto simp: get_law)

lemma create_twice: "\<exists>e. fst (create_op tx' (snd (create_op tx R))) = Inl e" if "tx_id tx' = tx_id tx"
  using that create_dup [of "snd (create_op tx R)" tx'] create_dup [of R tx] create_fresh [of R tx]
  by (cases "lookup R (tx_id tx)") auto

lemma delete_get: "fst (get_op i (snd (delete_op i R))) = Inl (tx_not_found i)"
  using delete_hit [of R i] delete_miss [of R i] by (cases "lookup R i") (auto simp: get_law)

lemma partial_get:
  "fst (partial_op now i u R) = Inr tx \<Longrightarrow> fst (get_op i (snd (partial_op now i u R))) = Inr tx"
  using partial_hit [of R i _ now u] partial_miss [of R i now u] by (cases "lookup R i") (auto simp: get_law)

lemma partial_frame: "j \<noteq> i \<Longrightarrow> lookup (snd (partial_op now i u R)) j = lookup R j"
  using partial_hit [of R i _ now u] partial_miss [of R i now u] by (cases "lookup R i") auto

lemma partial_dom: "dom (lookup (snd (partial_op now i u R))) = dom (lookup R)"
  using partial_hit [of R i _ now u] partial_miss [of R i now u] by (cases "lookup R i") auto

end

lemma map_of_alist_update: "map_of (AList.update k v al) = (map_of al)(k \<mapsto> v)"
  by (rule update_conv')

lemma map_of_alist_delete: "map_of (AList.delete k al) = (map_of al)(k := None)"
  by (rule delete_conv')

interpretation mem: tx_store tx_lookup create get_by_id delete_by_id
    "partial_update C" "apply_partial_update C" for C
  by unfold_locales
    (auto simp: create_def get_by_id_def delete_by_id_def partial_update_def Let_def
      map_of_alist_update map_of_alist_delete split: option.splits)

section \<open>Queries\<close>

lemma occupancy_loop_eq:
  "occupancy_loop order rid ns res R =
     (Inr (res @ map (\<lambda>n. (n, map_option status
        (case filter (has_nonce rid n) (store_values order R) of [] \<Rightarrow> None | tx # _ \<Rightarrow> Some tx))) ns), R)"
  by (induction ns arbitrary: res) (simp_all add: eff_defs find_by_nonce_def)

lemma set_nonce_range: "set (nonce_range a b) = {n. a \<le> n \<and> n < b}"
proof -
  have "n \<in> set (nonce_range a b) \<longleftrightarrow> a \<le> n \<and> n < b" for n
  proof
    assume "n \<in> set (nonce_range a b)"
    then obtain k where k: "unat a \<le> k" "k < unat b" "n = of_nat k"
      by (auto simp: nonce_range_def)
    then have "k < 2 ^ 64"
      using unat_le_max [of b] by auto
    then have "unat n = k"
      using k by (simp add: unsigned_of_nat take_bit_nat_eq_self)
    then show "a \<le> n \<and> n < b"
      using k by (simp add: word_le_nat_alt word_less_nat_alt)
  next
    assume "a \<le> n \<and> n < b"
    then have "unat a \<le> unat n" "unat n < unat b"
      by (simp_all add: word_le_nat_alt word_less_nat_alt)
    then show "n \<in> set (nonce_range a b)"
      by (auto simp: nonce_range_def image_iff intro!: bexI [of _ "unat n"])
  qed
  then show ?thesis by blast
qed

lemma delete_loop_store:
  "snd (delete_loop is n fs R) = R\<lparr> store := filter (\<lambda>(i, _). i \<notin> set is) (store R) \<rparr>"
proof (induction "is" arbitrary: n fs R)
  case Nil
  then show ?case by (simp add: returnM_def)
next
  case (Cons i "is")
  have "map_of (store R) i = None \<Longrightarrow>
      filter (\<lambda>(j, _). j \<noteq> i \<and> j \<notin> set is) (store R) = filter (\<lambda>(j, _). j \<notin> set is) (store R)"
    by (rule filter_cong) (auto simp: map_of_eq_None_iff image_iff)
  then show ?case
    using Cons.IH by (auto simp: AList.delete_eq case_prod_unfold eq_commute [of i])
qed

lemma length_alist_delete:
  assumes "distinct (map fst al)" "map_of al i \<noteq> None"
  shows "Suc (length (AList.delete i al)) = length al"
  using assms by (induction al) (auto simp: image_iff split: if_splits)

lemma delete_loop_count:
  assumes "distinct (map fst (store R))"
  shows "\<exists>r. fst (delete_loop is n fs R) = Inr r
     \<and> deleted_count r + length (failed r) = n + length fs + length is
     \<and> deleted_count r + length (store (snd (delete_loop is n fs R))) = n + length (store R)"
  using assms
proof (induction "is" arbitrary: n fs R)
  case (Cons i "is")
  show ?case
  proof (cases "map_of (store R) i")
    case None
    then show ?thesis
      using Cons.IH [of R n "fs @ [(i, ''Transaction with ID '' @ i @ '' not found'')]"] Cons.prems by auto
  next
    case (Some tx)
    then show ?thesis
      using Cons.IH [of "R\<lparr> store := AList.delete i (store R) \<rparr>" "n + 1" fs] Cons.prems
        length_alist_delete [OF Cons.prems, of i]
      by (auto simp: distinct_delete)
  qed
qed (simp add: returnM_def)

section \<open>Idempotency\<close>

lemma idempotency_map_key_inj:
  assumes "CHR '':'' \<notin> set rid" "CHR '':'' \<notin> set rid'"
    and "idempotency_map_key rid key = idempotency_map_key rid' key'"
  shows "rid = rid' \<and> key = key'"
  using assms
proof (induction rid arbitrary: rid')
  case Nil
  then show ?case by (cases rid') (auto simp: idempotency_map_key_def)
next
  case (Cons c cs)
  then show ?case by (cases rid') (auto simp: idempotency_map_key_def)
qed

lemma map_of_purge:
  "distinct (map fst m) \<Longrightarrow> map_of (purge_expired_idempotency now m) k =
     (case map_of m k of Some (r, e) \<Rightarrow> if e > now then Some (r, e) else None | None \<Rightarrow> None)"
  unfolding purge_expired_idempotency_def
  by (induction m) (auto split: option.splits simp: map_of_eq_None_iff image_iff)

lemma repo_wf_new: "repo_wf new_repo"
  by (simp add: new_repo_def repo_wf_def)

lemma repo_wf_reachable: "repo_step\<^sup>*\<^sup>* new_repo R \<Longrightarrow> repo_wf R"
  by (induction rule: rtranclp_induct) (auto intro: repo_step_wf repo_wf_new)

lemma set_store_values: "(\<And>xs. mset (order xs) = mset xs) \<Longrightarrow> set (store_values order R) = snd ` set (store R)"
  using mset_eq_setD [of "order (map snd (store R))" "map snd (store R)"] by (simp add: store_values_def)

lemma store_values_unique_ids:
  assumes "repo_wf R" "\<And>xs. mset (order xs) = mset xs"
    and "a \<in> set (store_values order R)" "b \<in> set (store_values order R)" "tx_id a = tx_id b"
  shows "a = b"
proof -
  have "set (store_values order R) = snd ` set (store R)"
    by (rule set_store_values [OF assms(2)])
  then obtain i j where ij: "(i, a) \<in> set (store R)" "(j, b) \<in> set (store R)"
    using assms(3,4) by auto
  then have "i = tx_id a" "j = tx_id b"
    using assms(1) by (auto simp: repo_wf_def)
  then show ?thesis
    using ij assms(1,5) by (auto simp: repo_wf_def dest: eq_key_imp_eq_value)
qed

lemma sorted_filter_unique:
  assumes "comparator le" "\<And>a b. le a b \<Longrightarrow> le b a \<Longrightarrow> tx_id a = tx_id b"
    and "repo_wf R" "\<And>xs. mset (orda xs) = mset xs" "\<And>xs. mset (ordb xs) = mset xs"
  shows "sorted_by le (filter P (store_values orda R)) = sorted_by le (filter P (store_values ordb R))"
proof (rule sorted_wrt_unique)
  show "sorted_wrt le (sorted_by le (filter P (store_values orda R)))"
    "sorted_wrt le (sorted_by le (filter P (store_values ordb R)))"
    using assms(1) by (auto intro: comparator.sorted_wrt_sorted_by)
  show "mset (sorted_by le (filter P (store_values orda R)))
      = mset (sorted_by le (filter P (store_values ordb R)))"
    using assms(4,5) by (simp add: store_values_def mset_filter)
next
  fix x y
  assume "x \<in> set (sorted_by le (filter P (store_values orda R)))"
    "y \<in> set (sorted_by le (filter P (store_values orda R)))" "le x y" "le y x"
  then have "x \<in> set (store_values orda R)" "y \<in> set (store_values orda R)" "tx_id x = tx_id y"
    using assms(2) [of x y] by auto
  then show "x = y"
    by (rule store_values_unique_ids [OF assms(3,4)])
qed

lemma find_by_status_paginated_order:
  assumes "repo_wf R" "\<And>xs. mset (orda xs) = mset xs" "\<And>xs. mset (ordb xs) = mset xs"
  shows "find_by_status_paginated orda rid sts q oldest R = find_by_status_paginated ordb rid sts q oldest R"
proof -
  have len: "length (filter P (store_values orda R)) = length (filter P (store_values ordb R))" for P
    by (rule mset_eq_length) (simp add: store_values_def assms(2,3))
  have new: "sorted_by compare_for_sort (filter P (store_values orda R))
      = sorted_by compare_for_sort (filter P (store_values ordb R))" for P
    by (rule sorted_filter_unique) (auto intro: sort_newest.comparator_axioms compare_for_sort_antisym assms)
  have old: "sorted_by compare_oldest_first (filter P (store_values orda R))
      = sorted_by compare_oldest_first (filter P (store_values ordb R))" for P
    by (rule sorted_filter_unique) (auto intro: sort_oldest.comparator_axioms compare_oldest_first_antisym assms)
  show ?thesis
    unfolding find_by_status_paginated_def Let_def len new old ..
qed

text \<open>Pages of a list.\<close>

lemma concat_pages: "concat (map (\<lambda>p. take k (drop (p * k) xs)) [0..<m]) = take (m * k) xs"
  by (induction m) (simp_all add: add.commute [of k] take_add)

lemma page_start:
  assumes "0 < p" "(unat p - 1) * unat pp < 2 ^ 32"
  shows "unat (saturating_sub p 1 * pp) = (unat p - 1) * unat (pp :: u32)"
  using assms by (simp add: unat_word_ariths unat_saturating_sub)

section \<open>Refinement of an abstract map\<close>

text \<open>
  The abstract repository is a partial map from ids to transactions. A client is a
  sequence of calls; the in-memory store answers every sequence as the map does.
\<close>

datatype repo_call =
    CreateCall transaction_repo_model
  | GetCall string
  | DeleteCall string
  | PartialCall int string transaction_update_request

type_synonym repo_answer = "repository_error + transaction_repo_model option"

fun call_repo :: "clock_env \<Rightarrow> repo_call \<Rightarrow> tx_repo \<Rightarrow> repo_answer \<times> tx_repo" where
  "call_repo C (CreateCall tx) R = bindM (create tx) (\<lambda>t. returnM (Some t)) R"
| "call_repo C (GetCall i) R = bindM (get_by_id i) (\<lambda>t. returnM (Some t)) R"
| "call_repo C (DeleteCall i) R = bindM (delete_by_id i) (\<lambda>_. returnM None) R"
| "call_repo C (PartialCall now i u) R = bindM (partial_update C now i u) (\<lambda>t. returnM (Some t)) R"

fun call_spec ::
  "clock_env \<Rightarrow> repo_call \<Rightarrow> (string \<Rightarrow> transaction_repo_model option) \<Rightarrow>
   repo_answer \<times> (string \<Rightarrow> transaction_repo_model option)" where
  "call_spec C (CreateCall tx) m =
     (if tx_id tx \<in> dom m
      then (Inl (ConstraintViolation (''Transaction with ID '' @ tx_id tx @ '' already exists'')), m)
      else (Inr (Some tx), m(tx_id tx \<mapsto> tx)))"
| "call_spec C (GetCall i) m =
     (case m i of Some tx \<Rightarrow> (Inr (Some tx), m) | None \<Rightarrow> (Inl (tx_not_found i), m))"
| "call_spec C (DeleteCall i) m =
     (if i \<in> dom m then (Inr None, m(i := None)) else (Inl (tx_not_found i), m))"
| "call_spec C (PartialCall now i u) m =
     (case m i of Some tx \<Rightarrow> (Inr (Some (apply_partial_update C now u tx)),
                                m(i \<mapsto> apply_partial_update C now u tx))
      | None \<Rightarrow> (Inl (tx_not_found i), m))"

fun run_calls :: "('c \<Rightarrow> 's \<Rightarrow> 'a \<times> 's) \<Rightarrow> 'c list \<Rightarrow> 's \<Rightarrow> 'a list \<times> 's" where
  "run_calls f [] s = ([], s)"
| "run_calls f (c # cs) s =
     (let (a, s') = f c s; (as, s'') = run_calls f cs s' in (a # as, s''))"

lemma call_refines: "map_prod id tx_lookup (call_repo C c R) = call_spec C c (tx_lookup R)"
  by (cases c)
    (auto simp: eff_defs create_def get_by_id_def delete_by_id_def partial_update_def Let_def
      map_of_alist_update map_of_alist_delete split: option.splits)

lemma run_calls_refines:
  assumes "\<And>c s. map_prod id denote (f c s) = g c (denote s)"
  shows "map_prod id denote (run_calls f cs s) = run_calls g cs (denote s)"
proof (induction cs arbitrary: s)
  case (Cons c cs)
  obtain a s' where f: "f c s = (a, s')" by fastforce
  obtain as s'' where r: "run_calls f cs s' = (as, s'')" by fastforce
  have "g c (denote s) = (a, denote s')" "run_calls g cs (denote s') = (as, denote s'')"
    using assms [of c s] Cons.IH [of s'] f r by simp_all
  then show ?case by (simp add: f r)
qed simp

lemma status_page_eq:
  fixes pp :: u32
  assumes "0 < p" "p < 2 ^ 32" "(p - 1) * unat pp < 2 ^ 32"
  shows "find_by_status_paginated order rid sts \<lparr> page = of_nat p, per_page = pp \<rparr> False R =
     (Inr \<lparr> items = take (unat pp) (drop ((p - 1) * unat pp) (sorted_by compare_for_sort
               (filter (\<lambda>tx. relayer_id tx = rid \<and> status tx \<in> set sts) (store_values order R)))),
            pr_total = of_nat (length (filter (\<lambda>tx. relayer_id tx = rid \<and> status tx \<in> set sts)
               (store_values order R))), pr_page = of_nat p, pr_per_page = pp \<rparr>, R)"
proof -
  have u: "unat (of_nat p :: u32) = p"
    using assms(2) by (simp add: unsigned_of_nat take_bit_nat_eq_self)
  have "unat (saturating_sub (of_nat p) 1 * pp) = (p - 1) * unat pp"
    using page_start [of "of_nat p" pp] assms by (simp add: u word_less_nat_alt)
  then show ?thesis
    by (simp add: find_by_status_paginated_def Let_def)
qed

definition answer_items :: "('e + 'a paginated_result) \<times> 's \<Rightarrow> 'a list" where
  "answer_items a = (case fst a of Inr r \<Rightarrow> items r | Inl _ \<Rightarrow> [])"

definition matching_by_status ::
  "string \<Rightarrow> transaction_status list \<Rightarrow> tx_repo \<Rightarrow> transaction_repo_model list" where
  "matching_by_status rid sts R =
     filter (\<lambda>tx. relayer_id tx = rid \<and> status tx \<in> set sts) (map snd (store R))"

lemma status_pages_concat:
  fixes pp :: u32
  assumes "repo_wf R" and "\<And>xs. mset (order xs) = mset xs"
    and "0 < pp" and "k * unat pp < 2 ^ 32"
  shows "concat (map (\<lambda>p. answer_items (find_by_status_paginated order rid sts
            \<lparr> page = of_nat p, per_page = pp \<rparr> False R)) [1..<Suc k])
      = take (k * unat pp) (sorted_by compare_for_sort (matching_by_status rid sts R))"
proof -
  let ?S = "sorted_by compare_for_sort (matching_by_status rid sts R)"
  have S: "sorted_by compare_for_sort (filter (\<lambda>tx. relayer_id tx = rid \<and> status tx \<in> set sts)
      (store_values order R)) = ?S"
    using sorted_filter_unique [OF sort_newest.comparator_axioms compare_for_sort_antisym assms(1,2),
        where ordb = "\<lambda>xs. xs"]
    by (simp add: matching_by_status_def store_values_def)
  have pp: "0 < unat pp" using assms(3) by (simp add: word_less_nat_alt)
  have k: "k < 2 ^ 32" using assms(4) pp by (metis le_less_trans mult.right_neutral mult_le_mono2 Suc_leI One_nat_def)
  have "answer_items (find_by_status_paginated order rid sts \<lparr> page = of_nat (Suc p), per_page = pp \<rparr> False R)
      = take (unat pp) (drop (p * unat pp) ?S)" if "p < k" for p
  proof -
    have "p * unat pp < 2 ^ 32"
      using that assms(4) by (metis le_less_trans less_imp_le mult_le_mono1)
    then show ?thesis
      using that k status_page_eq [of "Suc p" pp order rid sts R] S by (simp add: answer_items_def)
  qed
  then have "map (\<lambda>p. answer_items (find_by_status_paginated order rid sts
        \<lparr> page = of_nat p, per_page = pp \<rparr> False R)) [1..<Suc k]
      = map (\<lambda>p. take (unat pp) (drop (p * unat pp) ?S)) [0..<k]"
    by (simp only: map_Suc_upt [symmetric] One_nat_def map_map o_def) simp
  then show ?thesis
    by (simp only: concat_pages)
qed

section \<open>Properties\<close>


text \<open>
  Every repository reached from the empty one by the writing operations has
  unique keys and stores each transaction under its own id.
\<close>

theorem repository_reachable_wf: "repo_step\<^sup>*\<^sup>* new_repo R \<Longrightarrow> repo_wf R"
  by (rule repo_wf_reachable)

text \<open>
  C27: Paginated status queries are stable: whatever order the hash map yields its
  values in, the pages 1 to k are consecutive slices of one list, which is a sorted
  permutation of the matching transactions, and the reported total is its length.
\<close>

theorem status_pages_partition:
  fixes pp :: u32
  assumes "repo_wf R" and "\<And>xs. mset (order xs) = mset xs"
    and "0 < pp" and "k * unat pp < 2 ^ 32"
  shows "\<exists>S. concat (map (\<lambda>p. answer_items (find_by_status_paginated order rid sts
               \<lparr> page = of_nat p, per_page = pp \<rparr> False R)) [1..<Suc k]) = take (k * unat pp) S
           \<and> sorted_wrt compare_for_sort S \<and> mset S = mset (matching_by_status rid sts R)
           \<and> (\<forall>order'. (\<forall>xs. mset (order' xs) = mset xs) \<longrightarrow>
                (\<forall>q. find_by_status_paginated order' rid sts q False R
                   = find_by_status_paginated order rid sts q False R))"
  using status_pages_concat [OF assms] sort_newest.sorted_wrt_sorted_by
    find_by_status_paginated_order [OF assms(1) _ assms(2)]
  by (intro exI [of _ "sorted_by compare_for_sort (matching_by_status rid sts R)"]) auto

text \<open>
  The nonce occupancy of a range lists its nonces in ascending order, each once;
  a nonce is reported free exactly when no stored EVM transaction of the relayer
  carries it, and otherwise with the status of one that does.
\<close>

theorem nonce_occupancy_exact:
  assumes "\<And>xs. mset (order xs) = mset xs"
  shows "\<exists>occ. get_nonce_occupancy order rid a b R = (Inr occ, R) \<and> map fst occ = nonce_range a b
     \<and> (\<forall>(n, st) \<in> set occ. case st of
          None \<Rightarrow> \<not> (\<exists>tx \<in> snd ` set (store R). has_nonce rid n tx)
        | Some s \<Rightarrow> (\<exists>tx \<in> snd ` set (store R). has_nonce rid n tx \<and> status tx = s))"
proof -
  have vals: "set (store_values order R) = snd ` set (store R)"
    by (rule set_store_values [OF assms])
  have "case map_option status (case filter (has_nonce rid n) (store_values order R) of
            [] \<Rightarrow> None | tx # _ \<Rightarrow> Some tx) of
          None \<Rightarrow> \<not> (\<exists>tx \<in> snd ` set (store R). has_nonce rid n tx)
        | Some s \<Rightarrow> (\<exists>tx \<in> snd ` set (store R). has_nonce rid n tx \<and> status tx = s)" for n
  proof (cases "filter (has_nonce rid n) (store_values order R)")
    case Nil
    then show ?thesis using vals by (auto simp: filter_empty_conv)
  next
    case (Cons tx txs)
    then have "tx \<in> set (filter (has_nonce rid n) (store_values order R))" by simp
    then have "tx \<in> snd ` set (store R) \<and> has_nonce rid n tx" by (simp add: vals)
    then show ?thesis by (simp only: Cons list.case option.map option.case) blast
  qed
  then show ?thesis
    by (intro exI [of _ "map (\<lambda>n. (n, map_option status
          (case filter (has_nonce rid n) (store_values order R) of [] \<Rightarrow> None | tx # _ \<Rightarrow> Some tx)))
          (nonce_range a b)"] conjI)
      (simp add: get_nonce_occupancy_def occupancy_loop_eq, simp add: comp_def,
       simp only: set_map ball_simps prod.case, blast)
qed

text \<open>
  Deleting a batch of ids removes exactly the stored transactions with one of
  those ids, counts every removed transaction once, and reports every other
  requested id as failed.
\<close>

theorem delete_by_ids_exact:
  assumes "repo_wf R"
  shows "\<exists>r. delete_by_ids ids R = (Inr r, R\<lparr> store := filter (\<lambda>(i, _). i \<notin> set ids) (store R) \<rparr>)
     \<and> deleted_count r + length (failed r) = length ids
     \<and> deleted_count r + length (filter (\<lambda>(i, _). i \<notin> set ids) (store R)) = length (store R)"
proof (cases "ids = []")
  case True
  then show ?thesis by (simp add: delete_by_ids_def returnM_def)
next
  case False
  have "distinct (map fst (store R))" using assms by (simp add: repo_wf_def)
  from delete_loop_count [OF this, of ids 0 "[]"] False show ?thesis
    using delete_loop_store [of ids 0 "[]" R] by (auto simp: delete_by_ids_def prod_eq_iff)
qed

lemma reserve_taken:
  assumes "repo_wf R" "map_of (idempotency R) (idempotency_map_key rid key) = Some (r, e)" "t < e"
  shows "\<exists>R'. reserve_idempotency_key t t' rid key r' ttl R = (Inr False, R') \<and> repo_wf R'
     \<and> map_of (idempotency R') (idempotency_map_key rid key) = Some (r, e)"
proof -
  have d: "distinct (map fst (idempotency R))" using assms(1) by (simp add: repo_wf_def)
  then have "map_of (purge_expired_idempotency t (idempotency R)) (idempotency_map_key rid key) = Some (r, e)"
    using assms by (simp add: map_of_purge)
  then show ?thesis
    using assms(1) d
    by (auto simp: reserve_idempotency_key_def Let_def purge_expired_idempotency_def
        intro!: repo_wf_idempotency distinct_map_fst_filter)
qed

lemma reserve_taken_all:
  assumes "repo_wf R" "map_of (idempotency R) (idempotency_map_key rid key) = Some (r, e)"
    and "\<forall>(t, t', r', ttl) \<in> set as. t < e"
  shows "\<exists>R'. run_calls (\<lambda>(t, t', r', ttl). reserve_idempotency_key t t' rid key r' ttl) as R
        = (replicate (length as) (Inr False), R') \<and> repo_wf R'
     \<and> map_of (idempotency R') (idempotency_map_key rid key) = Some (r, e)"
  using assms
proof (induction as arbitrary: R)
  case (Cons a as)
  obtain t t' r' ttl where a: "a = (t, t', r', ttl)" by (cases a)
  obtain R1 where "reserve_idempotency_key t t' rid key r' ttl R = (Inr False, R1)" "repo_wf R1"
    "map_of (idempotency R1) (idempotency_map_key rid key) = Some (r, e)"
    using reserve_taken [OF Cons.prems(1,2), of t t' r' ttl] Cons.prems(3) a by auto
  moreover obtain R2 where "run_calls (\<lambda>(t, t', r', ttl). reserve_idempotency_key t t' rid key r' ttl) as R1
        = (replicate (length as) (Inr False), R2)" "repo_wf R2"
    "map_of (idempotency R2) (idempotency_map_key rid key) = Some (r, e)"
    using Cons.IH [of R1] Cons.prems(3) calculation by auto
  ultimately show ?case by (simp add: a)
qed simp

text \<open>
  C19: An idempotency key has one winner: once a reservation succeeds, every further
  reservation of the same relayer and key before the record expires is refused,
  whatever record it carries, and the record read back is the winner's.
\<close>

theorem idempotency_single_winner:
  assumes "repo_wf R"
    and "reserve_idempotency_key t0 t1 rid key r ttl R = (Inr True, R1)"
    and "\<forall>(t, t', r', ttl') \<in> set as. t < t1 + secs (uint ttl)" and "t2 < t1 + secs (uint ttl)"
  shows "\<exists>R2 R3. run_calls (\<lambda>(t, t', r', ttl'). reserve_idempotency_key t t' rid key r' ttl') as R1
           = (replicate (length as) (Inr False), R2)
       \<and> get_idempotency_record t2 rid key R2 = (Inr (Some r), R3)"
proof -
  have d: "distinct (map fst (idempotency R))" using assms(1) by (simp add: repo_wf_def)
  have "repo_wf R1"
    using repo_step_wf [OF step_reserve assms(1), of t0 t1 rid key r ttl] assms(2) by simp
  moreover have "map_of (idempotency R1) (idempotency_map_key rid key) = Some (r, t1 + secs (uint ttl))"
    using assms(2) by (auto simp: reserve_idempotency_key_def Let_def map_of_alist_update split: if_splits)
  ultimately obtain R2 where R2: "run_calls (\<lambda>(t, t', r', ttl'). reserve_idempotency_key t t' rid key r' ttl') as R1
        = (replicate (length as) (Inr False), R2)" "repo_wf R2"
      "map_of (idempotency R2) (idempotency_map_key rid key) = Some (r, t1 + secs (uint ttl))"
    using reserve_taken_all [of R1 rid key r "t1 + secs (uint ttl)" as] assms(3) by auto
  then have "distinct (map fst (idempotency R2))" by (simp add: repo_wf_def)
  then show ?thesis
    using R2 assms(4) by (auto simp: get_idempotency_record_def Let_def map_of_purge)
qed


section \<open>Witnesses\<close>

definition ex_tx2 :: transaction_repo_model where
  "ex_tx2 = ex_tx\<lparr> tx_id := ''tx-2'', created_at := ''++'', status := Pending \<rparr>"

definition ex_repo :: tx_repo where
  "ex_repo = \<lparr> store = [(''tx-1'', ex_tx), (''tx-2'', ex_tx2)], idempotency = [] \<rparr>"

definition ex_record :: idempotency_record where
  "ex_record = \<lparr> fingerprint = ''f'', idem_tx_id = ''tx-9'', idem_created_at = ''+'' \<rparr>"

lemma ex_repo_wf: "repo_wf ex_repo"
  by (simp add: ex_repo_def repo_wf_def ex_tx_def ex_tx2_def)

theorem repository_reachable_wf_witness:
  "repo_step\<^sup>*\<^sup>* new_repo (snd (create ex_tx new_repo)) \<and> repo_wf (snd (create ex_tx new_repo))"
  using repository_reachable_wf [of "snd (create ex_tx new_repo)"]
    r_into_rtranclp [of repo_step new_repo, OF step_create [of new_repo ex_tx]] by blast

theorem status_pages_partition_witness:
  "repo_wf ex_repo \<and> (\<exists>S. concat (map (\<lambda>p. answer_items (find_by_status_paginated rev ''relayer'' [Pending, Submitted]
       \<lparr> page = of_nat p, per_page = 1 \<rparr> False ex_repo)) [1..<Suc 2]) = take 2 S
     \<and> mset S = mset (matching_by_status ''relayer'' [Pending, Submitted] ex_repo))"
  using status_pages_partition [of ex_repo rev 1 2 "''relayer''" "[Pending, Submitted]"] ex_repo_wf by auto

theorem nonce_occupancy_exact_witness:
  "\<exists>occ. get_nonce_occupancy rev ''relayer'' 5 8 ex_repo = (Inr occ, ex_repo)
     \<and> map fst occ = nonce_range 5 8"
  using nonce_occupancy_exact [of rev "''relayer''" 5 8 ex_repo] by auto

theorem delete_by_ids_exact_witness:
  "repo_wf ex_repo \<and> (\<exists>r. fst (delete_by_ids [''tx-1'', ''tx-7''] ex_repo) = Inr r
     \<and> deleted_count r + length (failed r) = 2)"
  using delete_by_ids_exact [of ex_repo "[''tx-1'', ''tx-7'']"] ex_repo_wf by auto

theorem idempotency_single_winner_witness:
  "\<exists>R1 R2 R3. reserve_idempotency_key 0 1 ''r'' ''k'' ex_record 60 ex_repo = (Inr True, R1)
     \<and> run_calls (\<lambda>(t, t', r', ttl'). reserve_idempotency_key t t' ''r'' ''k'' r' ttl')
         [(2, 3, ex_record\<lparr> idem_tx_id := ''x'' \<rparr>, 60)] R1 = ([Inr False], R2)
     \<and> get_idempotency_record 4 ''r'' ''k'' R2 = (Inr (Some ex_record), R3)"
proof -
  obtain R1 where "reserve_idempotency_key 0 1 ''r'' ''k'' ex_record 60 ex_repo = (Inr True, R1)"
    by (simp add: reserve_idempotency_key_def ex_repo_def purge_expired_idempotency_def)
  then show ?thesis
    using idempotency_single_winner [OF ex_repo_wf, of 0 1 "''r''" "''k''" ex_record 60 R1
        "[(2, 3, ex_record\<lparr> idem_tx_id := ''x'' \<rparr>, 60)]" 4]
    by (auto simp: secs_def)
qed

end
