(* ===== verification/Tx_Counter.thy ===== *)
theory Tx_Counter
  imports Tx_Model
begin

text \<open>
  The nonce counter: the in-memory store
  (\<open>repositories/transaction_counter/transaction_counter_in_memory.rs\<close>) and the service
  that binds it to a relayer and an address (\<open>services/transaction_counter/mod.rs\<close>).
  What the allocation of nonces relies on is the locale \<open>nonce_counter\<close>, interpreted
  on both.
\<close>

type_synonym counter_store = "string \<times> string \<Rightarrow> u64 option"
type_synonym 'a counter_op = "(counter_store, repository_error, 'a) eff"

section \<open>In-memory counter\<close>

definition counter_get :: "string \<Rightarrow> string \<Rightarrow> u64 option counter_op" where
  "counter_get rid addr = (\<lambda>S. (Inr (S (rid, addr)), S))"

definition counter_get_and_increment :: "string \<Rightarrow> string \<Rightarrow> u64 counter_op" where
  "counter_get_and_increment rid addr = (\<lambda>S.
     let current = (case S (rid, addr) of Some n \<Rightarrow> n | None \<Rightarrow> 0)
     in (Inr current, S((rid, addr) \<mapsto> current + 1)))"

definition counter_decrement :: "string \<Rightarrow> string \<Rightarrow> u64 counter_op" where
  "counter_decrement rid addr = (\<lambda>S. case S (rid, addr) of
     None \<Rightarrow> (Inl (NotFound (''Counter not found for '' @ addr)), S)
   | Some n \<Rightarrow> (let n' = (if n > 0 then n - 1 else n) in (Inr n', S((rid, addr) \<mapsto> n'))))"

definition counter_set :: "string \<Rightarrow> string \<Rightarrow> u64 \<Rightarrow> unit counter_op" where
  "counter_set rid addr v = (\<lambda>S. (Inr (), S((rid, addr) \<mapsto> v)))"

definition counter_sync_floor :: "string \<Rightarrow> string \<Rightarrow> u64 \<Rightarrow> u64 counter_op" where
  "counter_sync_floor rid addr floor = (\<lambda>S.
     let entry = (case S (rid, addr) of Some n \<Rightarrow> n | None \<Rightarrow> floor);
         entry' = (if entry < floor then floor else entry)
     in (Inr entry', S((rid, addr) \<mapsto> entry')))"

definition counter_set_if_equals :: "string \<Rightarrow> string \<Rightarrow> u64 \<Rightarrow> u64 \<Rightarrow> bool counter_op" where
  "counter_set_if_equals rid addr expected v = (\<lambda>S. case S (rid, addr) of
     Some entry \<Rightarrow> if entry = expected \<and> v < expected then (Inr True, S((rid, addr) \<mapsto> v)) else (Inr False, S)
   | None \<Rightarrow> (Inr False, S))"

definition counter_drop_all_entries :: "unit counter_op" where
  "counter_drop_all_entries = (\<lambda>S. (Inr (), (\<lambda>_. None)))"

section \<open>Counter service\<close>

datatype transaction_counter_error = SequenceNotFound string string | CounterNotFound string

record counter_service =
  svc_relayer_id :: string
  svc_address :: string

type_synonym 'a service_op = "(counter_store, transaction_counter_error, 'a) eff"

definition not_found_of :: "repository_error \<Rightarrow> transaction_counter_error" where
  "not_found_of e = CounterNotFound (show_repository_error e)"

definition svc_get :: "counter_service \<Rightarrow> u64 option service_op" where
  "svc_get V = map_errM not_found_of (counter_get (svc_relayer_id V) (svc_address V))"

definition svc_get_and_increment :: "counter_service \<Rightarrow> u64 service_op" where
  "svc_get_and_increment V = map_errM not_found_of (counter_get_and_increment (svc_relayer_id V) (svc_address V))"

definition svc_decrement :: "counter_service \<Rightarrow> u64 service_op" where
  "svc_decrement V = map_errM not_found_of (counter_decrement (svc_relayer_id V) (svc_address V))"

definition svc_set :: "counter_service \<Rightarrow> u64 \<Rightarrow> unit service_op" where
  "svc_set V v = map_errM not_found_of (counter_set (svc_relayer_id V) (svc_address V) v)"

definition svc_sync_floor :: "counter_service \<Rightarrow> u64 \<Rightarrow> u64 service_op" where
  "svc_sync_floor V floor = map_errM not_found_of (counter_sync_floor (svc_relayer_id V) (svc_address V) floor)"

definition svc_set_if_equals :: "counter_service \<Rightarrow> u64 \<Rightarrow> u64 \<Rightarrow> bool service_op" where
  "svc_set_if_equals V expected v =
     map_errM not_found_of (counter_set_if_equals (svc_relayer_id V) (svc_address V) expected v)"

section \<open>Traces of counter calls\<close>

datatype counter_call = Alloc | Floor u64 | Lower u64 u64

text \<open>The nonces that a sequence of calls allocates, in order.\<close>

fun allocated ::
  "('s, 'e, u64) eff \<Rightarrow> (u64 \<Rightarrow> ('s, 'e, u64) eff) \<Rightarrow> (u64 \<Rightarrow> u64 \<Rightarrow> ('s, 'e, bool) eff) \<Rightarrow>
   counter_call list \<Rightarrow> 's \<Rightarrow> u64 list" where
  "allocated alloc raise lower [] s = []"
| "allocated alloc raise lower (Alloc # cs) s =
     (case alloc s of (Inr n, s') \<Rightarrow> n # allocated alloc raise lower cs s'
      | (Inl _, s') \<Rightarrow> allocated alloc raise lower cs s')"
| "allocated alloc raise lower (Floor f # cs) s = allocated alloc raise lower cs (snd (raise f s))"
| "allocated alloc raise lower (Lower e v # cs) s = allocated alloc raise lower cs (snd (lower e v s))"

section \<open>The contract\<close>

locale nonce_counter =
  fixes cur :: "'s \<Rightarrow> u64 option"
    and alloc :: "('s, 'e, u64) eff"
    and raise_to :: "u64 \<Rightarrow> ('s, 'e, u64) eff"
    and lower :: "u64 \<Rightarrow> u64 \<Rightarrow> ('s, 'e, bool) eff"
  assumes alloc_res: "fst (alloc s) = Inr (case cur s of Some n \<Rightarrow> n | None \<Rightarrow> 0)"
    and alloc_cur: "cur (snd (alloc s)) = Some ((case cur s of Some n \<Rightarrow> n | None \<Rightarrow> 0) + 1)"
    and raise_cur: "cur (snd (raise_to f s)) = Some (case cur s of Some n \<Rightarrow> max n f | None \<Rightarrow> f)"
    and lower_res: "fst (lower e v s) = Inr (cur s = Some e \<and> v < e)"
    and lower_cur: "cur (snd (lower e v s)) = (if cur s = Some e \<and> v < e then Some v else cur s)"
begin

definition next_nonce :: "'s \<Rightarrow> u64" where
  "next_nonce s = (case cur s of Some n \<Rightarrow> n | None \<Rightarrow> 0)"

text \<open>
  Without rewinds, allocations are strictly increasing and never below the value
  the counter starts from, as long as the counter does not wrap.
\<close>

lemma allocated_increasing:
  assumes "\<forall>c \<in> set cs. case c of Lower _ _ \<Rightarrow> False | Floor f \<Rightarrow> unat f + length cs < 2 ^ 64 | Alloc \<Rightarrow> True"
    and "unat (next_nonce s) + length cs < 2 ^ 64"
  shows "sorted_wrt (<) (allocated alloc raise_to lower cs s)
     \<and> (\<forall>n \<in> set (allocated alloc raise_to lower cs s). next_nonce s \<le> n)"
  using assms
proof (induction cs arbitrary: s)
  case (Cons c cs)
  show ?case
  proof (cases c)
    case Alloc
    let ?s = "snd (alloc s)"
    have a: "alloc s = (Inr (next_nonce s), ?s)"
      using alloc_res [of s] by (simp add: next_nonce_def prod_eq_iff)
    have n: "next_nonce ?s = next_nonce s + 1"
      using alloc_cur [of s] by (simp add: next_nonce_def)
    then have u: "unat (next_nonce ?s) = Suc (unat (next_nonce s))"
      using Cons.prems(2) by (simp add: unat_word_ariths)
    have ih: "sorted_wrt (<) (allocated alloc raise_to lower cs ?s)
        \<and> (\<forall>n \<in> set (allocated alloc raise_to lower cs ?s). next_nonce ?s \<le> n)"
      by (rule Cons.IH) (use Cons.prems u in \<open>auto split: counter_call.splits\<close>)
    have lt: "next_nonce s < next_nonce ?s" by (simp add: word_less_nat_alt u)
    have "allocated alloc raise_to lower (c # cs) s = next_nonce s # allocated alloc raise_to lower cs ?s"
      by (subst Alloc, simp only: allocated.simps, subst a, simp)
    then show ?thesis using ih lt by (auto dest: less_le_trans)
  next
    case (Floor f)
    let ?s = "snd (raise_to f s)"
    have n: "next_nonce ?s = (case cur s of Some n \<Rightarrow> max n f | None \<Rightarrow> f)"
      using raise_cur [of f s] by (simp add: next_nonce_def)
    then have le: "next_nonce s \<le> next_nonce ?s"
      by (auto simp: next_nonce_def split: option.splits)
    have "unat (next_nonce ?s) = unat f \<or> next_nonce ?s = next_nonce s"
      using n by (auto simp: next_nonce_def max_def split: option.splits if_splits)
    then have "unat (next_nonce ?s) + length cs < 2 ^ 64"
      using Cons.prems Floor by auto
    then have "sorted_wrt (<) (allocated alloc raise_to lower cs ?s)
        \<and> (\<forall>n \<in> set (allocated alloc raise_to lower cs ?s). next_nonce ?s \<le> n)"
      by (intro Cons.IH) (use Cons.prems in \<open>auto split: counter_call.splits\<close>)
    then show ?thesis using le Floor by (auto intro: order_trans)
  next
    case (Lower e v)
    then show ?thesis using Cons.prems(1) by simp
  qed
qed simp

text \<open>A rewind takes effect only on the value that was observed, and only downwards.\<close>

lemma lower_guard: "fst (lower e v s) = Inr True \<Longrightarrow> cur s = Some e \<and> cur (snd (lower e v s)) = Some v \<and> v < e"
  by (auto simp: lower_res lower_cur)

end

interpretation mem_counter: nonce_counter "\<lambda>S. S (rid, addr)" "counter_get_and_increment rid addr"
    "counter_sync_floor rid addr" "counter_set_if_equals rid addr" for rid addr
  by unfold_locales
    (auto simp: counter_get_and_increment_def counter_sync_floor_def counter_set_if_equals_def Let_def max_def
      split: option.splits)

interpretation svc_counter: nonce_counter "\<lambda>S. S (svc_relayer_id V, svc_address V)" "svc_get_and_increment V"
    "svc_sync_floor V" "svc_set_if_equals V" for V
  by unfold_locales
    (auto simp: svc_get_and_increment_def svc_sync_floor_def svc_set_if_equals_def map_errM_def
      counter_get_and_increment_def counter_sync_floor_def counter_set_if_equals_def Let_def max_def
      split: option.splits)

text \<open>Counters of different relayers or addresses do not influence each other.\<close>

lemma counter_frame:
  assumes "(rid', addr') \<noteq> (rid, addr)"
  shows "snd (counter_get_and_increment rid addr S) (rid', addr') = S (rid', addr')"
    and "snd (counter_sync_floor rid addr f S) (rid', addr') = S (rid', addr')"
    and "snd (counter_set_if_equals rid addr e v S) (rid', addr') = S (rid', addr')"
    and "snd (counter_decrement rid addr S) (rid', addr') = S (rid', addr')"
  using assms by (auto simp: counter_get_and_increment_def counter_sync_floor_def Let_def
      counter_set_if_equals_def counter_decrement_def split: option.splits)

section \<open>Properties\<close>



text \<open>
  A rewind is a guarded compare-and-set: it reports success exactly when the
  counter still holds the observed value and the new value is lower, and then the
  next allocation hands out the new value; otherwise the counter is unchanged. A
  counter that does not exist is never created by it.
\<close>

theorem rewind_compare_and_set:
  "case svc_set_if_equals V expected v S of (res, S') \<Rightarrow>
     res = Inr (S (svc_relayer_id V, svc_address V) = Some expected \<and> v < expected)
     \<and> (if S (svc_relayer_id V, svc_address V) = Some expected \<and> v < expected
        then fst (svc_get_and_increment V S') = Inr v else S' = S)"
  by (auto simp: svc_set_if_equals_def svc_get_and_increment_def map_errM_def counter_set_if_equals_def
      counter_get_and_increment_def Let_def split: option.splits)

end
