(* ===== verification/Evm_Config.thy ===== *)
theory Evm_Config
  imports Tx_Model
begin

text \<open>
  Configuration data of the EVM handlers: the network (\<open>models/network/evm/network.rs\<close>,
  \<open>constants/network_tags.rs\<close>), the relayer and its policy (\<open>models/relayer\<close>), the
  constants of \<open>constants/evm_transaction.rs\<close> and the pure helpers of
  \<open>utils/transaction.rs\<close>.
\<close>

section \<open>Constants\<close>

definition DEFAULT_TX_VALID_TIMESPAN :: int where "DEFAULT_TX_VALID_TIMESPAN = 8 * 60 * 60 * 1000"
definition DEFAULT_GAS_LIMIT :: u64 where "DEFAULT_GAS_LIMIT = 21000"
definition ERC20_TRANSFER_GAS_LIMIT :: u64 where "ERC20_TRANSFER_GAS_LIMIT = 65000"
definition ERC721_TRANSFER_GAS_LIMIT :: u64 where "ERC721_TRANSFER_GAS_LIMIT = 80000"
definition COMPLEX_GAS_LIMIT :: u64 where "COMPLEX_GAS_LIMIT = 200000"
definition GAS_TX_CREATE_CONTRACT :: u64 where "GAS_TX_CREATE_CONTRACT = 53000"
definition GAS_TX_DATA_ZERO :: u64 where "GAS_TX_DATA_ZERO = 4"
definition GAS_TX_DATA_NONZERO :: u64 where "GAS_TX_DATA_NONZERO = 16"
definition GAS_LIMIT_BUFFER_MULTIPLIER :: u64 where "GAS_LIMIT_BUFFER_MULTIPLIER = 110"
definition MAXIMUM_TX_ATTEMPTS :: nat where "MAXIMUM_TX_ATTEMPTS = 50"
definition MAXIMUM_NOOP_RETRY_ATTEMPTS :: u32 where "MAXIMUM_NOOP_RETRY_ATTEMPTS = 50"
definition ARBITRUM_TIME_TO_RESUBMIT :: int where "ARBITRUM_TIME_TO_RESUBMIT = 20000"
definition ARBITRUM_GAS_LIMIT :: u64 where "ARBITRUM_GAS_LIMIT = 50000"
definition EVM_MIN_AGE_FOR_RESUBMIT_SECONDS :: int where "EVM_MIN_AGE_FOR_RESUBMIT_SECONDS = 20"
definition EVM_MIN_HASHES_FOR_RECOVERY :: nat where "EVM_MIN_HASHES_FOR_RECOVERY = 3"
definition MAX_NONCE_TOO_HIGH_RETRIES :: u32 where "MAX_NONCE_TOO_HIGH_RETRIES = 3"
definition MAX_GAP_SCAN_RANGE :: u64 where "MAX_GAP_SCAN_RANGE = 100"
definition get_evm_prepare_timeout :: int where "get_evm_prepare_timeout = mins 2"
definition get_evm_resend_timeout :: int where "get_evm_resend_timeout = secs 25"
definition get_evm_pending_recovery_trigger_timeout :: int where
  "get_evm_pending_recovery_trigger_timeout = secs 20"
definition get_evm_min_age_for_hash_recovery :: int where "get_evm_min_age_for_hash_recovery = mins 2"
definition DEFAULT_EVM_GAS_PRICE_CAP :: u128 where "DEFAULT_EVM_GAS_PRICE_CAP = 100000000000"
definition DEFAULT_EVM_MIN_BALANCE :: u128 where "DEFAULT_EVM_MIN_BALANCE = 1"
definition DEFAULT_EVM_GAS_LIMIT_ESTIMATION :: bool where "DEFAULT_EVM_GAS_LIMIT_ESTIMATION = True"
definition DEFAULT_EVM_INCLUDE_REVERT_DATA :: bool where "DEFAULT_EVM_INCLUDE_REVERT_DATA = False"

section \<open>Networks\<close>

record rpc_config =
  rpc_url :: string
  rpc_weight :: u8

record gas_price_cache_config =
  cache_enabled :: bool
  stale_after_ms :: u64
  expire_after_ms :: u64

record evm_network =
  net_network :: string
  net_rpc_urls :: "rpc_config list"
  net_explorer_urls :: "string list option"
  net_average_blocktime_ms :: u64
  net_is_testnet :: bool
  net_tags :: "string list"
  net_chain_id :: u64
  net_required_confirmations :: u64
  net_status_check_initial_delay_seconds :: u64
  net_status_check_retry_delay_seconds :: u64
  net_features :: "string list"
  net_symbol :: string
  net_gas_price_cache :: "gas_price_cache_config option"

definition NO_MEMPOOL_TAG :: string where "NO_MEMPOOL_TAG = ''no-mempool''"
definition ARBITRUM_BASED_TAG :: string where "ARBITRUM_BASED_TAG = ''arbitrum-based''"
definition OPTIMISM_BASED_TAG :: string where "OPTIMISM_BASED_TAG = ''optimism-based''"
definition POLYGON_ZKEVM_TAG :: string where "POLYGON_ZKEVM_TAG = ''polygon-zkevm-based''"
definition OPTIMISM_TAG :: string where "OPTIMISM_TAG = ''optimism''"
definition ROLLUP_TAG :: string where "ROLLUP_TAG = ''rollup''"
definition LACKS_MEMPOOL_TAGS :: "string list" where
  "LACKS_MEMPOOL_TAGS = [NO_MEMPOOL_TAG, ARBITRUM_BASED_TAG, OPTIMISM_BASED_TAG, OPTIMISM_TAG]"

definition is_optimism :: "evm_network \<Rightarrow> bool" where
  "is_optimism n = list_ex (\<lambda>t. t = OPTIMISM_BASED_TAG \<or> t = OPTIMISM_TAG) (net_tags n)"

definition is_rollup :: "evm_network \<Rightarrow> bool" where
  "is_rollup n = list_ex (\<lambda>t. t = ROLLUP_TAG) (net_tags n)"

definition lacks_mempool :: "evm_network \<Rightarrow> bool" where
  "lacks_mempool n = list_ex (\<lambda>t. t \<in> set LACKS_MEMPOOL_TAGS) (net_tags n)"

definition is_arbitrum :: "evm_network \<Rightarrow> bool" where
  "is_arbitrum n = list_ex (\<lambda>t. t = ARBITRUM_BASED_TAG) (net_tags n)"

definition is_polygon_zkevm :: "evm_network \<Rightarrow> bool" where
  "is_polygon_zkevm n = list_ex (\<lambda>t. t = POLYGON_ZKEVM_TAG) (net_tags n)"

definition net_is_legacy :: "evm_network \<Rightarrow> bool" where
  "net_is_legacy n = (''eip1559'' \<notin> set (net_features n))"

section \<open>Relayers\<close>

record relayer_evm_policy =
  min_balance :: "u128 option"
  gas_limit_estimation :: "bool option"
  gas_price_cap :: "u128 option"
  whitelist_receivers :: "string list option"
  eip1559_pricing :: "bool option"
  private_transactions :: "bool option"
  include_revert_data :: "bool option"

text \<open>The Solana and Stellar policies are not read by the modelled code; they carry no fields.\<close>

datatype relayer_network_policy = PolicyEvm relayer_evm_policy | PolicySolana | PolicyStellar

datatype disabled_reason =
    NonceSyncFailed string | RpcValidationFailed string | BalanceCheckFailed string
  | SequenceSyncFailed string | MultipleReasons "disabled_reason list"

record relayer_repo_model =
  r_id :: string
  r_name :: string
  r_network :: string
  r_paused :: bool
  r_network_type :: network_type
  r_signer_id :: string
  r_policies :: relayer_network_policy
  r_address :: string
  r_notification_id :: "string option"
  r_system_disabled :: bool
  r_disabled_reason :: "disabled_reason option"
  r_custom_rpc_urls :: "rpc_config list option"

definition default_evm_policy :: relayer_evm_policy where
  "default_evm_policy = \<lparr> min_balance = None, gas_limit_estimation = None, gas_price_cap = None,
     whitelist_receivers = None, eip1559_pricing = None, private_transactions = None,
     include_revert_data = None \<rparr>"

definition get_evm_policy :: "relayer_network_policy \<Rightarrow> relayer_evm_policy" where
  "get_evm_policy p = (case p of PolicyEvm e \<Rightarrow> e | _ \<Rightarrow> default_evm_policy)"

section \<open>Helpers of \<open>utils/transaction.rs\<close>\<close>

definition minutes_ms :: "int \<Rightarrow> int" where
  "minutes_ms m = m * 60 * 1000"

definition get_resubmit_timeout_for_speed :: "speed option \<Rightarrow> int" where
  "get_resubmit_timeout_for_speed s =
     (case (case s of Some v \<Rightarrow> v | None \<Rightarrow> DEFAULT_TRANSACTION_SPEED) of
        SafeLow \<Rightarrow> minutes_ms 10 | Average \<Rightarrow> minutes_ms 5 | Fast \<Rightarrow> minutes_ms 3 | Fastest \<Rightarrow> minutes_ms 2)"

text \<open>
  The release profile switches overflow checks off, so the product of two \<open>i64\<close> and
  \<open>2_i64.pow\<close> wrap around.
\<close>

definition wrap_i64 :: "int \<Rightarrow> int" where
  "wrap_i64 i = sint (word_of_int i :: u64)"

definition get_resubmit_timeout_with_backoff :: "int \<Rightarrow> nat \<Rightarrow> int" where
  "get_resubmit_timeout_with_backoff timeout attempts =
     (if attempts \<le> 1 then timeout else wrap_i64 (timeout * wrap_i64 (2 ^ (attempts - 1))))"

definition get_evm_default_gas_limit_for_tx :: "evm_transaction_data \<Rightarrow> u64" where
  "get_evm_default_gas_limit_for_tx d = (case evm_data d of
     None \<Rightarrow> DEFAULT_GAS_LIMIT
   | Some data \<Rightarrow> if starts_with ''0xa9059cbb'' data then ERC20_TRANSFER_GAS_LIMIT
                  else if starts_with ''0x23b872dd'' data then ERC721_TRANSFER_GAS_LIMIT
                  else COMPLEX_GAS_LIMIT)"

fun calculate_data_gas :: "u8 list \<Rightarrow> u64" where
  "calculate_data_gas [] = 0"
| "calculate_data_gas (b # bs) =
     (if b = 0 then GAS_TX_DATA_ZERO else GAS_TX_DATA_NONZERO) + calculate_data_gas bs"

text \<open>\<open>hex_decode\<close> is the decoder of the \<open>hex\<close> crate.\<close>

definition strip_0x :: "string \<Rightarrow> string" where
  "strip_0x s = (if starts_with ''0x'' s then drop 2 s else s)"

definition calculate_intrinsic_gas ::
  "(string \<Rightarrow> u8 list option) \<Rightarrow> evm_transaction_request \<Rightarrow> u64" where
  "calculate_intrinsic_gas hex_decode r =
     (let base_gas = (if req_to r = None then GAS_TX_CREATE_CONTRACT else DEFAULT_GAS_LIMIT);
          data_gas = (case req_data r of
              Some s \<Rightarrow> (case hex_decode (strip_0x s) of Some bs \<Rightarrow> calculate_data_gas bs | None \<Rightarrow> 0)
            | None \<Rightarrow> 0)
      in base_gas + data_gas)"

section \<open>Facts\<close>

lemma wrap_i64_id: "- (2 ^ 63) \<le> i \<Longrightarrow> i < 2 ^ 63 \<Longrightarrow> wrap_i64 i = i"
  unfolding wrap_i64_def by (simp add: signed_of_int signed_take_bit_int_eq_self)

lemma timeout_for_speed_bounds:
  "minutes_ms 2 \<le> get_resubmit_timeout_for_speed s \<and> get_resubmit_timeout_for_speed s \<le> minutes_ms 10"
  by (auto simp: get_resubmit_timeout_for_speed_def minutes_ms_def split: speed.splits option.splits)

text \<open>Data gas is between 4 and 16 per byte as long as it does not wrap.\<close>

lemma calculate_data_gas_bounds:
  assumes "16 * length bs < 2 ^ 64"
  shows "4 * length bs \<le> unat (calculate_data_gas bs) \<and> unat (calculate_data_gas bs) \<le> 16 * length bs"
  using assms
proof (induction bs)
  case (Cons b bs)
  then have ih: "4 * length bs \<le> unat (calculate_data_gas bs)" "unat (calculate_data_gas bs) \<le> 16 * length bs"
    by auto
  have "unat (calculate_data_gas (b # bs)) =
      (if b = 0 then 4 else 16) + unat (calculate_data_gas bs)"
    using ih(2) Cons.prems by (auto simp: GAS_TX_DATA_ZERO_def GAS_TX_DATA_NONZERO_def unat_word_ariths)
  then show ?case using ih by auto
qed simp

end
