(* ===== verification/Evm_Pricing.thy ===== *)
theory Evm_Pricing
  imports Evm_Config
begin

text \<open>
  Gas pricing: the price calculator (\<open>domain/transaction/evm/price_calculator.rs\<close>), the
  network specific handlers it delegates to (\<open>services/gas/price_params_handler.rs\<close> and
  \<open>services/gas/handlers\<close>), replacement pricing (\<open>domain/transaction/evm/replacement.rs\<close>)
  and the balance validation (\<open>domain/relayer/evm/validations.rs\<close>). What the gas price
  service and the node answer during one call are the fields of \<open>gas_answers\<close>.
\<close>

section \<open>Data\<close>

record speed_prices =
  safe_low :: u128
  sp_average :: u128
  sp_fast :: u128
  sp_fastest :: u128

record gas_prices =
  legacy_prices :: speed_prices
  gp_max_priority_fee_per_gas :: speed_prices
  base_fee_per_gas :: u128

record optimism_fee_data =
  l1_base_fee :: u256
  op_base_fee :: u256
  op_decimals :: u256
  blob_base_fee :: u256
  base_fee_scalar :: u256
  blob_base_fee_scalar :: u256

datatype price_params_handler =
    PolygonZKEvm "provider_error + u256"
  | Optimism "transaction_error + optimism_fee_data"

record gas_answers =
  ga_network :: evm_network
  ga_prices :: "transaction_error + gas_prices"
  ga_legacy :: "transaction_error + speed_prices"
  ga_handler :: "price_params_handler option"
  ga_hex_decode :: "string \<Rightarrow> u8 list option"

text \<open>The handler a network gets; the two answers are what the node returns to it.\<close>

definition price_handler_for_network ::
  "evm_network \<Rightarrow> provider_error + u256 \<Rightarrow> transaction_error + optimism_fee_data \<Rightarrow> price_params_handler option" where
  "price_handler_for_network n zk op =
     (if is_polygon_zkevm n then Some (PolygonZKEvm zk)
      else if is_optimism n then Some (Optimism op) else None)"

definition speed_multiplier :: "speed \<Rightarrow> u128" where
  "speed_multiplier s = (case s of SafeLow \<Rightarrow> 100 | Average \<Rightarrow> 125 | Fast \<Rightarrow> 150 | Fastest \<Rightarrow> 200)"

definition build_legacy_prices_from_base :: "u128 \<Rightarrow> speed_prices" where
  "build_legacy_prices_from_base base =
     \<lparr> safe_low = base * speed_multiplier SafeLow div 100,
       sp_average = base * speed_multiplier Average div 100,
       sp_fast = base * speed_multiplier Fast div 100,
       sp_fastest = base * speed_multiplier Fastest div 100 \<rparr>"

definition price_of_speed :: "speed_prices \<Rightarrow> speed \<Rightarrow> u128" where
  "price_of_speed p s = (case s of
     SafeLow \<Rightarrow> safe_low p | Average \<Rightarrow> sp_average p | Fast \<Rightarrow> sp_fast p | Fastest \<Rightarrow> sp_fastest p)"

section \<open>Costs and bumps\<close>

definition calculate_total_cost :: "price_params \<Rightarrow> bool \<Rightarrow> u64 \<Rightarrow> u256 \<Rightarrow> u256" where
  "calculate_total_cost p is_1559 limit value =
     (if is_1559
      then ucast (case pp_max_fee_per_gas p of Some f \<Rightarrow> f | None \<Rightarrow> 0) * ucast limit + value
           + (case pp_extra_fee p of Some x \<Rightarrow> x | None \<Rightarrow> 0)
      else ucast (case pp_gas_price p of Some f \<Rightarrow> f | None \<Rightarrow> 0) * ucast limit + value
           + (case pp_extra_fee p of Some x \<Rightarrow> x | None \<Rightarrow> 0))"

definition calculate_min_bump :: "u128 \<Rightarrow> u128" where
  "calculate_min_bump base_price =
     (let bumped_price = saturating_mul base_price 11 div 10
      in max bumped_price (saturating_add base_price 1))"

definition cap_gas_price :: "u128 \<Rightarrow> u128 \<Rightarrow> u128" where
  "cap_gas_price price cap = min price cap"

definition get_market_price_for_speed :: "gas_prices \<Rightarrow> bool \<Rightarrow> speed \<Rightarrow> u128" where
  "get_market_price_for_speed prices is_1559 s =
     (if is_1559 then price_of_speed (gp_max_priority_fee_per_gas prices) s
      else price_of_speed (legacy_prices prices) s)"

text \<open>
  The multiplier is computed in floating point as \<open>1.125^n\<close>, scaled by \<open>10^9\<close> and
  truncated. \<open>1.125^n\<close> is exact for \<open>n \<le> 16\<close>; for \<open>17 \<le> n \<le> 19\<close> the distance of the
  scaled value to the next integer exceeds the rounding error by orders of magnitude,
  and from 20 blocks on the cap applies, so the integer formula below gives the same
  value. A block time of 0, which the configuration accepts, divides by zero.
\<close>

definition get_base_fee_multiplier :: "evm_network \<Rightarrow> transaction_error + u128" where
  "get_base_fee_multiplier n =
     (let block_interval_ms = unat (net_average_blocktime_ms n)
      in if block_interval_ms = 0 then Inl (Panicked ''attempt to divide by zero'')
         else (let n_blocks = 90000 div block_interval_ms;
                   multiplier = 9 ^ n_blocks * 10 ^ 9 div 8 ^ n_blocks
               in Inr (of_nat (min multiplier (10 * 10 ^ 9)))))"

definition calculate_max_fee_per_gas :: "u128 \<Rightarrow> u128 \<Rightarrow> evm_network \<Rightarrow> transaction_error + u128" where
  "calculate_max_fee_per_gas base_fee_wei max_priority_fee_wei n =
     (case get_base_fee_multiplier n of
        Inl e \<Rightarrow> Inl e
      | Inr multiplier \<Rightarrow> Inr (base_fee_wei * multiplier div 1000000000 + max_priority_fee_wei))"

definition gas_price_cap_or_max :: "relayer_repo_model \<Rightarrow> u128" where
  "gas_price_cap_or_max r = (case gas_price_cap (get_evm_policy (r_policies r)) of Some c \<Rightarrow> c | None \<Rightarrow> - 1)"

definition handle_eip1559_bump ::
  "evm_network \<Rightarrow> gas_prices \<Rightarrow> u128 \<Rightarrow> speed option \<Rightarrow> u128 \<Rightarrow> u128 \<Rightarrow> transaction_error + price_params" where
  "handle_eip1559_bump n prices cap maybe_speed max_fee max_priority_fee =
     (let spd = (case maybe_speed of Some s \<Rightarrow> s | None \<Rightarrow> DEFAULT_TRANSACTION_SPEED);
          min_bump_max_fee = calculate_min_bump max_fee;
          min_bump_max_priority = calculate_min_bump max_priority_fee;
          current_market_priority = get_market_price_for_speed prices True spd;
          bumped_priority_fee = (if current_market_priority \<ge> min_bump_max_priority
                                 then current_market_priority else min_bump_max_priority);
          base_fee_wei = base_fee_per_gas prices;
          bumped_max_fee = (if base_fee_wei \<ge> min_bump_max_fee then base_fee_wei else min_bump_max_fee)
      in case calculate_max_fee_per_gas base_fee_wei bumped_priority_fee n of
           Inl e \<Rightarrow> Inl e
         | Inr recommended \<Rightarrow>
             (let final_max_fee = max bumped_max_fee recommended;
                  capped_priority = cap_gas_price bumped_priority_fee cap;
                  capped_max_fee = cap_gas_price final_max_fee cap
              in Inr \<lparr> pp_gas_price = None, pp_max_fee_per_gas = Some capped_max_fee,
                       pp_max_priority_fee_per_gas = Some capped_priority,
                       pp_is_min_bumped = Some (capped_priority \<ge> min_bump_max_priority
                                               \<and> capped_max_fee \<ge> min_bump_max_fee),
                       pp_extra_fee = None, pp_total_cost = 0 \<rparr>))"

definition handle_legacy_bump ::
  "gas_prices \<Rightarrow> u128 \<Rightarrow> speed option \<Rightarrow> u128 \<Rightarrow> transaction_error + price_params" where
  "handle_legacy_bump prices cap maybe_speed price =
     (let spd = (case maybe_speed of Some s \<Rightarrow> s | None \<Rightarrow> Fast);
          min_bump_gas_price = calculate_min_bump price;
          current_market_price = get_market_price_for_speed prices False spd;
          bumped_gas_price = (if current_market_price \<ge> min_bump_gas_price
                              then current_market_price else min_bump_gas_price);
          capped_gas_price = cap_gas_price bumped_gas_price cap
      in Inr \<lparr> pp_gas_price = Some capped_gas_price, pp_max_fee_per_gas = None,
               pp_max_priority_fee_per_gas = None,
               pp_is_min_bumped = Some (capped_gas_price \<ge> min_bump_gas_price),
               pp_extra_fee = None, pp_total_cost = 0 \<rparr>)"

section \<open>Prices by transaction type\<close>

definition plain_params :: "u128 option \<Rightarrow> u128 option \<Rightarrow> u128 option \<Rightarrow> price_params" where
  "plain_params g f p = \<lparr> pp_gas_price = g, pp_max_fee_per_gas = f, pp_max_priority_fee_per_gas = p,
     pp_is_min_bumped = None, pp_extra_fee = None, pp_total_cost = 0 \<rparr>"

definition fetch_legacy_price_params :: "evm_transaction_data \<Rightarrow> transaction_error + price_params" where
  "fetch_legacy_price_params d = (case gas_price d of
     None \<Rightarrow> Inl (NotSupported ''Gas price is required for legacy transactions'')
   | Some g \<Rightarrow> Inr (plain_params (Some g) None None))"

definition fetch_eip1559_price_params :: "evm_transaction_data \<Rightarrow> transaction_error + price_params" where
  "fetch_eip1559_price_params d = (case max_fee_per_gas d of
     None \<Rightarrow> Inl (NotSupported ''Max fee per gas is required for EIP1559 transactions'')
   | Some f \<Rightarrow> (case max_priority_fee_per_gas d of
       None \<Rightarrow> Inl (NotSupported ''Max priority fee per gas is required for EIP1559 transactions'')
     | Some p \<Rightarrow> Inr (plain_params None (Some f) (Some p))))"

definition fetch_eip1559_speed_params :: "gas_answers \<Rightarrow> speed \<Rightarrow> transaction_error + price_params" where
  "fetch_eip1559_speed_params A s = (case ga_prices A of
     Inl e \<Rightarrow> Inl e
   | Inr prices \<Rightarrow>
       (let priority_fee = price_of_speed (gp_max_priority_fee_per_gas prices) s
        in case calculate_max_fee_per_gas (base_fee_per_gas prices) priority_fee (ga_network A) of
             Inl e \<Rightarrow> Inl e
           | Inr max_fee \<Rightarrow> Inr (plain_params None (Some max_fee) (Some priority_fee))))"

definition fetch_legacy_speed_params :: "gas_answers \<Rightarrow> speed \<Rightarrow> transaction_error + price_params" where
  "fetch_legacy_speed_params A s = (case ga_legacy A of
     Inl e \<Rightarrow> Inl e
   | Inr prices \<Rightarrow> Inr (plain_params (Some (price_of_speed prices s)) None None))"

definition fetch_speed_price_params ::
  "gas_answers \<Rightarrow> relayer_repo_model \<Rightarrow> evm_transaction_data \<Rightarrow> transaction_error + price_params" where
  "fetch_speed_price_params A r d = (case evm_speed d of
     None \<Rightarrow> Inl (NotSupported ''Speed is required'')
   | Some s \<Rightarrow>
       (if eip1559_pricing (get_evm_policy (r_policies r)) = Some False \<or> net_is_legacy (ga_network A)
        then fetch_legacy_speed_params A s else fetch_eip1559_speed_params A s))"

definition fetch_price_params_based_on_tx_type ::
  "gas_answers \<Rightarrow> relayer_repo_model \<Rightarrow> evm_transaction_data \<Rightarrow> transaction_error + price_params" where
  "fetch_price_params_based_on_tx_type A r d =
     (if is_legacy d then fetch_legacy_price_params d
      else if is_eip1559 d then fetch_eip1559_price_params d
      else if is_speed d then fetch_speed_price_params A r d
      else Inl (NotSupported ''Invalid transaction type''))"

definition apply_gas_price_cap_and_constraints :: "relayer_repo_model \<Rightarrow> price_params \<Rightarrow> price_params" where
  "apply_gas_price_cap_and_constraints r p =
     (let cap = gas_price_cap_or_max r
      in case (pp_max_fee_per_gas p, pp_max_priority_fee_per_gas p) of
           (Some max_fee, Some max_priority) \<Rightarrow>
             (let capped_max_fee = cap_gas_price max_fee cap
              in p\<lparr> pp_max_fee_per_gas := Some capped_max_fee,
                    pp_max_priority_fee_per_gas := Some (cap_gas_price max_priority capped_max_fee),
                    pp_gas_price := None \<rparr>)
         | _ \<Rightarrow> p\<lparr> pp_gas_price := Some (cap_gas_price
                      (case pp_gas_price p of Some g \<Rightarrow> g | None \<Rightarrow> 0) cap),
                   pp_max_fee_per_gas := None, pp_max_priority_fee_per_gas := None \<rparr>)"

section \<open>Network specific handlers\<close>

fun drop_0x_prefixes :: "string \<Rightarrow> string" where
  "drop_0x_prefixes (c1 # c2 # cs) =
     (if c1 = CHR ''0'' \<and> c2 = CHR ''x'' then drop_0x_prefixes cs else c1 # c2 # cs)"
| "drop_0x_prefixes s = s"

definition calculate_compressed_tx_size ::
  "(string \<Rightarrow> u8 list option) \<Rightarrow> evm_transaction_data \<Rightarrow> u256" where
  "calculate_compressed_tx_size hex_decode d =
     (let data_bytes = (case evm_data d of
            None \<Rightarrow> [] | Some s \<Rightarrow> (case hex_decode (drop_0x_prefixes s) of Some bs \<Rightarrow> bs | None \<Rightarrow> []));
          zero_bytes = of_nat (length (filter (\<lambda>b. b = 0) data_bytes));
          non_zero_bytes = of_nat (length data_bytes) - zero_bytes
      in zero_bytes * 4 + non_zero_bytes * 16)"

definition optimism_calculate_fee ::
  "(string \<Rightarrow> u8 list option) \<Rightarrow> optimism_fee_data \<Rightarrow> evm_transaction_data \<Rightarrow> u256" where
  "optimism_calculate_fee hex_decode fd d =
     (let calldata_gas_used = calculate_compressed_tx_size hex_decode d;
          calldata_cost_per_byte = saturating_mul (saturating_mul (l1_base_fee fd) 16) (base_fee_scalar fd);
          blob_cost_per_byte = saturating_mul (blob_base_fee fd) (blob_base_fee_scalar fd)
      in saturating_mul (saturating_add calldata_cost_per_byte blob_cost_per_byte) calldata_gas_used
           div 16000000)"

definition optimism_handle_price_params ::
  "(string \<Rightarrow> u8 list option) \<Rightarrow> transaction_error + optimism_fee_data \<Rightarrow> evm_transaction_data \<Rightarrow> price_params \<Rightarrow>
   transaction_error + price_params" where
  "optimism_handle_price_params hex_decode answer d p = (case answer of
     Inl e \<Rightarrow> Inl e
   | Inr fd \<Rightarrow>
       (let p = p\<lparr> pp_extra_fee := Some (optimism_calculate_fee hex_decode fd d) \<rparr>;
            limit = (case gas_limit d of Some g \<Rightarrow> g | None \<Rightarrow> DEFAULT_GAS_LIMIT)
        in Inr (p\<lparr> pp_total_cost :=
             calculate_total_cost p (pp_max_fee_per_gas p \<noteq> None) limit (evm_value d) \<rparr>)))"

text \<open>\<open>-32601\<close> is method not found, \<open>-32004\<close> method not supported.\<close>

definition polygon_handle_price_params ::
  "provider_error + u256 \<Rightarrow> price_params \<Rightarrow> transaction_error + price_params" where
  "polygon_handle_price_params answer p = (case answer of
     Inr fee \<Rightarrow> Inr (p\<lparr> pp_total_cost := fee \<rparr>)
   | Inl e \<Rightarrow>
       (case e of
          RpcErrorCode code _ _ \<Rightarrow>
            (if code = -32601 \<or> code = -32004 then Inr p
             else Inl (UnexpectedError (''Failed to estimate zkEVM fee: '' @ show_provider_error e)))
        | _ \<Rightarrow> Inl (UnexpectedError (''Failed to estimate zkEVM fee: '' @ show_provider_error e))))"

definition handle_price_params ::
  "gas_answers \<Rightarrow> price_params_handler \<Rightarrow> evm_transaction_data \<Rightarrow> price_params \<Rightarrow>
   transaction_error + price_params" where
  "handle_price_params A h d p = (case h of
     PolygonZKEvm answer \<Rightarrow> polygon_handle_price_params answer p
   | Optimism answer \<Rightarrow> optimism_handle_price_params (ga_hex_decode A) answer d p)"

definition finalize_price_params ::
  "gas_answers \<Rightarrow> relayer_repo_model \<Rightarrow> evm_transaction_data \<Rightarrow> price_params \<Rightarrow>
   transaction_error + price_params" where
  "finalize_price_params A r d p =
     (case (case ga_handler A of
              None \<Rightarrow> Inr p
            | Some h \<Rightarrow> (case handle_price_params A h d p of
                Inl e \<Rightarrow> Inl e | Inr p' \<Rightarrow> Inr (apply_gas_price_cap_and_constraints r p'))) of
        Inl e \<Rightarrow> Inl e
      | Inr p \<Rightarrow>
          Inr (if pp_total_cost p = 0
               then p\<lparr> pp_total_cost := calculate_total_cost p (is_eip1559 d)
                      (case gas_limit d of Some g \<Rightarrow> g | None \<Rightarrow> DEFAULT_GAS_LIMIT) (evm_value d) \<rparr>
               else p))"

section \<open>The price calculator\<close>

definition get_transaction_price_params ::
  "gas_answers \<Rightarrow> relayer_repo_model \<Rightarrow> evm_transaction_data \<Rightarrow> transaction_error + price_params" where
  "get_transaction_price_params A r d =
     (case fetch_price_params_based_on_tx_type A r d of
        Inl e \<Rightarrow> Inl e
      | Inr p \<Rightarrow> finalize_price_params A r d (apply_gas_price_cap_and_constraints r p))"

definition calculate_bumped_gas_price ::
  "gas_answers \<Rightarrow> relayer_repo_model \<Rightarrow> bool \<Rightarrow> evm_transaction_data \<Rightarrow> transaction_error + price_params" where
  "calculate_bumped_gas_price A r force_bump d =
     (if lacks_mempool (ga_network A) \<or> is_arbitrum (ga_network A)
      then (case get_transaction_price_params A r d of
              Inl e \<Rightarrow> Inl e | Inr p \<Rightarrow> Inr (p\<lparr> pp_is_min_bumped := Some True \<rparr>))
      else (case ga_prices A of
              Inl e \<Rightarrow> Inl e
            | Inr prices \<Rightarrow>
                (let cap = (if force_bump then - 1 else gas_price_cap_or_max r)
                 in case (case (max_fee_per_gas d, max_priority_fee_per_gas d, gas_price d) of
                            (Some f, Some p, _) \<Rightarrow> handle_eip1559_bump (ga_network A) prices cap (evm_speed d) f p
                          | (None, None, Some g) \<Rightarrow> handle_legacy_bump prices cap (evm_speed d) g
                          | _ \<Rightarrow> Inl (InvalidType ''Transaction missing required gas price parameters'')) of
                      Inl e \<Rightarrow> Inl e
                    | Inr p \<Rightarrow> finalize_price_params A r d p)))"

section \<open>Replacement pricing\<close>

definition has_explicit_prices :: "evm_transaction_data \<Rightarrow> bool" where
  "has_explicit_prices d = (gas_price d \<noteq> None \<or> max_fee_per_gas d \<noteq> None \<or> max_priority_fee_per_gas d \<noteq> None)"

definition check_transaction_compatibility ::
  "evm_transaction_data \<Rightarrow> evm_transaction_data \<Rightarrow> transaction_error + unit" where
  "check_transaction_compatibility old new =
     (if \<not> has_explicit_prices new then Inr ()
      else if is_legacy old \<and> is_eip1559 new
      then Inl (ValidationError ''Cannot replace legacy transaction with EIP1559 transaction'')
      else if \<not> is_legacy old \<and> is_legacy new
      then Inl (ValidationError ''Cannot replace EIP1559 transaction with legacy transaction'')
      else Inr ())"

definition partial_eip1559_error :: transaction_error where
  "partial_eip1559_error = ValidationError
     ''Partial EIP1559 transaction: both max_fee_per_gas and max_priority_fee_per_gas must be provided together''"

definition validate_price_bump_requirements ::
  "evm_transaction_data \<Rightarrow> evm_transaction_data \<Rightarrow> transaction_error + unit" where
  "validate_price_bump_requirements old new =
     (let old_has_legacy_pricing = (gas_price old \<noteq> None);
          old_has_eip1559_pricing = (max_fee_per_gas old \<noteq> None \<and> max_priority_fee_per_gas old \<noteq> None);
          new_has_legacy_pricing = (gas_price new \<noteq> None);
          new_has_eip1559_pricing = (max_fee_per_gas new \<noteq> None \<and> max_priority_fee_per_gas new \<noteq> None);
          too_low = ValidationError ''Gas price increase does not meet minimum bump requirement''
      in if \<not> new_has_legacy_pricing \<and> \<not> new_has_eip1559_pricing
         then Inl (ValidationError ''New transaction must have pricing data'')
         else if \<not> is_legacy new \<and> (max_fee_per_gas new \<noteq> None) \<noteq> (max_priority_fee_per_gas new \<noteq> None)
         then Inl partial_eip1559_error
         else if \<not> old_has_legacy_pricing \<and> \<not> old_has_eip1559_pricing then Inr ()
         else (case (gas_price old, gas_price new) of
             (Some old_gas_price, Some new_gas_price) \<Rightarrow>
               (if new_gas_price \<ge> calculate_min_bump old_gas_price then Inr () else Inl too_low)
           | _ \<Rightarrow> (case (max_fee_per_gas old, max_fee_per_gas new) of
               (Some old_max_fee, Some new_max_fee) \<Rightarrow>
                 (case (max_priority_fee_per_gas old, max_priority_fee_per_gas new) of
                    (Some old_priority, Some new_priority) \<Rightarrow>
                      (if new_max_fee \<ge> calculate_min_bump old_max_fee
                          \<and> new_priority \<ge> calculate_min_bump old_priority then Inr () else Inl too_low)
                  | _ \<Rightarrow> Inl partial_eip1559_error)
             | _ \<Rightarrow> Inl partial_eip1559_error)))"

definition validate_explicit_price_bump ::
  "relayer_repo_model \<Rightarrow> bool \<Rightarrow> evm_transaction_data \<Rightarrow> evm_transaction_data \<Rightarrow>
   transaction_error + price_params" where
  "validate_explicit_price_bump r network_lacks_mempool old new =
     (let p = plain_params (gas_price new) (max_fee_per_gas new) (max_priority_fee_per_gas new);
          cap = (case gas_price_cap (get_evm_policy (r_policies r)) of Some c \<Rightarrow> c | None \<Rightarrow> DEFAULT_EVM_GAS_PRICE_CAP)
      in if (case gas_price new of Some g \<Rightarrow> g > cap | None \<Rightarrow> False)
         then Inl (ValidationError (''Gas price '' @ show_nat (unat (case gas_price new of Some g \<Rightarrow> g | None \<Rightarrow> 0))
                @ '' exceeds gas price cap '' @ show_nat (unat cap)))
         else if (case max_fee_per_gas new of Some f \<Rightarrow> f > cap | None \<Rightarrow> False)
         then Inl (ValidationError (''Max fee per gas '' @ show_nat (unat (case max_fee_per_gas new of Some f \<Rightarrow> f | None \<Rightarrow> 0))
                @ '' exceeds gas price cap '' @ show_nat (unat cap)))
         else if (max_fee_per_gas new \<noteq> None) \<noteq> (max_priority_fee_per_gas new \<noteq> None)
         then Inl partial_eip1559_error
         else (case (if network_lacks_mempool then Inr () else validate_price_bump_requirements old new) of
             Inl e \<Rightarrow> Inl e
           | Inr _ \<Rightarrow>
               (if (case (max_fee_per_gas new, max_priority_fee_per_gas new) of
                      (Some f, Some m) \<Rightarrow> m > f | _ \<Rightarrow> False)
                then Inl (ValidationError ''Max priority fee cannot exceed max fee per gas'')
                else Inr (p\<lparr> pp_total_cost := calculate_total_cost p (max_fee_per_gas new \<noteq> None)
                               (case gas_limit old of Some g \<Rightarrow> g | None \<Rightarrow> DEFAULT_GAS_LIMIT) (evm_value new),
                             pp_is_min_bumped := Some True \<rparr>))))"

definition calculate_replacement_price ::
  "gas_answers \<Rightarrow> relayer_repo_model \<Rightarrow> bool \<Rightarrow> evm_transaction_data \<Rightarrow> evm_transaction_data \<Rightarrow>
   transaction_error + price_params" where
  "calculate_replacement_price A r network_lacks_mempool old new =
     (let use_legacy = (is_legacy old \<or> eip1559_pricing (get_evm_policy (r_policies r)) = Some False);
          insufficient = ValidationError ''Unable to calculate sufficient price bump for speed-based replacement''
      in case get_transaction_price_params A r new of
           Inl e \<Rightarrow> Inl e
         | Inr p \<Rightarrow>
             if network_lacks_mempool then Inr (p\<lparr> pp_is_min_bumped := Some True \<rparr>)
             else if use_legacy then
               (case (gas_price old, pp_gas_price p) of
                  (Some old_gas_price, Some new_gas_price) \<Rightarrow>
                    (let min_required = calculate_min_bump old_gas_price
                     in Inr ((if new_gas_price < min_required then p\<lparr> pp_gas_price := Some min_required \<rparr> else p)
                             \<lparr> pp_is_min_bumped := Some True \<rparr>))
                | _ \<Rightarrow> Inl insufficient)
             else
               (case (max_fee_per_gas old, pp_max_fee_per_gas p,
                      max_priority_fee_per_gas old, pp_max_priority_fee_per_gas p) of
                  (Some old_max_fee, Some new_max_fee, Some old_priority, Some new_priority) \<Rightarrow>
                    (let min_required = calculate_min_bump old_max_fee;
                         min_required_priority = calculate_min_bump old_priority;
                         p = (if new_max_fee < min_required then p\<lparr> pp_max_fee_per_gas := Some min_required \<rparr> else p);
                         p = (if new_priority < min_required_priority
                              then p\<lparr> pp_max_priority_fee_per_gas := Some min_required_priority \<rparr> else p)
                     in Inr (p\<lparr> pp_is_min_bumped := Some True \<rparr>))
                | _ \<Rightarrow> Inl insufficient))"

definition determine_replacement_pricing ::
  "gas_answers \<Rightarrow> relayer_repo_model \<Rightarrow> bool \<Rightarrow> evm_transaction_data \<Rightarrow> evm_transaction_data \<Rightarrow>
   transaction_error + price_params" where
  "determine_replacement_pricing A r network_lacks_mempool old new =
     (case check_transaction_compatibility old new of
        Inl e \<Rightarrow> Inl e
      | Inr _ \<Rightarrow> (if has_explicit_prices new then validate_explicit_price_bump r network_lacks_mempool old new
                  else calculate_replacement_price A r network_lacks_mempool old new))"

section \<open>Balance validation\<close>

datatype evm_transaction_validation_error =
    EvProviderError string | EvValidationError string | EvInsufficientBalance string

definition validate_sufficient_relayer_balance ::
  "provider_error + u256 \<Rightarrow> relayer_evm_policy \<Rightarrow> u256 \<Rightarrow> evm_transaction_validation_error + unit" where
  "validate_sufficient_relayer_balance balance_answer policy balance_to_use =
     (case balance_answer of
        Inl e \<Rightarrow> Inl (EvProviderError (show_provider_error e))
      | Inr balance \<Rightarrow>
          (let min_bal = ucast (case min_balance policy of Some m \<Rightarrow> m | None \<Rightarrow> DEFAULT_EVM_MIN_BALANCE) :: u256;
               remaining_balance = saturating_sub balance balance_to_use
           in if balance < balance_to_use
              then Inl (EvInsufficientBalance (''Relayer balance '' @ show_nat (unat balance)
                     @ '' is insufficient to cover '' @ show_nat (unat balance_to_use)))
              else if min_bal \<noteq> 0 \<and> remaining_balance < min_bal
              then Inl (EvInsufficientBalance (''Relayer balance '' @ show_nat (unat balance)
                     @ '' is insufficient to cover '' @ show_nat (unat balance_to_use)
                     @ '', with an enforced minimum balance of '' @ show_nat (unat min_bal)))
              else Inr ()))"

definition init_balance_validation ::
  "provider_error + u256 \<Rightarrow> relayer_evm_policy \<Rightarrow> evm_transaction_validation_error + unit" where
  "init_balance_validation balance_answer policy =
     (case balance_answer of
        Inl e \<Rightarrow> Inl (EvProviderError (show_provider_error e))
      | Inr balance \<Rightarrow>
          (let min_bal = ucast (case min_balance policy of Some m \<Rightarrow> m | None \<Rightarrow> DEFAULT_EVM_MIN_BALANCE) :: u256
           in if balance < min_bal
              then Inl (EvInsufficientBalance (''Relayer balance ('' @ show_nat (unat balance)
                     @ '') is below minimum required balance ('' @ show_nat (unat min_bal) @ '')''))
              else Inr ()))"

section \<open>Lemmas\<close>

lemma unat_min_bump_mul: "unat (saturating_mul (b :: u128) 11 div 10) = min (unat b * 11) (2 ^ 128 - 1) div 10"
  by (simp add: unat_div unat_saturating_mul)

lemma unat_max: "unat (max a b) = max (unat a) (unat b)" for a b :: "'a::len word"
  by (simp add: max_def word_le_nat_alt)

lemma unat_min: "unat (min a b) = min (unat a) (unat b)" for a b :: "'a::len word"
  by (simp add: min_def word_le_nat_alt)

lemma unat_ucast_256: "unat (ucast (m :: u128) :: u256) = unat m"
proof -
  have "unat m < 2 ^ 256"
    using unat_le_max [of m] by (simp add: le_less_trans)
  then show ?thesis by (simp add: unsigned_ucast_eq take_bit_nat_eq_self)
qed

lemma unat_calculate_min_bump:
  "unat (calculate_min_bump b) = max (min (unat b * 11) (2 ^ 128 - 1) div 10) (min (unat b + 1) (2 ^ 128 - 1))"
  by (simp add: calculate_min_bump_def Let_def unat_max unat_min_bump_mul unat_saturating_add)

lemma calculate_min_bump_mono: "a \<le> b \<Longrightarrow> calculate_min_bump a \<le> calculate_min_bump b"
  unfolding word_le_nat_alt unat_calculate_min_bump
  by (intro max.mono min.mono div_le_mono mult_le_mono1 add_le_mono1) auto

lemma min_bump_ge: "b \<le> calculate_min_bump b"
  unfolding word_le_nat_alt unat_calculate_min_bump using unat_le_max [of b] by simp

lemma cap_gas_price_le: "cap_gas_price p cap \<le> cap" "cap_gas_price p cap \<le> p"
  by (simp_all add: cap_gas_price_def)

definition price_within_cap :: "u128 \<Rightarrow> price_params \<Rightarrow> bool" where
  "price_within_cap cap p \<longleftrightarrow>
     (\<forall>g. pp_gas_price p = Some g \<longrightarrow> g \<le> cap)
     \<and> (\<forall>f. pp_max_fee_per_gas p = Some f \<longrightarrow> f \<le> cap)
     \<and> (\<forall>m. pp_max_priority_fee_per_gas p = Some m \<longrightarrow> (\<exists>f. pp_max_fee_per_gas p = Some f \<and> m \<le> f))"

definition one_price_type :: "price_params \<Rightarrow> bool" where
  "one_price_type p \<longleftrightarrow>
     (pp_gas_price p \<noteq> None \<and> pp_max_fee_per_gas p = None \<and> pp_max_priority_fee_per_gas p = None)
     \<or> (pp_gas_price p = None \<and> pp_max_fee_per_gas p \<noteq> None \<and> pp_max_priority_fee_per_gas p \<noteq> None)"

lemma apply_cap_within:
  "price_within_cap (gas_price_cap_or_max r) (apply_gas_price_cap_and_constraints r p)
   \<and> one_price_type (apply_gas_price_cap_and_constraints r p)"
  by (auto simp: apply_gas_price_cap_and_constraints_def Let_def price_within_cap_def one_price_type_def
      cap_gas_price_le split: option.splits prod.splits)

lemma price_within_cap_simps [simp]:
  "price_within_cap cap (p\<lparr> pp_total_cost := c \<rparr>) = price_within_cap cap p"
  "one_price_type (p\<lparr> pp_total_cost := c \<rparr>) = one_price_type p"
  "price_within_cap cap (p\<lparr> pp_is_min_bumped := b \<rparr>) = price_within_cap cap p"
  "one_price_type (p\<lparr> pp_is_min_bumped := b \<rparr>) = one_price_type p"
  by (simp_all add: price_within_cap_def one_price_type_def)

lemma finalize_within_cap:
  assumes "price_within_cap (gas_price_cap_or_max r) p \<and> one_price_type p"
    and "finalize_price_params A r d p = Inr q"
  shows "price_within_cap (gas_price_cap_or_max r) q \<and> one_price_type q"
proof (cases "ga_handler A")
  case None
  then show ?thesis using assms by (auto simp: finalize_price_params_def split: if_splits)
next
  case (Some h)
  then obtain p' where "handle_price_params A h d p = Inr p'"
    using assms(2) by (auto simp: finalize_price_params_def split: sum.splits)
  then show ?thesis
    using assms Some apply_cap_within [of r p'] by (auto simp: finalize_price_params_def split: if_splits)
qed

lemma finalize_no_handler:
  "ga_handler A = None \<Longrightarrow> finalize_price_params A r d p = Inr (if pp_total_cost p = 0
     then p\<lparr> pp_total_cost := calculate_total_cost p (is_eip1559 d)
                      (case gas_limit d of Some g \<Rightarrow> g | None \<Rightarrow> DEFAULT_GAS_LIMIT) (evm_value d) \<rparr> else p)"
  by (simp add: finalize_price_params_def)

lemma get_base_fee_multiplier_le:
  "get_base_fee_multiplier n = Inr m \<Longrightarrow> unat m \<le> 10 * 10 ^ 9"
  by (auto simp: get_base_fee_multiplier_def Let_def unsigned_of_nat take_bit_nat_eq_self split: if_splits)

lemma calculate_max_fee_ge_priority:
  assumes "unat base * (10 * 10 ^ 9) < 2 ^ 128" "unat prio + 10 * unat base < 2 ^ 128"
    and "calculate_max_fee_per_gas base prio n = Inr f"
  shows "prio \<le> f"
proof -
  obtain m where m: "get_base_fee_multiplier n = Inr m" "f = base * m div 1000000000 + prio"
    using assms(3) by (auto simp: calculate_max_fee_per_gas_def split: sum.splits)
  have le: "unat base * unat m \<le> unat base * (10 * 10 ^ 9)"
    using get_base_fee_multiplier_le [OF m(1)] by (rule mult_le_mono2)
  have lt: "unat base * unat m < 2 ^ 128"
    using le assms(1) by (rule le_less_trans)
  have "unat base * unat m div 1000000000 \<le> 10 * unat base"
    using div_le_mono [OF le, of 1000000000] by simp
  then have "unat f = unat base * unat m div 1000000000 + unat prio"
    using assms(2) lt by (simp add: m(2) unat_word_ariths unat_div)
  then show ?thesis by (simp add: word_le_nat_alt)
qed

lemma eip1559_bump_result:
  assumes "handle_eip1559_bump n prices cap spd max_fee prio = Inr p"
  shows "\<exists>f m. pp_max_fee_per_gas p = Some f \<and> pp_max_priority_fee_per_gas p = Some m \<and> pp_gas_price p = None
     \<and> f \<le> cap \<and> m \<le> cap
     \<and> pp_is_min_bumped p = Some (m \<ge> calculate_min_bump prio \<and> f \<ge> calculate_min_bump max_fee)
     \<and> (calculate_min_bump max_fee \<le> cap \<longrightarrow> calculate_min_bump prio \<le> cap \<longrightarrow> pp_is_min_bumped p = Some True)"
  using assms
  by (auto simp: handle_eip1559_bump_def Let_def cap_gas_price_def max_def min_def split: sum.splits if_splits)

lemma legacy_bump_result:
  assumes "handle_legacy_bump prices cap spd g = Inr p"
  shows "\<exists>g'. pp_gas_price p = Some g' \<and> pp_max_fee_per_gas p = None \<and> pp_max_priority_fee_per_gas p = None
     \<and> g' \<le> cap \<and> pp_is_min_bumped p = Some (g' \<ge> calculate_min_bump g)
     \<and> (calculate_min_bump g \<le> cap \<longrightarrow> pp_is_min_bumped p = Some True)"
  using assms by (auto simp: handle_legacy_bump_def Let_def cap_gas_price_def min_def)

lemma for_replacement_no_prices: "\<not> has_explicit_prices (for_replacement old req)"
  by (simp add: has_explicit_prices_def for_replacement_def)

text \<open>Soundness of the check of explicit replacement prices.\<close>

lemma explicit_price_bump_sound:
  assumes "validate_explicit_price_bump r False old new = Inr p"
  shows "pp_gas_price p = gas_price new \<and> pp_max_fee_per_gas p = max_fee_per_gas new
    \<and> pp_max_priority_fee_per_gas p = max_priority_fee_per_gas new
    \<and> (\<forall>g g'. gas_price old = Some g \<longrightarrow> gas_price new = Some g' \<longrightarrow> g' \<ge> calculate_min_bump g)
    \<and> (\<forall>f m. max_fee_per_gas new = Some f \<longrightarrow> max_priority_fee_per_gas new = Some m \<longrightarrow> m \<le> f)"
  using assms
  by (auto simp: validate_explicit_price_bump_def validate_price_bump_requirements_def Let_def plain_params_def
      split: if_splits option.splits sum.splits)

section \<open>Properties\<close>

text \<open>
  The minimum bump of a gas price is the larger of a 10 percent increase, rounded
  down, and one more wei. It exceeds the price strictly, so a replacement always pays
  more, and it is monotone, as long as eleven times the price fits in 128 bits.
\<close>

theorem min_bump_sufficient:
  assumes "11 * unat b < 2 ^ 128"
  shows "unat (calculate_min_bump b) = max (11 * unat b div 10) (unat b + 1)
    \<and> b < calculate_min_bump b \<and> (\<forall>a. a \<le> b \<longrightarrow> calculate_min_bump a \<le> calculate_min_bump b)"
proof -
  have "unat (calculate_min_bump b) = max (11 * unat b div 10) (unat b + 1)"
    using assms by (simp add: unat_calculate_min_bump mult.commute)
  then show ?thesis
    by (auto simp: word_less_nat_alt calculate_min_bump_mono)
qed

theorem min_bump_sufficient_witness:
  "11 * unat (20000000000 :: u128) < 2 ^ 128 \<and> calculate_min_bump 20000000000 > 20000000000
   \<and> unat (calculate_min_bump 20000000000) = 22000000000"
  using min_bump_sufficient [of 20000000000] by simp

text \<open>
  Where eleven times the price does not fit in 128 bits the saturated product is
  divided by ten after it saturated, so from a tenth of the range on the bump degrades
  to a single wei; the documentation promises the largest 128 bit value there.
\<close>

theorem min_bump_saturation:
  assumes "(2 ^ 128 - 1) div 10 \<le> unat b" and "b < - 1"
  shows "calculate_min_bump b = b + 1"
proof -
  have lt: "unat b + 1 < 2 ^ 128"
    using assms(2) by (simp add: word_less_nat_alt unat_max_word)
  have "unat (calculate_min_bump b) = unat b + 1"
    using assms(1) lt by (simp add: unat_calculate_min_bump)
  moreover have "unat (b + 1) = unat b + 1"
    using lt by (simp add: unat_word_ariths)
  ultimately show ?thesis by (metis word_unat_eq_iff)
qed

theorem min_bump_saturation_witness:
  "(2 ^ 128 - 1) div 10 \<le> unat (2 ^ 127 :: u128) \<and> calculate_min_bump (2 ^ 127) = 2 ^ 127 + 1
   \<and> calculate_min_bump (2 ^ 127) < - 1"
  using min_bump_saturation [of "2 ^ 127"] by (simp add: word_less_nat_alt unat_max_word)

text \<open>
  C26: Every price that the calculator hands out for a new transaction respects the
  relayer's gas price cap, has exactly one pricing scheme (legacy or EIP-1559), and
  never has a priority fee above its maximum fee.
\<close>

theorem price_params_within_cap:
  assumes "get_transaction_price_params A r d = Inr p"
  shows "price_within_cap (gas_price_cap_or_max r) p \<and> one_price_type p"
  using assms apply_cap_within [of r]
  by (auto simp: get_transaction_price_params_def split: sum.splits dest!: finalize_within_cap [rotated])

definition ex_policy :: relayer_evm_policy where
  "ex_policy = default_evm_policy\<lparr> gas_price_cap := Some 1000 \<rparr>"

definition ex_relayer :: relayer_repo_model where
  "ex_relayer = \<lparr> r_id = ''relayer'', r_name = ''r'', r_network = ''net'', r_paused = False,
     r_network_type = NtEvm, r_signer_id = ''s'', r_policies = PolicyEvm ex_policy, r_address = ''0xaa'',
     r_notification_id = None, r_system_disabled = False, r_disabled_reason = None,
     r_custom_rpc_urls = None \<rparr>"

definition ex_network :: evm_network where
  "ex_network = \<lparr> net_network = ''net'', net_rpc_urls = [], net_explorer_urls = None,
     net_average_blocktime_ms = 30000, net_is_testnet = False, net_tags = [], net_chain_id = 1,
     net_required_confirmations = 2, net_status_check_initial_delay_seconds = 8,
     net_status_check_retry_delay_seconds = 8, net_features = [''eip1559''], net_symbol = ''E'',
     net_gas_price_cache = None \<rparr>"

definition ex_speed_prices :: "u128 \<Rightarrow> speed_prices" where
  "ex_speed_prices g = \<lparr> safe_low = g, sp_average = g, sp_fast = g, sp_fastest = g \<rparr>"

definition ex_answers :: gas_answers where
  "ex_answers = \<lparr> ga_network = ex_network,
     ga_prices = Inr \<lparr> legacy_prices = ex_speed_prices 10, gp_max_priority_fee_per_gas = ex_speed_prices 2,
                       base_fee_per_gas = 100 \<rparr>,
     ga_legacy = Inr (ex_speed_prices 10), ga_handler = None, ga_hex_decode = (\<lambda>_. None) \<rparr>"

lemmas ex_pricing_defs = ex_answers_def ex_network_def ex_relayer_def ex_policy_def ex_speed_prices_def
  default_evm_policy_def get_evm_policy_def ex_evm_data_def

lemmas pricing_defs = get_transaction_price_params_def fetch_price_params_based_on_tx_type_def
  fetch_speed_price_params_def fetch_eip1559_speed_params_def fetch_legacy_speed_params_def
  fetch_legacy_price_params_def fetch_eip1559_price_params_def
  calculate_max_fee_per_gas_def get_base_fee_multiplier_def price_of_speed_def
  apply_gas_price_cap_and_constraints_def cap_gas_price_def finalize_price_params_def
  calculate_total_cost_def plain_params_def gas_price_cap_or_max_def is_legacy_def is_eip1559_def is_speed_def
  net_is_legacy_def

lemma ex_speed_params:
  "get_transaction_price_params ex_answers ex_relayer ex_evm_data =
     Inr \<lparr> pp_gas_price = None, pp_max_fee_per_gas = Some 144, pp_max_priority_fee_per_gas = Some 2,
           pp_is_min_bumped = None, pp_extra_fee = None, pp_total_cost = 5 \<rparr>"
  by (simp add: pricing_defs ex_pricing_defs Let_def)

theorem price_params_within_cap_witness:
  "\<exists>p. get_transaction_price_params ex_answers ex_relayer ex_evm_data = Inr p
     \<and> price_within_cap (gas_price_cap_or_max ex_relayer) p \<and> one_price_type p"
  using price_params_within_cap [OF ex_speed_params] ex_speed_params by blast


text \<open>
  A forced bump (the one used for no-op transactions, which documents that it skips
  the gas price cap so that the bump succeeds) is capped after all on a network with a
  price handler: the cap is applied again after the handler, and the result can claim
  the minimum bump while its price is below it.
\<close>

theorem forced_bump_capped_by_handler:
  "\<exists>A r d g p g' zk op. ga_handler A = price_handler_for_network (ga_network A) zk op
     \<and> gas_price d = Some g \<and> calculate_bumped_gas_price A r True d = Inr p
     \<and> pp_is_min_bumped p = Some True \<and> pp_gas_price p = Some g' \<and> g' < calculate_min_bump g"
proof (intro exI conjI)
  let ?A = "ex_answers\<lparr> ga_network := ex_network\<lparr> net_tags := [POLYGON_ZKEVM_TAG] \<rparr>,
      ga_handler := Some (PolygonZKEvm (Inr 7)) \<rparr>"
  let ?d = "ex_evm_data\<lparr> gas_price := Some 1000 \<rparr>"
  show "ga_handler ?A = price_handler_for_network (ga_network ?A) (Inr 7) (Inl (NotSupported [])) "
    by (simp add: price_handler_for_network_def is_polygon_zkevm_def)
  show "calculate_bumped_gas_price ?A ex_relayer True ?d =
      Inr \<lparr> pp_gas_price = Some 1000, pp_max_fee_per_gas = None, pp_max_priority_fee_per_gas = None,
            pp_is_min_bumped = Some True, pp_extra_fee = None, pp_total_cost = 7 \<rparr>"
    by (simp add: calculate_bumped_gas_price_def handle_legacy_bump_def get_market_price_for_speed_def
        calculate_min_bump_def saturating_mul_def saturating_add_def handle_price_params_def
        polygon_handle_price_params_def lacks_mempool_def is_arbitrum_def LACKS_MEMPOOL_TAGS_def
        NO_MEMPOOL_TAG_def ARBITRUM_BASED_TAG_def OPTIMISM_BASED_TAG_def OPTIMISM_TAG_def
        POLYGON_ZKEVM_TAG_def pricing_defs ex_pricing_defs Let_def)
  show "(1000 :: u128) < calculate_min_bump 1000"
    by (simp add: calculate_min_bump_def saturating_mul_def saturating_add_def)
qed simp_all


text \<open>
  The balance check of a speed-priced transaction on an EIP-1559 network leaves out
  the gas: the total cost is computed with the pricing scheme of the request, which has
  no maximum fee yet, so it is the transferred value alone, whatever the maximum fee of
  the calculated price.
\<close>

theorem speed_priced_total_cost_without_gas:
  assumes "ga_handler A = None" "gas_price d = None" "max_fee_per_gas d = None" "evm_speed d \<noteq> None"
    and "eip1559_pricing (get_evm_policy (r_policies r)) \<noteq> Some False" "\<not> net_is_legacy (ga_network A)"
    and "get_transaction_price_params A r d = Inr p"
  shows "pp_max_fee_per_gas p \<noteq> None \<and> pp_total_cost p = evm_value d"
proof -
  obtain s where s: "evm_speed d = Some s" using assms(4) by auto
  have no1559: "\<not> is_eip1559 d" using assms(3) by (simp add: is_eip1559_def)
  have fetch: "fetch_price_params_based_on_tx_type A r d = fetch_eip1559_speed_params A s"
    using assms s no1559
    by (simp add: fetch_price_params_based_on_tx_type_def fetch_speed_price_params_def is_legacy_def is_speed_def)
  then obtain f m where fm: "fetch_eip1559_speed_params A s = Inr (plain_params None (Some f) (Some m))"
    using assms(7)
    by (auto simp: get_transaction_price_params_def fetch_eip1559_speed_params_def Let_def split: sum.splits)
  show ?thesis
    using assms(1,7) no1559
    by (auto simp: get_transaction_price_params_def fetch fm finalize_no_handler
        apply_gas_price_cap_and_constraints_def Let_def plain_params_def calculate_total_cost_def)
qed

theorem speed_priced_total_cost_without_gas_witness:
  "\<exists>p. get_transaction_price_params ex_answers ex_relayer ex_evm_data = Inr p
     \<and> pp_max_fee_per_gas p = Some 144 \<and> pp_total_cost p = evm_value ex_evm_data"
  using speed_priced_total_cost_without_gas [OF _ _ _ _ _ _ ex_speed_params] ex_speed_params
  by (simp add: ex_pricing_defs net_is_legacy_def)

lemma get_price_params_priority:
  assumes "get_transaction_price_params A r d = Inr p"
    and "pp_max_fee_per_gas p = Some f" "pp_max_priority_fee_per_gas p = Some m"
  shows "m \<le> f"
proof -
  have "price_within_cap (gas_price_cap_or_max r) p"
    using assms apply_cap_within [of r]
    by (auto simp: get_transaction_price_params_def split: sum.splits dest!: finalize_within_cap [rotated])
  then show ?thesis using assms by (auto simp: price_within_cap_def)
qed


definition ex_request :: evm_transaction_request where
  "ex_request = \<lparr> req_to = Some ''0xcc'', req_value = 9, req_data = None, req_gas_limit = Some 21000,
     req_gas_price = None, req_speed = Some Fast, req_max_fee_per_gas = None,
     req_max_priority_fee_per_gas = None, req_valid_until = None \<rparr>"

definition ex_old_data :: evm_transaction_data where
  "ex_old_data = ex_evm_data\<lparr> max_fee_per_gas := Some 1000, max_priority_fee_per_gas := Some 10 \<rparr>"

lemma ex_replacement_price:
  "calculate_replacement_price ex_answers ex_relayer False ex_old_data (for_replacement ex_old_data ex_request) =
     Inr \<lparr> pp_gas_price = None, pp_max_fee_per_gas = Some 1100, pp_max_priority_fee_per_gas = Some 11,
           pp_is_min_bumped = Some True, pp_extra_fee = None, pp_total_cost = 9 \<rparr>"
  by (simp add: calculate_replacement_price_def calculate_min_bump_def saturating_mul_def saturating_add_def
      for_replacement_def ex_request_def ex_old_data_def pricing_defs ex_pricing_defs Let_def)


text \<open>
  Raising a replacement to the minimum bump happens after the gas price cap was
  applied and after the total cost was computed: the replacement can exceed the
  relayer's cap, and the cost handed to the balance check is not the cost of the price
  it returns.
\<close>

theorem replacement_price_exceeds_cap:
  "\<exists>A r old req p f. determine_replacement_pricing A r False old (for_replacement old req) = Inr p
     \<and> pp_max_fee_per_gas p = Some f \<and> f > gas_price_cap_or_max r
     \<and> pp_total_cost p < calculate_total_cost p True DEFAULT_GAS_LIMIT (req_value req)"
proof (intro exI conjI)
  show "determine_replacement_pricing ex_answers ex_relayer False ex_old_data (for_replacement ex_old_data ex_request) =
      Inr \<lparr> pp_gas_price = None, pp_max_fee_per_gas = Some 1100, pp_max_priority_fee_per_gas = Some 11,
           pp_is_min_bumped = Some True, pp_extra_fee = None, pp_total_cost = 9 \<rparr>"
    by (simp add: determine_replacement_pricing_def check_transaction_compatibility_def
        for_replacement_no_prices ex_replacement_price)
  show "pp_max_fee_per_gas \<lparr> pp_gas_price = None, pp_max_fee_per_gas = Some 1100,
      pp_max_priority_fee_per_gas = Some 11, pp_is_min_bumped = Some True, pp_extra_fee = None,
      pp_total_cost = 9 \<rparr> = Some 1100" by simp
qed (simp_all add: gas_price_cap_or_max_def ex_relayer_def ex_policy_def get_evm_policy_def
    calculate_total_cost_def DEFAULT_GAS_LIMIT_def ex_request_def)

text \<open>
  Explicit gas prices in a replacement request have no effect: the data built for
  the replacement carries no prices, so the pricing is always taken from the market,
  the check of explicit prices is never reached, and two requests that differ only in
  their prices are priced alike.
\<close>

theorem replacement_ignores_explicit_prices:
  "determine_replacement_pricing A r lm old (for_replacement old
       (req\<lparr> req_gas_price := g, req_max_fee_per_gas := f, req_max_priority_fee_per_gas := m \<rparr>))
     = calculate_replacement_price A r lm old (for_replacement old req)"
  by (simp add: determine_replacement_pricing_def check_transaction_compatibility_def
      has_explicit_prices_def for_replacement_def)

text \<open>
  The balance validation accepts a cost exactly when the balance covers it and what
  remains is not below the configured minimum balance (one wei when none is
  configured).
\<close>

theorem balance_validation_exact:
  "validate_sufficient_relayer_balance (Inr balance) policy cost = Inr () \<longleftrightarrow>
     cost \<le> balance \<and>
     unat cost + unat (case min_balance policy of Some m \<Rightarrow> m | None \<Rightarrow> DEFAULT_EVM_MIN_BALANCE) \<le> unat balance"
proof -
  let ?m = "case min_balance policy of Some m \<Rightarrow> m | None \<Rightarrow> DEFAULT_EVM_MIN_BALANCE"
  have u: "unat (ucast ?m :: u256) = unat ?m"
    by (rule unat_ucast_256)
  show ?thesis
    unfolding validate_sufficient_relayer_balance_def Let_def sum.case
    by (auto simp: word_less_nat_alt word_le_nat_alt unat_saturating_sub u word_unat_eq_iff
        simp del: unat_eq_zero split: if_splits)
qed

text \<open>
  The resubmission timeout doubles with every attempt after the first and does not
  wrap for up to 44 attempts at any speed; at 65 attempts the doubling has wrapped to
  zero.
\<close>

theorem resubmit_backoff_exact:
  assumes "1 \<le> attempts" "attempts \<le> 44"
  shows "get_resubmit_timeout_with_backoff (get_resubmit_timeout_for_speed s) attempts
           = get_resubmit_timeout_for_speed s * 2 ^ (attempts - 1)
       \<and> get_resubmit_timeout_with_backoff (get_resubmit_timeout_for_speed s) 65 = 0"
proof -
  let ?t = "get_resubmit_timeout_for_speed s"
  have t: "0 \<le> ?t" "?t \<le> 600000" using timeout_for_speed_bounds [of s] by (auto simp: minutes_ms_def)
  have p: "(1 :: int) \<le> 2 ^ (attempts - 1)" by simp
  have p43: "(2 :: int) ^ (attempts - 1) \<le> 2 ^ 43"
    by (rule power_increasing) (use assms in auto)
  have "?t * 2 ^ (attempts - 1) \<le> 600000 * 2 ^ 43"
    using t p43 by (intro mult_mono) auto
  moreover have "0 \<le> ?t * 2 ^ (attempts - 1)" using t p by simp
  ultimately have "wrap_i64 (?t * 2 ^ (attempts - 1)) = ?t * 2 ^ (attempts - 1)"
    by (intro wrap_i64_id) simp_all
  moreover have "wrap_i64 (2 ^ (attempts - 1)) = 2 ^ (attempts - 1)"
    using p43 by (intro wrap_i64_id order_trans [OF _ p]) simp_all
  ultimately have "wrap_i64 (?t * wrap_i64 (2 ^ (attempts - 1))) = ?t * 2 ^ (attempts - 1)"
    by simp
  then show ?thesis
    using assms by (auto simp: get_resubmit_timeout_with_backoff_def wrap_i64_def)
qed

theorem resubmit_backoff_exact_witness:
  "get_resubmit_timeout_with_backoff (get_resubmit_timeout_for_speed (Some Fast)) 3 = 720000"
  using resubmit_backoff_exact [of 3 "Some Fast"]
  by (simp add: get_resubmit_timeout_for_speed_def minutes_ms_def)

end
