(* ===== verification/Evm_World.thy ===== *)
theory Evm_World
  imports Tx_Repository Tx_Counter Evm_Pricing
begin

text \<open>
  The surroundings of the EVM handlers: the jobs of \<open>jobs/job.rs\<close> and the producer that
  enqueues them (\<open>jobs/job_producer.rs\<close>), the state the handlers share and the
  environment that answers their calls.

  The state \<open>world\<close> holds the transaction repository, the nonce counters, the queue (in
  the order of production), the log of the raw transactions handed to the node and the
  debounce table of the status checker. The environment \<open>evm_env\<close> holds what the node,
  the signer, the gas price service, the network repository, the storage backend and the
  clock answer. Each answer is a function of the tick, a number the state counts up at
  every call, so that a statement for all environments covers every sequence of answers,
  failures included.
\<close>

section \<open>Jobs\<close>

type_synonym job_metadata = "(string \<times> string) list"

definition HEALTH_CHECK_ACTION_KEY :: string where "HEALTH_CHECK_ACTION_KEY = ''health_check_action''"
definition HEALTH_CHECK_ACTION_NONCE_HEALTH :: string where "HEALTH_CHECK_ACTION_NONCE_HEALTH = ''nonce_health''"
definition HEALTH_CHECK_NONCE_HINT_KEY :: string where "HEALTH_CHECK_NONCE_HINT_KEY = ''nonce_hint''"
definition TX_NONCE_RECONCILE_TRIGGER :: string where "TX_NONCE_RECONCILE_TRIGGER = ''tx_nonce_reconcile_trigger''"
definition DEFAULT_EVM_STATUS_CHECK_RETRY_DELAY_SECONDS :: u64 where
  "DEFAULT_EVM_STATUS_CHECK_RETRY_DELAY_SECONDS = 8"

record transaction_request_job =
  trq_transaction_id :: string
  trq_relayer_id :: string
  trq_network_type :: "network_type option"
  trq_metadata :: "job_metadata option"

datatype transaction_command = Submit | Cancel string | Resubmit | Resend

record transaction_send =
  ts_transaction_id :: string
  ts_relayer_id :: string
  ts_command :: transaction_command
  ts_network_type :: "network_type option"
  ts_metadata :: "job_metadata option"

record transaction_status_check =
  tsc_transaction_id :: string
  tsc_relayer_id :: string
  tsc_network_type :: "network_type option"
  tsc_status_check_retry_delay_seconds :: u64
  tsc_metadata :: "job_metadata option"

record relayer_health_check =
  rhc_relayer_id :: string
  rhc_retry_count :: u32
  rhc_metadata :: "job_metadata option"

text \<open>
  A notification carries its id, the event and the transaction its payload is built from;
  the notifications on the state of a relayer carry the relayer and the reason or the
  number of retries.
  The second argument of the other jobs is the time they are scheduled on.
\<close>

datatype queued_job =
    JRequest transaction_request_job "int option"
  | JSend transaction_send "int option"
  | JStatusCheck transaction_status_check "int option"
  | JHealthCheck relayer_health_check "int option"
  | JNotification string string transaction_repo_model
  | JRelayerDisabled string relayer_repo_model string
  | JRelayerEnabled string relayer_repo_model u32

definition request_job :: "string \<Rightarrow> string \<Rightarrow> transaction_request_job" where
  "request_job i r = \<lparr> trq_transaction_id = i, trq_relayer_id = r, trq_network_type = None, trq_metadata = None \<rparr>"

definition send_job :: "transaction_command \<Rightarrow> string \<Rightarrow> string \<Rightarrow> transaction_send" where
  "send_job c i r = \<lparr> ts_transaction_id = i, ts_relayer_id = r, ts_command = c, ts_network_type = None,
     ts_metadata = None \<rparr>"

definition status_check_job :: "string \<Rightarrow> string \<Rightarrow> network_type \<Rightarrow> transaction_status_check" where
  "status_check_job i r nt = \<lparr> tsc_transaction_id = i, tsc_relayer_id = r, tsc_network_type = Some nt,
     tsc_status_check_retry_delay_seconds = DEFAULT_EVM_STATUS_CHECK_RETRY_DELAY_SECONDS, tsc_metadata = None \<rparr>"

definition nonce_health :: "string \<Rightarrow> relayer_health_check" where
  "nonce_health r = \<lparr> rhc_relayer_id = r, rhc_retry_count = 0,
     rhc_metadata = Some [(HEALTH_CHECK_ACTION_KEY, HEALTH_CHECK_ACTION_NONCE_HEALTH)] \<rparr>"

definition nonce_health_with_hint :: "string \<Rightarrow> u64 \<Rightarrow> relayer_health_check" where
  "nonce_health_with_hint r hint =
     (let job = nonce_health r
      in job\<lparr> rhc_metadata := map_option
           (AList.update HEALTH_CHECK_NONCE_HINT_KEY (show_nat (unat hint))) (rhc_metadata job) \<rparr>)"

section \<open>The environment\<close>

record evm_receipt =
  rc_status :: bool
  rc_block_number :: "u64 option"
  rc_from :: string
  rc_to :: "string option"

datatype sign_transaction_response =
    SignedEvm sign_transaction_response_evm | SignedSolana | SignedStellar

record call_request =
  cr_from :: "u8 list"
  cr_to :: "u8 list option"
  cr_value :: u256
  cr_input :: "u8 list"
  cr_gas :: "u64 option"
  cr_gas_price :: "u128 option"
  cr_max_fee_per_gas :: "u128 option"
  cr_max_priority_fee_per_gas :: "u128 option"

text \<open>
  The network repository answers with the network already converted, or with the text of
  the conversion error. \<open>e_storage_fault\<close> is an error of the storage backend, which the
  Redis implementation has and the in-memory one does not; \<open>e_queue_fault\<close> is an error of
  the queue. \<open>e_now\<close> is the calendar clock and \<open>e_instant\<close> the monotonic one, both in
  nanoseconds. \<open>e_values_order\<close> is the iteration order of the in-memory map.
\<close>

record evm_env = clock_env +
  e_now :: "nat \<Rightarrow> int"
  e_instant :: "nat \<Rightarrow> int"
  e_storage_fault :: "nat \<Rightarrow> repository_error option"
  e_queue_fault :: "nat \<Rightarrow> string option"
  e_values_order :: values_order
  e_network_by_chain_id :: "nat \<Rightarrow> u64 \<Rightarrow> repository_error + (string + evm_network) option"
  e_network_by_name :: "nat \<Rightarrow> string \<Rightarrow> repository_error + (string + evm_network) option"
  e_gas_answers :: "nat \<Rightarrow> gas_answers"
  e_estimate_gas :: "nat \<Rightarrow> evm_transaction_data \<Rightarrow> provider_error + u64"
  e_block_gas_limit :: "nat \<Rightarrow> provider_error + u64"
  e_balance :: "nat \<Rightarrow> string \<Rightarrow> provider_error + u256"
  e_sign :: "nat \<Rightarrow> evm_transaction_data \<Rightarrow> string + sign_transaction_response"
  e_send_raw :: "nat \<Rightarrow> u8 list \<Rightarrow> provider_error + string"
  e_receipt :: "nat \<Rightarrow> string \<Rightarrow> provider_error + evm_receipt option"
  e_block_number :: "nat \<Rightarrow> provider_error + u64"
  e_transaction_count :: "nat \<Rightarrow> string \<Rightarrow> provider_error + u64"
  e_trace_output :: "nat \<Rightarrow> string \<Rightarrow> provider_error + string option"
  e_call_revert_data :: "nat \<Rightarrow> call_request \<Rightarrow> u64 \<Rightarrow> provider_error + u8 list option"
  e_parse_address :: "string \<Rightarrow> u8 list option"
  e_hex_decode :: "string \<Rightarrow> u8 list option"
  e_uuid :: "nat \<Rightarrow> string"

record world =
  w_repo :: tx_repo
  w_counter :: counter_store
  w_jobs :: "queued_job list"
  w_broadcasts :: "u8 list list"
  w_debounce :: "string \<Rightarrow> int option"
  w_tick :: nat

type_synonym 'a handler = "(world, transaction_error, 'a) eff"

definition askM :: "(nat \<Rightarrow> 'a) \<Rightarrow> (world, 'e, 'a) eff" where
  "askM f = (\<lambda>w. (Inr (f (w_tick w)), w\<lparr> w_tick := Suc (w_tick w) \<rparr>))"

definition callM :: "(nat \<Rightarrow> 'e + 'a) \<Rightarrow> (world, 'e, 'a) eff" where
  "callM f = (\<lambda>w. (f (w_tick w), w\<lparr> w_tick := Suc (w_tick w) \<rparr>))"

definition repoM :: "evm_env \<Rightarrow> 'a repo_op \<Rightarrow> (world, repository_error, 'a) eff" where
  "repoM E m = (\<lambda>w. case e_storage_fault E (w_tick w) of
     Some e \<Rightarrow> (Inl e, w\<lparr> w_tick := Suc (w_tick w) \<rparr>)
   | None \<Rightarrow> (case m (w_repo w) of
       (r, R) \<Rightarrow> (r, w\<lparr> w_repo := R, w_tick := Suc (w_tick w) \<rparr>)))"

definition counterM :: "evm_env \<Rightarrow> 'a counter_op \<Rightarrow> (world, repository_error, 'a) eff" where
  "counterM E m = (\<lambda>w. case e_storage_fault E (w_tick w) of
     Some e \<Rightarrow> (Inl e, w\<lparr> w_tick := Suc (w_tick w) \<rparr>)
   | None \<Rightarrow> (case m (w_counter w) of
       (r, C) \<Rightarrow> (r, w\<lparr> w_counter := C, w_tick := Suc (w_tick w) \<rparr>)))"

text \<open>The error of \<open>produceM\<close> is the text of \<open>JobProducerError::QueueError\<close>.\<close>

definition produceM :: "evm_env \<Rightarrow> queued_job \<Rightarrow> (world, string, unit) eff" where
  "produceM E j = (\<lambda>w. case e_queue_fault E (w_tick w) of
     Some e \<Rightarrow> (Inl e, w\<lparr> w_tick := Suc (w_tick w) \<rparr>)
   | None \<Rightarrow> (Inr (), w\<lparr> w_jobs := w_jobs w @ [j], w_tick := Suc (w_tick w) \<rparr>))"

definition show_job_producer_error :: "string \<Rightarrow> string" where
  "show_job_producer_error m = ''Queue error: '' @ m"

definition partial_updateM :: "evm_env \<Rightarrow> string \<Rightarrow> transaction_update_request \<Rightarrow> transaction_repo_model handler" where
  "partial_updateM E i u = bindM (askM (e_now E)) (\<lambda>now.
     map_errM tx_error_of_repository_error (repoM E (partial_update E now i u)))"

definition send_raw_transaction :: "evm_env \<Rightarrow> u8 list \<Rightarrow> (world, provider_error, string) eff" where
  "send_raw_transaction E raw = (\<lambda>w.
     (e_send_raw E (w_tick w) raw, w\<lparr> w_broadcasts := w_broadcasts w @ [raw], w_tick := Suc (w_tick w) \<rparr>))"

definition now_rfc3339 :: "evm_env \<Rightarrow> (world, 'e, string) eff" where
  "now_rfc3339 E = bindM (askM (e_now E)) (\<lambda>t. returnM (to_rfc3339 E t))"

definition into_evm :: "sign_transaction_response \<Rightarrow> transaction_error + sign_transaction_response_evm" where
  "into_evm r = (case r of SignedEvm e \<Rightarrow> Inr e | _ \<Rightarrow> Inl (InvalidType ''Expected EVM signature''))"

section \<open>Predicates the surroundings do not affect\<close>

text \<open>
  A state predicate that looks neither at the tick nor at the queue is kept by every
  question to the environment and by the job producer.
\<close>

locale world_inv =
  fixes J :: "world \<Rightarrow> bool"
  assumes tick_stable: "J w \<Longrightarrow> J (w\<lparr> w_tick := t \<rparr>)"
    and jobs_stable: "J w \<Longrightarrow> J (w\<lparr> w_jobs := js \<rparr>)"
begin

lemma pres_ask: "preserves J (askM f) (\<lambda>_. True)"
  by (simp add: preserves_def valid_def askM_def tick_stable)

lemma pres_call: "preserves J (callM f) (\<lambda>x. \<exists>t. f t = Inr x)"
  by (auto simp: preserves_def valid_def callM_def tick_stable split: sum.splits)

lemma pres_produce: "preserves J (produceM E j) (\<lambda>_. True)"
  using tick_stable jobs_stable
  by (auto simp: preserves_def valid_def produceM_def split: option.splits)

lemma pres_now: "preserves J (now_rfc3339 E) (\<lambda>_. True)"
  unfolding now_rfc3339_def by (rule pres_bind [OF pres_ask]) (simp add: pres_return)

lemmas pres_env = pres_ask pres_call pres_produce pres_now

end

section \<open>Sample values\<close>

definition ex_signed :: sign_transaction_response_evm where
  "ex_signed = \<lparr> sr_hash = ''0x02'', sr_signature = \<lparr> sig_r = [], sig_s = [], sig_v = 0, sig_sig = [] \<rparr>,
     sr_raw = [9, 9] \<rparr>"

definition ex_env :: evm_env where
  "ex_env = \<lparr> parse_rfc3339 = ex_parse_rfc3339, to_rfc3339 = ex_to_rfc3339, transaction_expiration_secs = 14400,
     e_now = (\<lambda>_. secs 100), e_instant = (\<lambda>_. secs 100), e_storage_fault = (\<lambda>_. None),
     e_queue_fault = (\<lambda>_. None), e_values_order = id,
     e_network_by_chain_id = (\<lambda>_ _. Inr (Some (Inr ex_network))),
     e_network_by_name = (\<lambda>_ _. Inr (Some (Inr ex_network))), e_gas_answers = (\<lambda>_. ex_answers),
     e_estimate_gas = (\<lambda>_ _. Inr 21000), e_block_gas_limit = (\<lambda>_. Inr 30000000),
     e_balance = (\<lambda>_ _. Inr 1000000000), e_sign = (\<lambda>_ _. Inr (SignedEvm ex_signed)),
     e_send_raw = (\<lambda>_ _. Inr ''0x02''), e_receipt = (\<lambda>_ _. Inr None), e_block_number = (\<lambda>_. Inr 100),
     e_transaction_count = (\<lambda>_ _. Inr 7), e_trace_output = (\<lambda>_ _. Inr None),
     e_call_revert_data = (\<lambda>_ _ _. Inr None), e_parse_address = (\<lambda>_. None), e_hex_decode = (\<lambda>_. None),
     e_uuid = (\<lambda>_. ''uuid'') \<rparr>"

definition ex_world :: "transaction_repo_model \<Rightarrow> world" where
  "ex_world tx = \<lparr> w_repo = \<lparr> store = [(tx_id tx, tx)], idempotency = [] \<rparr>, w_counter = (\<lambda>_. Some 8),
     w_jobs = [], w_broadcasts = [], w_debounce = (\<lambda>_. None), w_tick = 0 \<rparr>"

lemma ex_world_sel [simp]:
  "w_repo (ex_world tx) = \<lparr> store = [(tx_id tx, tx)], idempotency = [] \<rparr>" "w_counter (ex_world tx) = (\<lambda>_. Some 8)"
  "w_jobs (ex_world tx) = []" "w_broadcasts (ex_world tx) = []" "w_tick (ex_world tx) = 0"
  "tx_lookup (w_repo (ex_world tx)) (tx_id tx) = Some tx"
  by (simp_all add: ex_world_def)

end
