(* ===== verification/Evm_Utils.thy ===== *)
theory Evm_Utils
  imports Evm_World
begin

text \<open>
  The helpers of \<open>domain/transaction/evm/utils.rs\<close>: the NOOP replacement, the status
  guards, confirmation counting and the ages that drive resubmission.
\<close>

section \<open>Definitions\<close>

text \<open>
  \<open>make_noop\<close> changes the data in place; here it returns the changed data.
  \<open>with_provider\<close> says whether a provider was passed.
\<close>

definition make_noop ::
  "evm_env \<Rightarrow> evm_network \<Rightarrow> bool \<Rightarrow> evm_transaction_data \<Rightarrow> evm_transaction_data handler" where
  "make_noop E network with_provider d =
     (let d = d\<lparr> evm_value := 0, evm_data := Some ''0x'', evm_to := Some (evm_from d),
                 evm_speed := Some DEFAULT_TRANSACTION_SPEED \<rparr>
      in if is_arbitrum network
         then (if with_provider
               then bindM (attemptM (callM (\<lambda>t. e_estimate_gas E t d))) (\<lambda>answer. case answer of
                      Inr estimated_gas \<Rightarrow> returnM (d\<lparr> gas_limit := Some (max estimated_gas DEFAULT_GAS_LIMIT) \<rparr>)
                    | Inl _ \<Rightarrow> returnM (d\<lparr> gas_limit := Some ARBITRUM_GAS_LIMIT \<rparr>))
               else returnM (d\<lparr> gas_limit := Some ARBITRUM_GAS_LIMIT \<rparr>))
         else returnM (d\<lparr> gas_limit := Some DEFAULT_GAS_LIMIT \<rparr>))"

definition is_noop :: "evm_transaction_data \<Rightarrow> bool" where
  "is_noop d = (evm_value d = 0 \<and> evm_data d = Some ''0x'' \<and> evm_to d = Some (evm_from d) \<and> evm_speed d \<noteq> None)"

definition too_many_attempts :: "transaction_repo_model \<Rightarrow> bool" where
  "too_many_attempts tx = (length (hashes tx) > MAXIMUM_TX_ATTEMPTS)"

definition too_many_noop_attempts :: "transaction_repo_model \<Rightarrow> bool" where
  "too_many_noop_attempts tx =
     ((case noop_count tx of Some n \<Rightarrow> n | None \<Rightarrow> 0) > MAXIMUM_NOOP_RETRY_ATTEMPTS)"

definition show_status :: "transaction_status \<Rightarrow> string" where
  "show_status s = (case s of
     Canceled \<Rightarrow> ''Canceled'' | Pending \<Rightarrow> ''Pending'' | Sent \<Rightarrow> ''Sent'' | Submitted \<Rightarrow> ''Submitted''
   | Mined \<Rightarrow> ''Mined'' | Confirmed \<Rightarrow> ''Confirmed'' | Failed \<Rightarrow> ''Failed'' | Expired \<Rightarrow> ''Expired'')"

fun join_strings :: "string \<Rightarrow> string list \<Rightarrow> string" where
  "join_strings sep [] = []"
| "join_strings sep [s] = s"
| "join_strings sep (s # ss) = s @ sep @ join_strings sep ss"

definition ensure_status ::
  "transaction_repo_model \<Rightarrow> transaction_status \<Rightarrow> string option \<Rightarrow> transaction_error + unit" where
  "ensure_status tx expected operation =
     (if status tx \<noteq> expected
      then Inl (ValidationError (case operation of
             Some op \<Rightarrow> ''Invalid transaction state for '' @ op @ ''. Current: '' @ show_status (status tx)
                        @ '', Expected: '' @ show_status expected
           | None \<Rightarrow> ''Invalid transaction state. Current: '' @ show_status (status tx)
                     @ '', Expected: '' @ show_status expected))
      else Inr ())"

definition ensure_status_one_of ::
  "transaction_repo_model \<Rightarrow> transaction_status list \<Rightarrow> string option \<Rightarrow> transaction_error + unit" where
  "ensure_status_one_of tx expected operation =
     (let shown = ''['' @ join_strings '', '' (map show_status expected) @ '']''
      in if status tx \<notin> set expected
         then Inl (ValidationError (case operation of
                Some op \<Rightarrow> ''Invalid transaction state for '' @ op @ ''. Current: '' @ show_status (status tx)
                           @ '', Expected one of: '' @ shown
              | None \<Rightarrow> ''Invalid transaction state. Current: '' @ show_status (status tx)
                        @ '', Expected one of: '' @ shown))
         else Inr ())"

definition has_enough_confirmations :: "u64 \<Rightarrow> u64 \<Rightarrow> u64 \<Rightarrow> bool" where
  "has_enough_confirmations tx_block_number current_block_number required_confirmations =
     (current_block_number \<ge> tx_block_number + required_confirmations)"

definition is_transaction_valid :: "evm_env \<Rightarrow> int \<Rightarrow> string \<Rightarrow> string option \<Rightarrow> bool" where
  "is_transaction_valid E now created valid_until_opt = (case valid_until_opt of
     Some s \<Rightarrow> (case parse_rfc3339 E s of Some t \<Rightarrow> now < t | None \<Rightarrow> False)
   | None \<Rightarrow> (case parse_rfc3339 E created of
       Some t \<Rightarrow> now < t + millis DEFAULT_TX_VALID_TIMESPAN | None \<Rightarrow> False))"

definition get_age_since_status_change ::
  "evm_env \<Rightarrow> int \<Rightarrow> transaction_repo_model \<Rightarrow> transaction_error + int" where
  "get_age_since_status_change E now tx = (case sent_at tx of
     Some s \<Rightarrow> (case parse_rfc3339 E s of
       Some t \<Rightarrow> Inr (now - t) | None \<Rightarrow> Inl (UnexpectedError ''Error parsing sent_at time''))
   | None \<Rightarrow> get_age_since_created E now tx)"

definition is_too_early_to_resubmit ::
  "evm_env \<Rightarrow> int \<Rightarrow> transaction_repo_model \<Rightarrow> transaction_error + bool" where
  "is_too_early_to_resubmit E now tx = (case get_age_since_created E now tx of
     Inl e \<Rightarrow> Inl e | Inr age \<Rightarrow> Inr (age < secs EVM_MIN_AGE_FOR_RESUBMIT_SECONDS))"

section \<open>Facts\<close>

text \<open>What a NOOP keeps: the sender, the nonce, the chain and the prices.\<close>

definition noop_of :: "evm_transaction_data \<Rightarrow> evm_transaction_data \<Rightarrow> bool" where
  "noop_of d d' \<longleftrightarrow> is_noop d' \<and> nonce d' = nonce d \<and> evm_from d' = evm_from d \<and> chain_id d' = chain_id d
     \<and> evm_hash d' = evm_hash d \<and> evm_raw d' = evm_raw d
     \<and> (\<exists>g. gas_limit d' = Some g \<and> DEFAULT_GAS_LIMIT \<le> g)"

context world_inv
begin

lemma pres_make_noop: "preserves J (make_noop E n p d) (noop_of d)"
  unfolding make_noop_def Let_def
  by (rule pres pres_env |
      force simp: noop_of_def is_noop_def DEFAULT_GAS_LIMIT_def ARBITRUM_GAS_LIMIT_def max_def)+

end

lemma confirmations_exact:
  assumes "unat b + unat c < 2 ^ 64"
  shows "has_enough_confirmations b n c \<longleftrightarrow> unat b + unat c \<le> unat n"
  using assms by (simp add: has_enough_confirmations_def word_le_nat_alt unat_word_ariths)

lemma ensure_status_Inr [simp]: "(ensure_status tx s op = Inr u) = (status tx = s)"
  by (auto simp: ensure_status_def)

lemma ensure_status_one_of_Inr [simp]: "(ensure_status_one_of tx ss op = Inr u) = (status tx \<in> set ss)"
  by (auto simp: ensure_status_one_of_def Let_def)

end
