(* ===== verification/Evm_Transaction.thy ===== *)
theory Evm_Transaction
  imports Evm_Utils
begin

text \<open>
  The EVM transaction handlers of \<open>domain/transaction/evm/evm_transaction.rs\<close>: preparing,
  submitting, resubmitting, cancelling and replacing a transaction, with the jobs,
  notifications and status updates they make. A long handler is split into the stages its
  early returns separate. The second half shows what every handler keeps: which other
  entries and counters it leaves alone (\<open>touched\<close>) and how the transaction it runs for may
  change (\<open>evolves\<close>, \<open>status_next\<close>).
\<close>

section \<open>Submission errors\<close>

datatype submission_error_kind =
    NonceTooLow | AlreadyKnown | ReplacementUnderpriced | NonceTooHigh | OtherKind string

fun classify_patterns :: "string list \<Rightarrow> string \<Rightarrow> submission_error_kind option" where
  "classify_patterns [] msg = None"
| "classify_patterns (pattern # ps) msg =
     (if contains_str pattern msg
      then Some (if pattern = ''nonce too low'' \<or> pattern = ''nonce is too low'' then NonceTooLow
                 else if pattern = ''replacement transaction underpriced'' then ReplacementUnderpriced
                 else AlreadyKnown)
      else classify_patterns ps msg)"

definition classify_submission_error :: "string \<Rightarrow> submission_error_kind" where
  "classify_submission_error original =
     (let error_msg = to_lowercase original
      in case classify_patterns ALREADY_SUBMITTED_PATTERNS error_msg of
           Some kind \<Rightarrow> kind
         | None \<Rightarrow>
             (if matches_known_transaction error_msg then AlreadyKnown
              else if list_ex (\<lambda>p. contains_str p error_msg) NONCE_TOO_HIGH_PATTERNS then NonceTooHigh
              else OtherKind original))"

definition is_already_submitted_error :: "string \<Rightarrow> bool" where
  "is_already_submitted_error e =
     (classify_submission_error e \<in> {NonceTooLow, AlreadyKnown, ReplacementUnderpriced})"

text \<open>\<open>Debug\<close> of the kind. The argument of \<open>Other\<close> is not escaped; no caller formats that case.\<close>

definition show_submission_error_kind :: "submission_error_kind \<Rightarrow> string" where
  "show_submission_error_kind k = (case k of
     NonceTooLow \<Rightarrow> ''NonceTooLow'' | AlreadyKnown \<Rightarrow> ''AlreadyKnown''
   | ReplacementUnderpriced \<Rightarrow> ''ReplacementUnderpriced'' | NonceTooHigh \<Rightarrow> ''NonceTooHigh''
   | OtherKind m \<Rightarrow> ''Other('' @ m @ '')'')"

section \<open>Jobs of the handlers\<close>

definition calculate_scheduled_timestamp :: "int \<Rightarrow> int \<Rightarrow> int" where
  "calculate_scheduled_timestamp now delay_seconds = now div 1000000000 + delay_seconds"

definition status_check_retry_delay_seconds :: "evm_env \<Rightarrow> relayer_repo_model \<Rightarrow> (world, 'e, u64) eff" where
  "status_check_retry_delay_seconds E r =
     bindM (askM (\<lambda>t. e_network_by_name E t (r_network r))) (\<lambda>answer. returnM (case answer of
       Inr (Some (Inr network)) \<Rightarrow> net_status_check_retry_delay_seconds network
     | _ \<Rightarrow> DEFAULT_EVM_STATUS_CHECK_RETRY_DELAY_SECONDS))"

definition scheduled_on :: "evm_env \<Rightarrow> int option \<Rightarrow> int option handler" where
  "scheduled_on E delay_seconds = (case delay_seconds of
     None \<Rightarrow> returnM None
   | Some d \<Rightarrow> bindM (askM (e_now E)) (\<lambda>now. returnM (Some (calculate_scheduled_timestamp now d))))"

definition schedule_status_check ::
  "evm_env \<Rightarrow> relayer_repo_model \<Rightarrow> transaction_repo_model \<Rightarrow> int option \<Rightarrow> job_metadata option \<Rightarrow> unit handler" where
  "schedule_status_check E r tx delay_seconds meta =
     bindM (scheduled_on E delay_seconds) (\<lambda>delay.
     bindM (status_check_retry_delay_seconds E r) (\<lambda>retry_delay.
       let job = (status_check_job (tx_id tx) (relayer_id tx) NtEvm)
                   \<lparr> tsc_status_check_retry_delay_seconds := retry_delay \<rparr>;
           job = (case meta of None \<Rightarrow> job | Some m \<Rightarrow> job\<lparr> tsc_metadata := Some m \<rparr>)
       in map_errM (\<lambda>e. UnexpectedError (''Failed to schedule status check: '' @ show_job_producer_error e))
            (produceM E (JStatusCheck job delay))))"

definition schedule_nonce_recovery_status_check ::
  "evm_env \<Rightarrow> relayer_repo_model \<Rightarrow> transaction_repo_model \<Rightarrow> submission_error_kind \<Rightarrow> unit handler" where
  "schedule_nonce_recovery_status_check E r tx error_kind =
     schedule_status_check E r tx None
       (Some [(TX_NONCE_RECONCILE_TRIGGER, show_submission_error_kind error_kind)])"

definition tx_nonce :: "transaction_repo_model \<Rightarrow> u64 option" where
  "tx_nonce tx = (case network_data tx of Evm d \<Rightarrow> nonce d | _ \<Rightarrow> None)"

definition schedule_relayer_nonce_health_job :: "evm_env \<Rightarrow> transaction_repo_model \<Rightarrow> unit handler" where
  "schedule_relayer_nonce_health_job E tx =
     (let job = (case tx_nonce tx of
            Some n \<Rightarrow> nonce_health_with_hint (relayer_id tx) n | None \<Rightarrow> nonce_health (relayer_id tx))
      in map_errM (\<lambda>e. UnexpectedError (''Failed to schedule nonce health check: '' @ show_job_producer_error e))
           (produceM E (JHealthCheck job None)))"

definition handle_nonce_too_high :: "evm_env \<Rightarrow> transaction_repo_model \<Rightarrow> unit handler" where
  "handle_nonce_too_high E tx =
     (let retry_count = (case metadata tx of Some m \<Rightarrow> nonce_too_high_retries m | None \<Rightarrow> 0);
          new_count = retry_count + 1;
          update = default_update
            \<lparr> up_metadata := Some ((case metadata tx of Some m \<Rightarrow> m | None \<Rightarrow> default_metadata)
                              \<lparr> nonce_too_high_retries := new_count \<rparr>),
              up_status_reason := Some (''Nonce too high (attempt '' @ show_nat (unat new_count) @ '')'') \<rparr>
      in thenM (ignoreM (partial_updateM E (tx_id tx) update))
           (whenM (new_count \<ge> MAX_NONCE_TOO_HIGH_RETRIES)
              (ignoreM (schedule_relayer_nonce_health_job E tx))))"

definition send_transaction_job ::
  "evm_env \<Rightarrow> transaction_command \<Rightarrow> string \<Rightarrow> transaction_repo_model \<Rightarrow> unit handler" where
  "send_transaction_job E c what tx =
     map_errM (\<lambda>e. UnexpectedError (what @ show_job_producer_error e))
       (produceM E (JSend (send_job c (tx_id tx) (relayer_id tx)) None))"

definition send_transaction_submit_job :: "evm_env \<Rightarrow> transaction_repo_model \<Rightarrow> unit handler" where
  "send_transaction_submit_job E tx = send_transaction_job E Submit ''Failed to produce submit job: '' tx"

definition send_transaction_resubmit_job :: "evm_env \<Rightarrow> transaction_repo_model \<Rightarrow> unit handler" where
  "send_transaction_resubmit_job E tx = send_transaction_job E Resubmit ''Failed to produce resubmit job: '' tx"

definition send_transaction_resend_job :: "evm_env \<Rightarrow> transaction_repo_model \<Rightarrow> unit handler" where
  "send_transaction_resend_job E tx = send_transaction_job E Resend ''Failed to produce resend job: '' tx"

definition send_transaction_request_job :: "evm_env \<Rightarrow> transaction_repo_model \<Rightarrow> unit handler" where
  "send_transaction_request_job E tx =
     map_errM (\<lambda>e. UnexpectedError (''Failed to produce request job: '' @ show_job_producer_error e))
       (produceM E (JRequest (request_job (tx_id tx) (relayer_id tx)) None))"

definition send_transaction_update_notification ::
  "evm_env \<Rightarrow> relayer_repo_model \<Rightarrow> transaction_repo_model \<Rightarrow> (world, string, unit) eff" where
  "send_transaction_update_notification E r tx = (case r_notification_id r of
     Some notification_id \<Rightarrow> produceM E (JNotification notification_id ''transaction_update'' tx)
   | None \<Rightarrow> returnM ())"

section \<open>Status updates\<close>

definition confirmed_at_of :: "evm_env \<Rightarrow> transaction_status \<Rightarrow> string option handler" where
  "confirmed_at_of E new_status =
     (if new_status = Confirmed then bindM (now_rfc3339 E) (\<lambda>t. returnM (Some t)) else returnM None)"

definition update_transaction_status ::
  "evm_env \<Rightarrow> relayer_repo_model \<Rightarrow> transaction_repo_model \<Rightarrow> transaction_status \<Rightarrow> string option \<Rightarrow>
   transaction_repo_model handler" where
  "update_transaction_status E r tx new_status reason =
     bindM (confirmed_at_of E new_status) (\<lambda>confirmed.
     bindM (partial_updateM E (tx_id tx) (default_update
              \<lparr> up_status := Some new_status, up_confirmed_at := confirmed, up_status_reason := reason \<rparr>)) (\<lambda>updated_tx.
     thenM (ignoreM (send_transaction_update_notification E r updated_tx))
       (returnM updated_tx)))"

definition mark_transaction_as_failed ::
  "evm_env \<Rightarrow> relayer_repo_model \<Rightarrow> transaction_repo_model \<Rightarrow> string \<Rightarrow> transaction_repo_model handler" where
  "mark_transaction_as_failed E r tx reason =
     bindM (partial_updateM E (tx_id tx) (default_update
              \<lparr> up_status := Some Failed, up_status_reason := Some reason \<rparr>)) (\<lambda>updated_tx.
     thenM (ignoreM (send_transaction_update_notification E r updated_tx))
       (returnM updated_tx))"

definition ensure_sufficient_balance :: "evm_env \<Rightarrow> relayer_repo_model \<Rightarrow> u256 \<Rightarrow> unit handler" where
  "ensure_sufficient_balance E r total_cost =
     map_errM (\<lambda>v. case v of
         EvInsufficientBalance msg \<Rightarrow> InsufficientBalance msg
       | EvProviderError msg \<Rightarrow> UnexpectedError (''Failed to check balance: '' @ msg)
       | EvValidationError msg \<Rightarrow> UnexpectedError (''Balance validation error: '' @ msg))
       (callM (\<lambda>t. validate_sufficient_relayer_balance (e_balance E t (r_address r))
                     (get_evm_policy (r_policies r)) total_cost))"

definition estimate_tx_gas_limit ::
  "evm_env \<Rightarrow> evm_transaction_data \<Rightarrow> relayer_evm_policy \<Rightarrow> u64 handler" where
  "estimate_tx_gas_limit E d policy =
     (if \<not> (case gas_limit_estimation policy of Some b \<Rightarrow> b | None \<Rightarrow> DEFAULT_EVM_GAS_LIMIT_ESTIMATION)
      then throwM (UnexpectedError ''Gas limit estimation is disabled'')
      else bindM (map_errM (\<lambda>e. UnexpectedError (''Failed to estimate gas: '' @ show_provider_error e))
                    (callM (\<lambda>t. e_estimate_gas E t d))) (\<lambda>estimated_gas.
           returnM (estimated_gas * GAS_LIMIT_BUFFER_MULTIPLIER div 100)))"

definition sign_evm :: "evm_env \<Rightarrow> evm_transaction_data \<Rightarrow> evm_transaction_data handler" where
  "sign_evm E d =
     bindM (map_errM SignerError (callM (\<lambda>t. e_sign E t d))) (\<lambda>sig_result.
     bindM (liftR (into_evm sig_result)) (\<lambda>signed.
       returnM (with_signed_transaction_data d signed)))"

section \<open>Preparing\<close>

text \<open>
  The gas limit stage of \<open>prepare_transaction\<close>: a left value is the transaction that
  was marked as failed and returned, a right value the data with a gas limit.
\<close>

definition prepare_gas_limit ::
  "evm_env \<Rightarrow> relayer_repo_model \<Rightarrow> transaction_repo_model \<Rightarrow> evm_transaction_data \<Rightarrow>
   (transaction_repo_model + evm_transaction_data) handler" where
  "prepare_gas_limit E r tx d = (case gas_limit d of
     None \<Rightarrow>
       bindM (attemptM (estimate_tx_gas_limit E d (get_evm_policy (r_policies r)))) (\<lambda>answer. returnM (Inr (case answer of
         Inr estimated_gas_limit \<Rightarrow> d\<lparr> gas_limit := Some estimated_gas_limit \<rparr>
       | Inl _ \<Rightarrow> d\<lparr> gas_limit := Some (get_evm_default_gas_limit_for_tx d) \<rparr>)))
   | Some limit \<Rightarrow>
       bindM (attemptM (callM (e_block_gas_limit E))) (\<lambda>block. case block of
         Inl _ \<Rightarrow> returnM (Inr d)
       | Inr block_gas_limit \<Rightarrow>
           (if limit > block_gas_limit
            then bindM (mark_transaction_as_failed E r tx (''Transaction gas limit ('' @ show_nat (unat limit)
                          @ '') exceeds block gas limit ('' @ show_nat (unat block_gas_limit) @ '')''))
                   (\<lambda>updated_tx. returnM (Inl updated_tx))
            else returnM (Inr d))))"

definition show_insufficient_balance :: "string \<Rightarrow> string" where
  "show_insufficient_balance m = ''Insufficient balance: '' @ m"

text \<open>The balance stage: a left value is the transaction that was marked as failed and returned.\<close>

definition prepare_balance ::
  "evm_env \<Rightarrow> relayer_repo_model \<Rightarrow> transaction_repo_model \<Rightarrow> price_params \<Rightarrow> (transaction_repo_model + unit) handler" where
  "prepare_balance E r tx p =
     bindM (attemptM (ensure_sufficient_balance E r (pp_total_cost p))) (\<lambda>checked. case checked of
       Inr _ \<Rightarrow> returnM (Inr ())
     | Inl e \<Rightarrow> (case e of
         InsufficientBalance m \<Rightarrow>
           bindM (mark_transaction_as_failed E r tx (show_insufficient_balance m)) (\<lambda>updated_tx. returnM (Inl updated_tx))
       | _ \<Rightarrow> throwM e))"

definition prepare_nonce ::
  "evm_env \<Rightarrow> relayer_repo_model \<Rightarrow> transaction_repo_model \<Rightarrow> evm_transaction_data \<Rightarrow> price_params \<Rightarrow>
   transaction_repo_model handler" where
  "prepare_nonce E r tx d p = (case nonce d of
     Some existing_nonce \<Rightarrow> returnM tx
   | None \<Rightarrow>
       bindM (map_errM (\<lambda>e. UnexpectedError (show_repository_error e))
                (counterM E (counter_get_and_increment (r_id r) (r_address r)))) (\<lambda>new_nonce.
       bindM (now_rfc3339 E) (\<lambda>now.
         partial_updateM E (tx_id tx) (default_update
           \<lparr> up_network_data := Some (Evm (with_nonce (with_price_params d p) new_nonce)),
             up_priced_at := Some now \<rparr>))))"

definition push_hash :: "string list \<Rightarrow> evm_transaction_data \<Rightarrow> string list" where
  "push_hash hs d = (case evm_hash d of Some h \<Rightarrow> hs @ [h] | None \<Rightarrow> hs)"

definition prepare_sign ::
  "evm_env \<Rightarrow> relayer_repo_model \<Rightarrow> transaction_repo_model \<Rightarrow> price_params \<Rightarrow> transaction_repo_model handler" where
  "prepare_sign E r tx_with_nonce p =
     bindM (liftR (get_evm_transaction_data (network_data tx_with_nonce))) (\<lambda>d.
     bindM (sign_evm E (with_price_params d p)) (\<lambda>signed.
     bindM (partial_updateM E (tx_id tx_with_nonce) (default_update
              \<lparr> up_status := Some Sent, up_network_data := Some (Evm signed),
                up_hashes := Some (push_hash (hashes tx_with_nonce) signed) \<rparr>)) (\<lambda>updated_tx.
     thenM (map_errM JobProducerError
              (produceM E (JSend (send_job Submit (tx_id updated_tx) (relayer_id updated_tx)) None)))
     (thenM (ignoreM (send_transaction_update_notification E r updated_tx))
       (returnM updated_tx)))))"

definition prepare_transaction ::
  "evm_env \<Rightarrow> relayer_repo_model \<Rightarrow> transaction_repo_model \<Rightarrow> transaction_repo_model handler" where
  "prepare_transaction E r tx = (case ensure_status tx Pending (Some ''prepare_transaction'') of
     Inl _ \<Rightarrow> returnM tx
   | Inr _ \<Rightarrow>
       bindM (liftR (get_evm_transaction_data (network_data tx))) (\<lambda>d.
       bindM (prepare_gas_limit E r tx d) (\<lambda>limited. case limited of
         Inl updated_tx \<Rightarrow> returnM updated_tx
       | Inr d \<Rightarrow>
           bindM (callM (\<lambda>t. get_transaction_price_params (e_gas_answers E t) r d)) (\<lambda>p.
           bindM (prepare_balance E r tx p) (\<lambda>checked. case checked of
             Inl updated_tx \<Rightarrow> returnM updated_tx
           | Inr _ \<Rightarrow>
               bindM (prepare_nonce E r tx d p) (\<lambda>tx_with_nonce.
                 prepare_sign E r tx_with_nonce p))))))"

section \<open>Submitting\<close>

definition metadata_reset :: "transaction_repo_model \<Rightarrow> transaction_metadata option" where
  "metadata_reset tx = Option.bind (metadata tx) with_nonce_retries_reset"

text \<open>
  The database update after a broadcast: an error is logged and the snapshot returned,
  since the transaction is already with the node.
\<close>

definition update_after_broadcast ::
  "evm_env \<Rightarrow> transaction_repo_model \<Rightarrow> transaction_update_request \<Rightarrow> transaction_repo_model handler" where
  "update_after_broadcast E tx update =
     bindM (attemptM (partial_updateM E (tx_id tx) update)) (\<lambda>res. returnM (case res of Inr t \<Rightarrow> t | Inl _ \<Rightarrow> tx))"

text \<open>The node's answer to a broadcast: go on, return the snapshot, or fail.\<close>

datatype broadcast_outcome = Continue | ReturnOk | Propagate provider_error

definition submit_outcome ::
  "evm_env \<Rightarrow> relayer_repo_model \<Rightarrow> transaction_repo_model \<Rightarrow> provider_error + string \<Rightarrow> broadcast_outcome handler" where
  "submit_outcome E r tx answer = (case answer of
     Inr _ \<Rightarrow> returnM Continue
   | Inl e \<Rightarrow>
       (let error_kind = classify_submission_error (show_provider_error e)
        in case error_kind of
             AlreadyKnown \<Rightarrow> returnM Continue
           | ReplacementUnderpriced \<Rightarrow> returnM Continue
           | NonceTooLow \<Rightarrow>
               thenM (ignoreM (partial_updateM E (tx_id tx) (default_update
                        \<lparr> up_status_reason := Some (''Nonce error during submission: ''
                                                  @ show_submission_error_kind error_kind) \<rparr>)))
               (thenM (ignoreM (schedule_nonce_recovery_status_check E r tx error_kind))
                 (returnM ReturnOk))
           | NonceTooHigh \<Rightarrow> thenM (handle_nonce_too_high E tx) (returnM ReturnOk)
           | OtherKind _ \<Rightarrow> returnM (Propagate e)))"

definition submit_transaction ::
  "evm_env \<Rightarrow> relayer_repo_model \<Rightarrow> transaction_repo_model \<Rightarrow> transaction_repo_model handler" where
  "submit_transaction E r tx = (case ensure_status_one_of tx [Sent, Submitted] (Some ''submit_transaction'') of
     Inl _ \<Rightarrow> returnM tx
   | Inr _ \<Rightarrow>
       bindM (liftR (get_evm_transaction_data (network_data tx))) (\<lambda>d. case evm_raw d of
         None \<Rightarrow> throwM (InvalidType ''Raw transaction data is missing'')
       | Some raw_tx \<Rightarrow>
           bindM (attemptM (send_raw_transaction E raw_tx)) (\<lambda>answer.
           bindM (submit_outcome E r tx answer) (\<lambda>outcome. case outcome of
             ReturnOk \<Rightarrow> returnM tx
           | Propagate e \<Rightarrow> throwM (UnderlyingProvider e)
           | Continue \<Rightarrow>
               bindM (now_rfc3339 E) (\<lambda>now.
               bindM (update_after_broadcast E tx (default_update
                        \<lparr> up_status := Some Submitted, up_sent_at := Some now, up_metadata := metadata_reset tx \<rparr>)) (\<lambda>updated_tx.
               thenM (ignoreM (send_transaction_update_notification E r updated_tx))
                 (returnM updated_tx)))))))"

section \<open>Resubmitting\<close>

text \<open>A left value means that the handler returns the snapshot, a right one whether the node had it already.\<close>

definition resubmit_outcome ::
  "evm_env \<Rightarrow> relayer_repo_model \<Rightarrow> transaction_repo_model \<Rightarrow> provider_error + string \<Rightarrow> (unit + bool) handler" where
  "resubmit_outcome E r tx answer = (case answer of
     Inr _ \<Rightarrow> returnM (Inr False)
   | Inl e \<Rightarrow>
       (let error_kind = classify_submission_error (show_provider_error e)
        in case error_kind of
             AlreadyKnown \<Rightarrow> returnM (Inr True)
           | ReplacementUnderpriced \<Rightarrow> returnM (Inr True)
           | NonceTooLow \<Rightarrow>
               thenM (ignoreM (schedule_nonce_recovery_status_check E r tx error_kind)) (returnM (Inr True))
           | NonceTooHigh \<Rightarrow> thenM (handle_nonce_too_high E tx) (returnM (Inl ()))
           | OtherKind _ \<Rightarrow> throwM (UnderlyingProvider e)))"

definition resubmit_update ::
  "evm_env \<Rightarrow> transaction_repo_model \<Rightarrow> evm_transaction_data \<Rightarrow> bool \<Rightarrow> transaction_update_request handler" where
  "resubmit_update E tx final_evm_data was_already_submitted =
     (if was_already_submitted
      then returnM (default_update \<lparr> up_status := Some Submitted, up_metadata := metadata_reset tx \<rparr>)
      else bindM (now_rfc3339 E) (\<lambda>priced. bindM (now_rfc3339 E) (\<lambda>sent. returnM (default_update
             \<lparr> up_network_data := Some (Evm final_evm_data),
               up_hashes := Some (push_hash (hashes tx) final_evm_data),
               up_status := Some Submitted, up_priced_at := Some priced, up_sent_at := Some sent,
               up_metadata := metadata_reset tx \<rparr>))))"

definition resubmit_transaction ::
  "evm_env \<Rightarrow> relayer_repo_model \<Rightarrow> transaction_repo_model \<Rightarrow> transaction_repo_model handler" where
  "resubmit_transaction E r tx = (case ensure_status_one_of tx [Sent, Submitted] (Some ''resubmit_transaction'') of
     Inl _ \<Rightarrow> returnM tx
   | Inr _ \<Rightarrow>
       bindM (liftR (get_evm_transaction_data (network_data tx))) (\<lambda>d.
       bindM (callM (\<lambda>t. calculate_bumped_gas_price (e_gas_answers E t) r (is_noop d) d)) (\<lambda>p.
         if pp_is_min_bumped p \<noteq> Some True then returnM tx
         else
           thenM (ensure_sufficient_balance E r (pp_total_cost p))
           (bindM (sign_evm E (with_price_params d p)) (\<lambda>final_evm_data. case evm_raw final_evm_data of
              None \<Rightarrow> throwM (InvalidType ''Raw transaction data is missing'')
            | Some raw_tx \<Rightarrow>
                bindM (attemptM (send_raw_transaction E raw_tx)) (\<lambda>answer.
                bindM (resubmit_outcome E r tx answer) (\<lambda>outcome. case outcome of
                  Inl _ \<Rightarrow> returnM tx
                | Inr was_already_submitted \<Rightarrow>
                    bindM (resubmit_update E tx final_evm_data was_already_submitted) (\<lambda>update.
                      update_after_broadcast E tx update))))))))"

section \<open>Cancelling and replacing\<close>

definition network_by_chain_id :: "evm_env \<Rightarrow> u64 \<Rightarrow> evm_network handler" where
  "network_by_chain_id E cid =
     bindM (map_errM tx_error_of_repository_error (callM (\<lambda>t. e_network_by_chain_id E t cid))) (\<lambda>model. case model of
       None \<Rightarrow> throwM (UnexpectedError (''Network with chain id '' @ show_nat (unat cid) @ '' not found''))
     | Some (Inl e) \<Rightarrow> throwM (UnexpectedError (''Error converting network model to EvmNetwork: '' @ e))
     | Some (Inr network) \<Rightarrow> returnM network)"

definition prepare_noop_update_request ::
  "evm_env \<Rightarrow> transaction_repo_model \<Rightarrow> bool \<Rightarrow> string option \<Rightarrow> transaction_update_request handler" where
  "prepare_noop_update_request E tx is_cancellation reason =
     bindM (liftR (get_evm_transaction_data (network_data tx))) (\<lambda>d.
     bindM (network_by_chain_id E (chain_id d)) (\<lambda>network.
     bindM (make_noop E network True d) (\<lambda>d.
       returnM (default_update
         \<lparr> up_network_data := Some (Evm d),
           up_noop_count := Some ((case noop_count tx of Some n \<Rightarrow> n | None \<Rightarrow> 0) + 1),
           up_status_reason := reason,
           up_is_canceled := (if is_cancellation then Some True else is_canceled tx) \<rparr>))))"

definition cancel_transaction ::
  "evm_env \<Rightarrow> relayer_repo_model \<Rightarrow> transaction_repo_model \<Rightarrow> transaction_repo_model handler" where
  "cancel_transaction E r tx =
     thenM (liftR (ensure_status_one_of tx [Pending, Sent, Submitted] (Some ''cancel_transaction'')))
     (if status tx = Pending
      then update_transaction_status E r tx Canceled (Some ''Transaction canceled by user'')
      else
        bindM (prepare_noop_update_request E tx True
                 (Some ''Transaction canceled by user, replacing with NOOP'')) (\<lambda>update.
        bindM (partial_updateM E (tx_id tx) update) (\<lambda>updated_tx.
        thenM (send_transaction_resubmit_job E updated_tx)
        (thenM (ignoreM (send_transaction_update_notification E r updated_tx))
          (returnM updated_tx)))))"

datatype network_transaction_request =
    RequestEvm evm_transaction_request | RequestSolana | RequestStellar

definition replacement_network :: "evm_env \<Rightarrow> u64 \<Rightarrow> evm_network handler" where
  "replacement_network E cid =
     bindM (map_errM (\<lambda>e. NetworkConfiguration (''Failed to get network by chain_id '' @ show_nat (unat cid)
                            @ '': '' @ show_repository_error e))
              (callM (\<lambda>t. e_network_by_chain_id E t cid))) (\<lambda>model. case model of
       None \<Rightarrow> throwM (NetworkConfiguration (''Network with chain_id '' @ show_nat (unat cid) @ '' not found''))
     | Some (Inl e) \<Rightarrow> throwM (NetworkConfiguration (''Failed to convert network model: '' @ e))
     | Some (Inr network) \<Rightarrow> returnM network)"

definition replace_transaction ::
  "evm_env \<Rightarrow> relayer_repo_model \<Rightarrow> transaction_repo_model \<Rightarrow> network_transaction_request \<Rightarrow>
   transaction_repo_model handler" where
  "replace_transaction E r old_tx new_tx_request =
     thenM (liftR (ensure_status_one_of old_tx [Pending, Sent, Submitted] (Some ''replace_transaction'')))
     (bindM (liftR (get_evm_transaction_data (network_data old_tx))) (\<lambda>old_data. case new_tx_request of
        RequestEvm request \<Rightarrow>
          bindM (replacement_network E (chain_id old_data)) (\<lambda>network.
            let updated_data = for_replacement old_data request
            in bindM (callM (\<lambda>t. determine_replacement_pricing (e_gas_answers E t) r (lacks_mempool network)
                                   old_data updated_data)) (\<lambda>p.
               thenM (ensure_sufficient_balance E r (pp_total_cost p))
               (bindM (sign_evm E (with_price_params updated_data p)) (\<lambda>final_data.
                bindM (map_errM tx_error_of_repository_error
                         (repoM E (update_network_data (tx_id old_tx) (Evm final_data)))) (\<lambda>updated_tx.
                thenM (send_transaction_resubmit_job E updated_tx)
                (thenM (ignoreM (send_transaction_update_notification E r updated_tx))
                  (returnM updated_tx)))))))
      | _ \<Rightarrow> throwM (InvalidType ''New transaction request must be EVM type'')))"

text \<open>\<open>sign_transaction\<close> and \<open>validate_transaction\<close> of the trait do nothing for EVM.\<close>

definition sign_transaction :: "transaction_repo_model \<Rightarrow> transaction_repo_model handler" where
  "sign_transaction tx = returnM tx"

definition validate_transaction :: "transaction_repo_model \<Rightarrow> bool handler" where
  "validate_transaction tx = returnM True"

section \<open>How a handler may change a transaction\<close>

text \<open>
  The statuses a transaction of a given status may have after one handler: \<open>status_next\<close>
  is the state machine the handlers implement together.
\<close>

definition status_next :: "transaction_status \<Rightarrow> transaction_status list" where
  "status_next s = (case s of
     Pending \<Rightarrow> [Pending, Sent, Mined, Failed, Canceled]
   | Sent \<Rightarrow> [Sent, Submitted, Mined, Failed]
   | Submitted \<Rightarrow> [Submitted, Mined, Confirmed, Failed, Canceled]
   | Mined \<Rightarrow> [Mined, Submitted, Confirmed, Failed, Canceled]
   | _ \<Rightarrow> [s])"

definition evolves :: "transaction_repo_model \<Rightarrow> transaction_repo_model \<Rightarrow> bool" where
  "evolves t t' \<longleftrightarrow>
     tx_id t' = tx_id t \<and> relayer_id t' = relayer_id t \<and> created_at t' = created_at t
     \<and> (is_final_state (status t) \<longrightarrow> t' = t)
     \<and> (\<forall>n. tx_nonce t = Some n \<longrightarrow> tx_nonce t' = Some n)
     \<and> prefix (hashes t) (hashes t')"

definition moves :: "transaction_repo_model \<Rightarrow> transaction_repo_model \<Rightarrow> bool" where
  "moves t t' \<longleftrightarrow> evolves t t' \<and> status t' \<in> set (status_next (status t))"

text \<open>
  What a handler that allocates no nonce does to the state: the counters stay, every
  other transaction stays, and the transaction it runs for moves and keeps its nonce.
\<close>

definition touched :: "world \<Rightarrow> transaction_repo_model \<Rightarrow> world \<Rightarrow> bool" where
  "touched w0 tx w \<longleftrightarrow>
     w_counter w = w_counter w0
     \<and> (\<forall>i. i \<noteq> tx_id tx \<longrightarrow> tx_lookup (w_repo w) i = tx_lookup (w_repo w0) i)
     \<and> (\<exists>t. tx_lookup (w_repo w) (tx_id tx) = Some t \<and> moves tx t \<and> tx_nonce t = tx_nonce tx)"

definition update_ok :: "transaction_repo_model \<Rightarrow> transaction_update_request \<Rightarrow> bool" where
  "update_ok tx u \<longleftrightarrow>
     \<not> is_final_state (status tx)
     \<and> (\<forall>s. up_status u = Some s \<longrightarrow> s \<in> set (status_next (status tx)))
     \<and> (\<forall>nd. up_network_data u = Some nd \<longrightarrow> (\<exists>d. nd = Evm d \<and> nonce d = tx_nonce tx))
     \<and> (\<forall>hs. up_hashes u = Some hs \<longrightarrow> prefix (hashes tx) hs)"

lemma evolves_refl [simp]: "evolves t t"
  by (simp add: evolves_def)

lemma evolves_trans: "evolves t t' \<Longrightarrow> evolves t' t'' \<Longrightarrow> evolves t t''"
  by (fastforce simp: evolves_def elim: prefix_order.trans)

lemma status_next_refl [simp]: "s \<in> set (status_next s)"
  by (cases s) (auto simp: status_next_def)

lemma status_next_final: "is_final_state s \<Longrightarrow> set (status_next s) = {s}"
  by (auto simp: status_next_def is_final_state_iff)

lemma moves_refl [simp]: "moves t t"
  by (simp add: moves_def)

lemma moves_id: "moves t t' \<Longrightarrow> tx_id t' = tx_id t" "moves t t' \<Longrightarrow> relayer_id t' = relayer_id t"
  by (simp_all add: moves_def evolves_def)

lemma touched_start: "tx_lookup (w_repo w) (tx_id tx) = Some tx \<Longrightarrow> touched w tx w"
  by (simp add: touched_def)

lemma moves_update:
  assumes "update_ok tx u" "moves tx t" "tx_nonce t = tx_nonce tx"
  shows "moves tx (apply_partial_update C now u t)"
    and "tx_nonce (apply_partial_update C now u t) = tx_nonce tx"
proof -
  show n: "tx_nonce (apply_partial_update C now u t) = tx_nonce tx"
    using assms by (auto simp: tx_nonce_def update_ok_def split: option.splits network_transaction_data.splits)
  show "moves tx (apply_partial_update C now u t)"
    using assms n by (auto simp: moves_def evolves_def update_ok_def split: option.splits)
qed

definition updated_by :: "transaction_repo_model \<Rightarrow> transaction_update_request \<Rightarrow> transaction_repo_model \<Rightarrow> bool" where
  "updated_by tx u t \<longleftrightarrow> moves tx t \<and> tx_nonce t = tx_nonce tx
     \<and> (\<forall>s. up_status u = Some s \<longrightarrow> status t = s) \<and> (\<forall>d. up_network_data u = Some d \<longrightarrow> network_data t = d)"

lemma touched_update:
  assumes "touched w0 tx w" "update_ok tx u" "partial_update C now (tx_id tx) u (w_repo w) = (res, R)"
  shows "touched w0 tx (w\<lparr> w_repo := R, w_tick := k \<rparr>) \<and> (\<forall>t. res = Inr t \<longrightarrow> updated_by tx u t)"
  using assms moves_update [OF assms(2)]
  by (auto simp: touched_def updated_by_def partial_update_def Let_def map_of_alist_update split: option.splits)

interpretation touched_inv: world_inv "touched w0 tx" for w0 tx
  by unfold_locales (auto simp: touched_def)

lemma pres_partial_update:
  assumes "update_ok tx u" "i = tx_id tx"
  shows "preserves (touched w0 tx) (partial_updateM E i u) (updated_by tx u)"
  unfolding partial_updateM_def assms(2)
proof (rule pres_bind [OF touched_inv.pres_ask], rule pres_map_err)
  fix now
  show "preserves (touched w0 tx) (repoM E (partial_update E now (tx_id tx) u)) (updated_by tx u)"
    by (auto simp: preserves_def valid_def repoM_def touched_inv.tick_stable
        split: option.splits prod.splits sum.splits dest: touched_update [OF _ assms(1)])
qed

lemma pres_send_raw: "preserves (touched w0 tx) (send_raw_transaction E raw) (\<lambda>_. True)"
  by (auto simp: preserves_def valid_def send_raw_transaction_def touched_def split: sum.splits)

section \<open>The handlers keep to it\<close>

named_theorems handler_pres \<open>what the parts of a handler keep of \<open>touched\<close>\<close>

declare pres_send_raw [handler_pres]

lemma pres_notify [handler_pres]:
  "preserves (touched w0 tx) (send_transaction_update_notification E r t) (\<lambda>_. True)"
  unfolding send_transaction_update_notification_def by (rule pres touched_inv.pres_env TrueI)+

lemma pres_confirmed_at_of [handler_pres]: "preserves (touched w0 tx) (confirmed_at_of E s) (\<lambda>_. True)"
  unfolding confirmed_at_of_def by (rule pres touched_inv.pres_env TrueI)+

lemma pres_schedule_status_check [handler_pres]:
  "preserves (touched w0 tx) (scheduled_on E delay) (\<lambda>_. True)"
  "preserves (touched w0 tx) (status_check_retry_delay_seconds E r) (\<lambda>_. True)"
  unfolding scheduled_on_def status_check_retry_delay_seconds_def by (rule pres touched_inv.pres_env TrueI)+

lemma pres_jobs [handler_pres]:
  "preserves (touched w0 tx) (schedule_nonce_recovery_status_check E r t k) (\<lambda>_. True)"
  "preserves (touched w0 tx) (schedule_relayer_nonce_health_job E t) (\<lambda>_. True)"
  "preserves (touched w0 tx) (send_transaction_submit_job E t) (\<lambda>_. True)"
  "preserves (touched w0 tx) (send_transaction_resubmit_job E t) (\<lambda>_. True)"
  "preserves (touched w0 tx) (send_transaction_request_job E t) (\<lambda>_. True)"
  unfolding schedule_nonce_recovery_status_check_def schedule_status_check_def schedule_relayer_nonce_health_job_def
    send_transaction_submit_job_def send_transaction_resubmit_job_def send_transaction_request_job_def
    send_transaction_job_def Let_def
  by (rule pres touched_inv.pres_env handler_pres)+

lemma pres_balance [handler_pres]: "preserves (touched w0 tx) (ensure_sufficient_balance E r c) (\<lambda>_. True)"
  unfolding ensure_sufficient_balance_def
  by (rule pres_conseq [OF pres_map_err [OF touched_inv.pres_call]]) simp

lemma pres_estimate [handler_pres]: "preserves (touched w0 tx) (estimate_tx_gas_limit E d p) (\<lambda>_. True)"
  unfolding estimate_tx_gas_limit_def by (rule pres touched_inv.pres_env TrueI)+

text \<open>Signing fills in the signature, the hash and the raw bytes and keeps everything else.\<close>

definition signed_of :: "evm_transaction_data \<Rightarrow> evm_transaction_data \<Rightarrow> bool" where
  "signed_of d d' \<longleftrightarrow> (\<exists>s. d' = with_signed_transaction_data d s)"

lemma signed_of_fields:
  assumes "signed_of d d'"
  shows "nonce d' = nonce d" "evm_raw d' \<noteq> None" "evm_hash d' \<noteq> None"
  using assms by (auto simp: signed_of_def with_signed_transaction_data_def)

lemma pres_sign [handler_pres]: "preserves (touched w0 tx) (sign_evm E d) (signed_of d)"
  unfolding sign_evm_def by (rule pres touched_inv.pres_env | force simp: signed_of_def)+

lemma pres_network [handler_pres]: "preserves (touched w0 tx) (network_by_chain_id E c) (\<lambda>_. True)"
  "preserves (touched w0 tx) (replacement_network E c) (\<lambda>_. True)"
  unfolding network_by_chain_id_def replacement_network_def by (rule pres touched_inv.pres_env TrueI)+

lemma pres_update_transaction_status [handler_pres]:
  assumes "\<not> is_final_state (status tx)" "s \<in> set (status_next (status tx))" "tx_id t = tx_id tx"
  shows "preserves (touched w0 tx) (update_transaction_status E r t s reason)
           (\<lambda>t. moves tx t \<and> tx_nonce t = tx_nonce tx \<and> status t = s)"
  unfolding update_transaction_status_def
  by (rule pres handler_pres pres_partial_update | use assms in \<open>force simp: update_ok_def updated_by_def\<close>)+

lemma failed_next: "\<not> is_final_state s \<Longrightarrow> Failed \<in> set (status_next s)"
  by (cases s) (auto simp: status_next_def)

lemma pres_mark_failed [handler_pres]:
  assumes "\<not> is_final_state (status tx)" "tx_id t = tx_id tx"
  shows "preserves (touched w0 tx) (mark_transaction_as_failed E r t reason)
           (\<lambda>t. moves tx t \<and> tx_nonce t = tx_nonce tx \<and> status t = Failed)"
  unfolding mark_transaction_as_failed_def
  by (rule pres handler_pres pres_partial_update |
      use assms in \<open>force simp: update_ok_def updated_by_def failed_next\<close>)+

lemma pres_nonce_too_high [handler_pres]:
  assumes "\<not> is_final_state (status tx)"
  shows "preserves (touched w0 tx) (handle_nonce_too_high E tx) (\<lambda>_. True)"
  unfolding handle_nonce_too_high_def Let_def
  by (rule pres handler_pres pres_partial_update | use assms in \<open>force simp: update_ok_def\<close>)+

lemma evm_data_nonce: "get_evm_transaction_data (network_data tx) = Inr d \<Longrightarrow> tx_nonce tx = nonce d"
  by (auto simp: get_evm_transaction_data_def tx_nonce_def split: network_transaction_data.splits)

lemma prefix_push_hash: "prefix hs (push_hash hs d)"
  by (auto simp: push_hash_def split: option.splits)

lemma with_price_params_nonce [simp]: "nonce (with_price_params d p) = nonce d"
  by (simp add: with_price_params_def)

lemma pres_after_broadcast:
  assumes "update_ok tx u"
  shows "preserves (touched w0 tx) (update_after_broadcast E tx u) (moves tx)"
  unfolding update_after_broadcast_def
  by (rule pres handler_pres pres_partial_update |
      use assms in \<open>force simp: updated_by_def split: sum.splits\<close>)+

lemma pres_submit_outcome [handler_pres]:
  assumes "\<not> is_final_state (status tx)"
  shows "preserves (touched w0 tx) (submit_outcome E r tx answer) (\<lambda>_. True)"
  unfolding submit_outcome_def Let_def
  by (rule pres handler_pres pres_partial_update TrueI |
      (use assms in \<open>force simp: update_ok_def\<close>) | split submission_error_kind.split, intro conjI allI impI)+

lemma pres_submit: "preserves (touched w0 tx) (submit_transaction E r tx) (moves tx)"
proof (cases "status tx \<in> {Sent, Submitted}")
  case True
  then have nf: "\<not> is_final_state (status tx)" "Submitted \<in> set (status_next (status tx))"
    by (auto simp: is_final_state_iff status_next_def)
  show ?thesis
    unfolding submit_transaction_def
    by (rule pres handler_pres pres_after_broadcast touched_inv.pres_env moves_refl |
        (use nf in \<open>force simp: update_ok_def\<close>) | split broadcast_outcome.split, intro conjI allI impI)+
next
  case False
  then show ?thesis
    by (auto simp: submit_transaction_def ensure_status_one_of_def Let_def intro: pres_return)
qed

lemma pres_resubmit_outcome [handler_pres]:
  assumes "\<not> is_final_state (status tx)"
  shows "preserves (touched w0 tx) (resubmit_outcome E r tx answer) (\<lambda>_. True)"
  unfolding resubmit_outcome_def Let_def
  by (rule pres handler_pres TrueI |
      (use assms in \<open>force simp: update_ok_def\<close>) | split submission_error_kind.split, intro conjI allI impI)+

lemma pres_resubmit_update [handler_pres]:
  assumes "status tx \<in> {Sent, Submitted}" "nonce d = tx_nonce tx"
  shows "preserves (touched w0 tx) (resubmit_update E tx d b) (update_ok tx)"
proof -
  have "\<not> is_final_state (status tx)" "Submitted \<in> set (status_next (status tx))"
    using assms by (auto simp: is_final_state_iff status_next_def)
  then show ?thesis
    unfolding resubmit_update_def
    by - (rule pres touched_inv.pres_env | use assms in \<open>force simp: update_ok_def prefix_push_hash\<close>)+
qed

lemma pres_resubmit: "preserves (touched w0 tx) (resubmit_transaction E r tx) (moves tx)"
proof (cases "status tx \<in> {Sent, Submitted}")
  case True
  then have nf: "\<not> is_final_state (status tx)"
    by (auto simp: is_final_state_iff)
  show ?thesis
    unfolding resubmit_transaction_def
    by (rule pres handler_pres pres_after_broadcast touched_inv.pres_env moves_refl |
        (use True nf in \<open>force simp: evm_data_nonce dest: signed_of_fields\<close>))+
next
  case False
  then show ?thesis
    by (auto simp: resubmit_transaction_def ensure_status_one_of_def Let_def intro: pres_return)
qed

lemma pres_noop_request [handler_pres]:
  assumes "\<not> is_final_state (status tx)" "tx_nonce t = tx_nonce tx"
  shows "preserves (touched w0 tx) (prepare_noop_update_request E t c reason)
           (\<lambda>u. update_ok tx u \<and> up_status u = None \<and> (\<exists>d. up_network_data u = Some (Evm d) \<and> is_noop d))"
  unfolding prepare_noop_update_request_def
  by (rule pres handler_pres touched_inv.pres_make_noop |
      use assms in \<open>force simp: update_ok_def noop_of_def evm_data_nonce\<close>)+

lemma pres_cancel: "preserves (touched w0 tx) (cancel_transaction E r tx) (moves tx)"
proof (cases "status tx \<in> {Pending, Sent, Submitted}")
  case True
  then have nf: "\<not> is_final_state (status tx)"
    by (auto simp: is_final_state_iff)
  have "status tx = Pending \<Longrightarrow> preserves (touched w0 tx) (update_transaction_status E r tx Canceled reason) (moves tx)"
    for reason
    by (rule pres_conseq, rule pres_update_transaction_status) (auto simp: status_next_def)
  then show ?thesis
    unfolding cancel_transaction_def
    by - (rule pres handler_pres pres_partial_update moves_refl |
        (use nf in \<open>force simp: updated_by_def\<close>))+
next
  case False
  then show ?thesis
    by (auto simp: cancel_transaction_def ensure_status_one_of_def Let_def thenM_def liftR_def
        bindM_def preserves_def valid_def)
qed

lemma update_network_data_eval:
  "update_network_data i d R = (case tx_lookup R i of
     None \<Rightarrow> (Inl (tx_not_found i), R)
   | Some t \<Rightarrow> (let t' = t\<lparr> network_data := d, tx_id := i \<rparr>
               in (Inr t', R\<lparr> store := AList.update i t' (store R) \<rparr>)))"
  by (simp add: update_network_data_def get_by_id_def update_entity_def bindM_def split: option.splits)

lemma pres_update_network_data:
  assumes "\<not> is_final_state (status tx)" "nonce d = tx_nonce tx"
  shows "preserves (touched w0 tx) (repoM E (update_network_data (tx_id tx) (Evm d))) (moves tx)"
  using assms
  by (auto simp: preserves_def valid_def repoM_def touched_def update_network_data_eval Let_def
      moves_def evolves_def tx_nonce_def map_of_alist_update
      split: option.splits network_transaction_data.splits)

lemma pres_replace: "preserves (touched w0 tx) (replace_transaction E r tx req) (moves tx)"
proof (cases "status tx \<in> {Pending, Sent, Submitted}")
  case True
  then have nf: "\<not> is_final_state (status tx)"
    by (auto simp: is_final_state_iff)
  show ?thesis
    unfolding replace_transaction_def Let_def
    by (rule pres handler_pres pres_update_network_data touched_inv.pres_env nf |
        (force simp: evm_data_nonce for_replacement_def dest: signed_of_fields) |
        split network_transaction_request.split, intro conjI allI impI)+
next
  case False
  then show ?thesis
    by (auto simp: replace_transaction_def ensure_status_one_of_def Let_def thenM_def liftR_def
        bindM_def preserves_def valid_def)
qed

subsection \<open>Preparing allocates at most one nonce\<close>

definition next_counter :: "relayer_repo_model \<Rightarrow> world \<Rightarrow> u64" where
  "next_counter r w = (case w_counter w (r_id r, r_address r) of Some c \<Rightarrow> c | None \<Rightarrow> 0)"

text \<open>
  After \<open>prepare_transaction\<close> the state is as for the other handlers, or the counter of
  the relayer went up by one and the transaction, which had no nonce, has the old counter
  value or, if storing it failed, still none.
\<close>

definition allocated_one :: "relayer_repo_model \<Rightarrow> world \<Rightarrow> transaction_repo_model \<Rightarrow> world \<Rightarrow> bool" where
  "allocated_one r w0 tx w \<longleftrightarrow>
     tx_nonce tx = None
     \<and> w_counter w = (w_counter w0)((r_id r, r_address r) \<mapsto> next_counter r w0 + 1)
     \<and> (\<forall>i. i \<noteq> tx_id tx \<longrightarrow> tx_lookup (w_repo w) i = tx_lookup (w_repo w0) i)
     \<and> (\<exists>t. tx_lookup (w_repo w) (tx_id tx) = Some t \<and> moves tx t
            \<and> (tx_nonce t = None \<or> tx_nonce t = Some (next_counter r w0)))"

definition prepared :: "relayer_repo_model \<Rightarrow> world \<Rightarrow> transaction_repo_model \<Rightarrow> world \<Rightarrow> bool" where
  "prepared r w0 tx w \<longleftrightarrow> touched w0 tx w \<or> allocated_one r w0 tx w"

text \<open>The states between the allocation and the signature: the transaction is stored with the nonce.\<close>

definition assigned :: "relayer_repo_model \<Rightarrow> world \<Rightarrow> transaction_repo_model \<Rightarrow> transaction_repo_model \<Rightarrow> world \<Rightarrow> bool" where
  "assigned r w0 tx t w \<longleftrightarrow>
     moves tx t \<and> status t = Pending \<and> status tx = Pending
     \<and> ((t = tx \<and> touched w0 tx w)
        \<or> (tx_nonce tx = None \<and> tx_nonce t = Some (next_counter r w0)
           \<and> w_counter w = (w_counter w0)((r_id r, r_address r) \<mapsto> next_counter r w0 + 1)
           \<and> (\<forall>i. i \<noteq> tx_id tx \<longrightarrow> tx_lookup (w_repo w) i = tx_lookup (w_repo w0) i)
           \<and> tx_lookup (w_repo w) (tx_id tx) = Some t))"

lemma moves_pending_trans:
  "moves tx t \<Longrightarrow> status t = Pending \<Longrightarrow> status tx = Pending \<Longrightarrow> moves t t' \<Longrightarrow> moves tx t'"
  by (auto simp: moves_def intro: evolves_trans)

lemma assigned_prepared: "assigned r w0 tx t w \<Longrightarrow> prepared r w0 tx w"
  by (auto simp: assigned_def prepared_def allocated_one_def)

lemma touched_from_assigned:
  assumes "assigned r w0 tx t w" "touched w t w'"
  shows "prepared r w0 tx w'"
proof (cases "t = tx \<and> touched w0 tx w")
  case True
  then show ?thesis
    using assms by (auto simp: touched_def prepared_def)
next
  case False
  then have *: "moves tx t" "status t = Pending" "status tx = Pending" "tx_nonce tx = None"
    "tx_nonce t = Some (next_counter r w0)" "tx_id t = tx_id tx"
    "w_counter w = (w_counter w0)((r_id r, r_address r) \<mapsto> next_counter r w0 + 1)"
    "\<forall>i. i \<noteq> tx_id tx \<longrightarrow> tx_lookup (w_repo w) i = tx_lookup (w_repo w0) i"
    using assms(1) by (auto simp: assigned_def moves_id)
  obtain t' where "tx_lookup (w_repo w') (tx_id tx) = Some t'" "moves t t'" "tx_nonce t' = tx_nonce t"
    using assms(2) * by (auto simp: touched_def)
  then have "allocated_one r w0 tx w'"
    using assms(2) * moves_pending_trans [of tx t t'] by (simp add: allocated_one_def touched_def)
  then show ?thesis by (simp add: prepared_def)
qed

lemma valid_touched_start:
  assumes "preserves (touched w t) m V" "tx_lookup (w_repo w) (tx_id t) = Some t"
  shows "touched w t (snd (m w))"
  using pres_snd [OF assms(1) touched_start [OF assms(2)]] .

lemma prepare_nonce_assigned:
  assumes "touched w0 tx w" "tx_lookup (w_repo w) (tx_id tx) = Some tx" "status tx = Pending"
    and "nonce d = tx_nonce tx"
  shows "case prepare_nonce E r tx d p w of
           (Inr t, w') \<Rightarrow> assigned r w0 tx t w' \<and> tx_lookup (w_repo w') (tx_id t) = Some t
         | (Inl e, w') \<Rightarrow> prepared r w0 tx w'"
proof (cases "nonce d")
  case None
  have "next_counter r w = next_counter r w0"
    using assms(1) by (simp add: touched_def next_counter_def)
  then show ?thesis
    using assms None
    by (auto simp: prepare_nonce_def eff_defs counterM_def counter_get_and_increment_def now_rfc3339_def
        askM_def partial_updateM_def repoM_def partial_update_def Let_def map_of_alist_update
        assigned_def prepared_def allocated_one_def touched_def next_counter_def moves_def evolves_def
        with_nonce_def tx_nonce_def
        split: option.splits prod.splits sum.splits network_transaction_data.splits)
next
  case (Some n)
  then show ?thesis
    using assms by (simp add: prepare_nonce_def eff_defs assigned_def touched_inv.tick_stable)
qed

lemma prepare_sign_touched:
  assumes "status t = Pending"
  shows "preserves (touched w t) (prepare_sign E r t p) (\<lambda>t'. moves t t' \<and> status t' = Sent)"
  unfolding prepare_sign_def
  by (rule pres handler_pres pres_partial_update touched_inv.pres_env |
      use assms in \<open>force simp: update_ok_def updated_by_def status_next_def evm_data_nonce prefix_push_hash
        dest: signed_of_fields\<close>)+

text \<open>The stages before the nonce either end the preparation or leave the repository alone.\<close>

lemma prepare_gas_limit_stage:
  assumes "touched w0 tx w" "status tx = Pending"
  shows "case prepare_gas_limit E r tx d w of
           (Inr (Inr d'), w') \<Rightarrow> nonce d' = nonce d \<and> w_repo w' = w_repo w \<and> w_counter w' = w_counter w
         | (Inr (Inl t), w') \<Rightarrow> touched w0 tx w' \<and> moves tx t \<and> status t = Failed
         | (Inl e, w') \<Rightarrow> touched w0 tx w'"
proof -
  have m: "touched w0 tx (snd (mark_transaction_as_failed E r tx reason v))"
    "mark_transaction_as_failed E r tx reason v = (Inr t, v') \<Longrightarrow> moves tx t \<and> status t = Failed"
    if "touched w0 tx v" for v reason t v'
    using pres_mark_failed [of tx tx w0 E r reason] assms that by (auto dest: pres_Inr intro: pres_snd)
  show ?thesis
    using m [OF touched_inv.tick_stable [OF assms(1)]]
    by (auto simp: prepare_gas_limit_def eff_defs callM_def estimate_tx_gas_limit_def
        split: option.splits prod.splits sum.splits) (metis snd_conv)+
qed

lemma prepare_balance_stage:
  assumes "touched w0 tx w" "status tx = Pending"
  shows "case prepare_balance E r tx p w of
           (Inr (Inr u), w') \<Rightarrow> w_repo w' = w_repo w \<and> w_counter w' = w_counter w
         | (Inr (Inl t), w') \<Rightarrow> touched w0 tx w' \<and> moves tx t \<and> status t = Failed
         | (Inl e, w') \<Rightarrow> touched w0 tx w'"
proof -
  have m: "touched w0 tx (snd (mark_transaction_as_failed E r tx reason v))"
    "mark_transaction_as_failed E r tx reason v = (Inr t, v') \<Longrightarrow> moves tx t \<and> status t = Failed"
    if "touched w0 tx v" for v reason t v'
    using pres_mark_failed [of tx tx w0 E r reason] assms that by (auto dest: pres_Inr intro: pres_snd)
  show ?thesis
    using m [OF touched_inv.tick_stable [OF assms(1)]] touched_inv.tick_stable [OF assms(1)]
    by (auto simp: prepare_balance_def eff_defs callM_def ensure_sufficient_balance_def
        split: option.splits prod.splits sum.splits transaction_error.splits) (metis snd_conv)+
qed

definition same_store :: "world \<Rightarrow> world \<Rightarrow> bool" where
  "same_store w0 w \<longleftrightarrow> w_repo w = w_repo w0 \<and> w_counter w = w_counter w0"

text \<open>The outcome of a preparation: ended before the nonce, or stored as sent.\<close>

definition prepare_result :: "relayer_repo_model \<Rightarrow> world \<Rightarrow> transaction_repo_model \<Rightarrow> transaction_repo_model \<Rightarrow> world \<Rightarrow> bool" where
  "prepare_result r w0 tx t w \<longleftrightarrow>
     (status t = Failed \<and> touched w0 tx w) \<or> (status t = Sent \<and> prepared r w0 tx w)"

lemma same_store_touched:
  "tx_lookup (w_repo w0) (tx_id tx) = Some tx \<Longrightarrow> same_store w0 w \<Longrightarrow>
   touched w0 tx w \<and> tx_lookup (w_repo w) (tx_id tx) = Some tx"
  by (simp add: same_store_def touched_def)

lemma valid_prepare_stages:
  assumes "tx_lookup (w_repo w0) (tx_id tx) = Some tx" "status tx = Pending"
  shows "valid (same_store w0) (prepare_gas_limit E r tx d)
           (\<lambda>x w. case x of Inr d' \<Rightarrow> nonce d' = nonce d \<and> same_store w0 w | Inl t \<Rightarrow> prepare_result r w0 tx t w)
           (\<lambda>_. prepared r w0 tx)"
    and "valid (same_store w0) (prepare_balance E r tx p)
           (\<lambda>x w. case x of Inr _ \<Rightarrow> same_store w0 w | Inl t \<Rightarrow> prepare_result r w0 tx t w)
           (\<lambda>_. prepared r w0 tx)"
    and "nonce d = tx_nonce tx \<Longrightarrow> valid (same_store w0) (prepare_nonce E r tx d p)
           (\<lambda>t w. assigned r w0 tx t w \<and> tx_lookup (w_repo w) (tx_id t) = Some t) (\<lambda>_. prepared r w0 tx)"
    and "valid (same_store w0) (callM f) (\<lambda>_. same_store w0) (\<lambda>_. prepared r w0 tx)"
proof -
  note st = same_store_touched [OF assms(1)]
  show "valid (same_store w0) (prepare_gas_limit E r tx d)
      (\<lambda>x w. case x of Inr d' \<Rightarrow> nonce d' = nonce d \<and> same_store w0 w | Inl t \<Rightarrow> prepare_result r w0 tx t w)
      (\<lambda>_. prepared r w0 tx)"
    unfolding valid_def
  proof (intro allI impI)
    fix w assume "same_store w0 w"
    then show "case prepare_gas_limit E r tx d w of
        (Inr x, w) \<Rightarrow> (case x of Inr d' \<Rightarrow> nonce d' = nonce d \<and> same_store w0 w | Inl t \<Rightarrow> prepare_result r w0 tx t w)
      | (Inl e, w) \<Rightarrow> prepared r w0 tx w"
      using prepare_gas_limit_stage [OF conjunct1 [OF st] assms(2), where w = w and E = E and r = r and d = d]
      by (auto simp: same_store_def prepare_result_def prepared_def split: prod.splits sum.splits)
  qed
  show "valid (same_store w0) (prepare_balance E r tx p)
      (\<lambda>x w. case x of Inr _ \<Rightarrow> same_store w0 w | Inl t \<Rightarrow> prepare_result r w0 tx t w) (\<lambda>_. prepared r w0 tx)"
    unfolding valid_def
  proof (intro allI impI)
    fix w assume "same_store w0 w"
    then show "case prepare_balance E r tx p w of
        (Inr x, w) \<Rightarrow> (case x of Inr _ \<Rightarrow> same_store w0 w | Inl t \<Rightarrow> prepare_result r w0 tx t w)
      | (Inl e, w) \<Rightarrow> prepared r w0 tx w"
      using prepare_balance_stage [OF conjunct1 [OF st] assms(2), where w = w and E = E and r = r and p = p]
      by (auto simp: same_store_def prepare_result_def prepared_def split: prod.splits sum.splits)
  qed
  show "valid (same_store w0) (prepare_nonce E r tx d p)
      (\<lambda>t w. assigned r w0 tx t w \<and> tx_lookup (w_repo w) (tx_id t) = Some t) (\<lambda>_. prepared r w0 tx)"
    if "nonce d = tx_nonce tx"
    unfolding valid_def
    by (intro allI impI prepare_nonce_assigned [OF conjunct1 [OF st] conjunct2 [OF st] assms(2) that])
  show "valid (same_store w0) (callM f) (\<lambda>_. same_store w0) (\<lambda>_. prepared r w0 tx)"
    using st by (auto simp: valid_def callM_def same_store_def prepared_def split: sum.splits)
qed

lemma valid_prepare_sign:
  "valid (\<lambda>w. assigned r w0 tx t w \<and> tx_lookup (w_repo w) (tx_id t) = Some t) (prepare_sign E r t p)
     (prepare_result r w0 tx) (\<lambda>_. prepared r w0 tx)"
proof (rule validI)
  fix w x w' assume a: "assigned r w0 tx t w \<and> tx_lookup (w_repo w) (tx_id t) = Some t"
  then have pr: "preserves (touched w t) (prepare_sign E r t p) (\<lambda>t'. moves t t' \<and> status t' = Sent)"
    by (intro prepare_sign_touched) (simp add: assigned_def)
  { assume "prepare_sign E r t p w = (Inr x, w')"
    then show "prepare_result r w0 tx x w'"
      using pres_Inr [OF pr touched_start] a touched_from_assigned [of r w0 tx t w w']
      by (auto simp: prepare_result_def) }
next
  fix w e w' assume a: "assigned r w0 tx t w \<and> tx_lookup (w_repo w) (tx_id t) = Some t"
    and r: "prepare_sign E r t p w = (Inl e, w')"
  then have "preserves (touched w t) (prepare_sign E r t p) (\<lambda>t'. moves t t' \<and> status t' = Sent)"
    by (intro prepare_sign_touched) (simp add: assigned_def)
  then show "prepared r w0 tx w'"
    using valid_touched_start [of w t "prepare_sign E r t p"] a r touched_from_assigned [of r w0 tx t w w']
    by simp
qed

lemma valid_prepare:
  assumes l: "tx_lookup (w_repo w0) (tx_id tx) = Some tx" and s: "status tx = Pending"
  shows "valid (same_store w0) (prepare_transaction E r tx) (prepare_result r w0 tx) (\<lambda>_. prepared r w0 tx)"
proof (cases "network_data tx")
  case (Evm d)
  note stages = valid_prepare_stages [OF l s]
  have start: "bindM (liftR (get_evm_transaction_data (network_data tx))) f = f d"
    for f :: "_ \<Rightarrow> transaction_repo_model handler"
    by (simp add: Evm get_evm_transaction_data_def liftR_def bindM_def)
  have n: "nonce d' = tx_nonce tx" if "nonce d' = nonce d" for d'
    using that by (simp add: tx_nonce_def Evm)
  have tail: "valid (\<lambda>w. nonce d' = nonce d \<and> same_store w0 w)
    (bindM (callM f) (\<lambda>p. bindM (prepare_balance E r tx p) (\<lambda>c. case c of
       Inl t \<Rightarrow> returnM t | Inr _ \<Rightarrow> bindM (prepare_nonce E r tx d' p) (\<lambda>t. prepare_sign E r t p))))
    (prepare_result r w0 tx) (\<lambda>_. prepared r w0 tx)" for d' f
  proof (cases "nonce d' = nonce d")
    case True
    show ?thesis
      unfolding True simp_thms
      by (rule valid_bind [OF stages(4)], rule valid_bind [OF stages(2)], rule valid_case_sum)
        (auto intro!: valid_return valid_bind [OF stages(3) [OF n [OF True]] valid_prepare_sign])
  next
    case False
    then show ?thesis by (simp add: valid_def)
  qed
  have "ensure_status tx Pending op = Inr ()" for op
    using s by simp
  then show ?thesis
    unfolding prepare_transaction_def start
    by (simp only: sum.case) (rule valid_bind [OF stages(1)], rule valid_case_sum;
        auto intro!: valid_return valid_pre [OF tail])
qed (use s same_store_touched [OF l] in
     \<open>auto simp: prepare_transaction_def ensure_status_def get_evm_transaction_data_def eff_defs valid_def prepared_def\<close>)

section \<open>State predicates that the repository operations keep\<close>

text \<open>
  A state predicate that looks neither at the counters nor at the debounce table, and that
  the operations of the repository keep, is kept by every part of a handler but the
  broadcast itself. Two instances matter: the repository stays well-formed, and the log of
  broadcasts stays as it is.
\<close>

definition repo_quiet :: "'a repo_op \<Rightarrow> bool" where
  "repo_quiet m \<longleftrightarrow> (\<forall>R. repo_step\<^sup>=\<^sup>= R (snd (m R)))"

lemma partial_update_truncate: "partial_update (clock_env.truncate C) = partial_update C"
  by (intro ext) (simp only: partial_update_def apply_partial_update_truncate)

lemma repo_quiet_ops:
  "repo_quiet (partial_update C now i u)" "repo_quiet (update_network_data i nd)" "repo_quiet (get_by_id i)"
  "repo_quiet (get_nonce_occupancy order rid a b)" "repo_quiet (find_by_nonce order rid n)" "repo_quiet (create t)"
  using step_partial [of _ "clock_env.truncate C" now i u] step_network_data step_create
  by (auto simp: repo_quiet_def partial_update_truncate get_by_id_def get_nonce_occupancy_def occupancy_loop_eq
      find_by_nonce_def split: option.splits)

locale quiet_inv = world_inv +
  assumes repo_stable: "J w \<Longrightarrow> repo_step (w_repo w) R \<Longrightarrow> J (w\<lparr> w_repo := R \<rparr>)"
    and counter_stable: "J w \<Longrightarrow> J (w\<lparr> w_counter := C \<rparr>)"
    and debounce_stable: "J w \<Longrightarrow> J (w\<lparr> w_debounce := D \<rparr>)"
begin

lemma quiet_repo: "repo_quiet m \<Longrightarrow> preserves J (repoM E m) (\<lambda>_. True)"
proof -
  assume m: "repo_quiet m"
  have "J (w\<lparr> w_repo := R, w_tick := k \<rparr>)" if "J w" "m (w_repo w) = (x, R)" for w x R k
  proof (cases "R = w_repo w")
    case False
    then have "repo_step (w_repo w) R"
      using m that by (auto simp: repo_quiet_def dest: spec [of _ "w_repo w"])
    then show ?thesis using that by (blast intro: tick_stable repo_stable)
  qed (use that tick_stable [of w] in simp)
  then show ?thesis
    using tick_stable
    by (auto simp: preserves_def valid_def repoM_def split: option.splits prod.splits sum.splits)
qed

lemma quiet_counter: "preserves J (counterM E m) (\<lambda>_. True)"
  using tick_stable counter_stable
  by (auto simp: preserves_def valid_def counterM_def split: option.splits prod.splits sum.splits)

lemma quiet_update: "preserves J (partial_updateM E i u) (\<lambda>_. True)"
  unfolding partial_updateM_def by (rule pres pres_env quiet_repo repo_quiet_ops)+

lemma quiet_notify: "preserves J (send_transaction_update_notification E r t) (\<lambda>_. True)"
  unfolding send_transaction_update_notification_def by (rule pres pres_env TrueI)+

lemma quiet_balance: "preserves J (ensure_sufficient_balance E r c) (\<lambda>_. True)"
  unfolding ensure_sufficient_balance_def by (rule pres_conseq [OF pres_map_err [OF pres_call]]) simp

lemma quiet_sign: "preserves J (sign_evm E d) (signed_of d)"
  unfolding sign_evm_def by (rule pres pres_env | force simp: signed_of_def)+

lemmas quiet_parts = pres_env quiet_repo repo_quiet_ops quiet_counter quiet_update quiet_notify quiet_balance quiet_sign

lemma quiet_confirmed: "preserves J (confirmed_at_of E s) (\<lambda>_. True)"
  unfolding confirmed_at_of_def by (rule pres pres_env TrueI)+

lemma quiet_scheduled: "preserves J (scheduled_on E delay) (\<lambda>_. True)"
  unfolding scheduled_on_def by (rule pres pres_env TrueI)+

lemma quiet_retry_delay: "preserves J (status_check_retry_delay_seconds E r) (\<lambda>_. True)"
  unfolding status_check_retry_delay_seconds_def by (rule pres pres_env TrueI)+

lemma quiet_recovery_check: "preserves J (schedule_nonce_recovery_status_check E r t k) (\<lambda>_. True)"
  unfolding schedule_nonce_recovery_status_check_def schedule_status_check_def Let_def
  by (rule pres pres_env quiet_scheduled quiet_retry_delay)+

lemma quiet_jobs:
  "preserves J (schedule_relayer_nonce_health_job E t) (\<lambda>_. True)"
  "preserves J (send_transaction_submit_job E t) (\<lambda>_. True)"
  "preserves J (send_transaction_resubmit_job E t) (\<lambda>_. True)"
  "preserves J (send_transaction_request_job E t) (\<lambda>_. True)"
  unfolding schedule_relayer_nonce_health_job_def send_transaction_submit_job_def send_transaction_job_def
    send_transaction_resubmit_job_def send_transaction_request_job_def Let_def
  by (rule pres pres_env)+

lemma quiet_updates:
  "preserves J (update_transaction_status E r t s reason) (\<lambda>_. True)"
  "preserves J (mark_transaction_as_failed E r t why) (\<lambda>_. True)"
  unfolding update_transaction_status_def mark_transaction_as_failed_def
  by (rule pres quiet_parts quiet_confirmed TrueI)+

lemma quiet_nonce_too_high: "preserves J (handle_nonce_too_high E t) (\<lambda>_. True)"
  unfolding handle_nonce_too_high_def Let_def by (rule pres quiet_parts quiet_jobs TrueI)+

lemma quiet_estimate: "preserves J (estimate_tx_gas_limit E d p) (\<lambda>_. True)"
  unfolding estimate_tx_gas_limit_def by (rule pres pres_env TrueI)+

lemma quiet_network:
  "preserves J (network_by_chain_id E c) (\<lambda>_. True)" "preserves J (replacement_network E c) (\<lambda>_. True)"
  unfolding network_by_chain_id_def replacement_network_def by (rule pres pres_env TrueI)+

lemma quiet_noop_request: "preserves J (prepare_noop_update_request E t c reason) (\<lambda>_. True)"
  unfolding prepare_noop_update_request_def by (rule pres pres_make_noop quiet_network TrueI)+

lemma quiet_after_broadcast: "preserves J (update_after_broadcast E t u) (\<lambda>_. True)"
  unfolding update_after_broadcast_def by (rule pres quiet_parts TrueI)+

lemmas quiet = quiet_parts quiet_confirmed quiet_recovery_check quiet_jobs quiet_updates quiet_nonce_too_high
  quiet_estimate quiet_network quiet_noop_request quiet_after_broadcast

lemma quiet_prepare_stages:
  "preserves J (prepare_gas_limit E r t d) (\<lambda>_. True)"
  "preserves J (prepare_balance E r t p) (\<lambda>_. True)"
  "preserves J (prepare_nonce E r t d p) (\<lambda>_. True)"
  "preserves J (prepare_sign E r t p) (\<lambda>_. True)"
  unfolding prepare_gas_limit_def prepare_balance_def prepare_nonce_def prepare_sign_def
  by (rule pres quiet TrueI | split transaction_error.split, intro conjI allI impI)+

lemma quiet_prepare: "preserves J (prepare_transaction E r t) (\<lambda>_. True)"
  unfolding prepare_transaction_def by (rule pres quiet quiet_prepare_stages TrueI)+

lemma quiet_cancel: "preserves J (cancel_transaction E r t) (\<lambda>_. True)"
  unfolding cancel_transaction_def by (rule pres quiet TrueI)+

lemma quiet_replace: "preserves J (replace_transaction E r t req) (\<lambda>_. True)"
  unfolding replace_transaction_def Let_def
  by (rule pres quiet TrueI | split network_transaction_request.split, intro conjI allI impI)+

lemma quiet_submit_outcome: "preserves J (submit_outcome E r t a) (\<lambda>_. True)"
  unfolding submit_outcome_def Let_def
  by (rule pres quiet TrueI | split submission_error_kind.split, intro conjI allI impI)+

lemma quiet_resubmit_outcome:
  "preserves J (resubmit_outcome E r t a) (\<lambda>_. True)" "preserves J (resubmit_update E t d b) (\<lambda>_. True)"
  unfolding resubmit_outcome_def resubmit_update_def Let_def
  by (rule pres quiet TrueI | split submission_error_kind.split, intro conjI allI impI)+

end

text \<open>With the broadcast log left out of the predicate, submitting and resubmitting keep it too.\<close>

locale noisy_inv = quiet_inv +
  assumes broadcasts_stable: "J w \<Longrightarrow> J (w\<lparr> w_broadcasts := B \<rparr>)"
begin

lemma noisy_send_raw: "preserves J (send_raw_transaction E raw) (\<lambda>_. True)"
proof -
  have "J (w\<lparr> w_broadcasts := B, w_tick := k \<rparr>)" if "J w" for w B k
    using broadcasts_stable [OF that] by (rule tick_stable)
  then show ?thesis
    by (auto simp: preserves_def valid_def send_raw_transaction_def split: sum.splits)
qed

lemma noisy_submit: "preserves J (submit_transaction E r t) (\<lambda>_. True)"
  unfolding submit_transaction_def
  by (rule pres quiet noisy_send_raw quiet_submit_outcome TrueI | split broadcast_outcome.split, intro conjI allI impI)+

lemma noisy_resubmit: "preserves J (resubmit_transaction E r t) (\<lambda>_. True)"
  unfolding resubmit_transaction_def
  by (rule pres quiet noisy_send_raw quiet_resubmit_outcome TrueI)+

end

interpretation wf_inv: noisy_inv "\<lambda>w. repo_wf (w_repo w)"
  by unfold_locales (auto intro: repo_step_wf)

interpretation log_inv: quiet_inv "\<lambda>w. w_broadcasts w = B" for B
  by unfold_locales auto

text \<open>What the log of broadcasts may be after a handler: one entry more at most.\<close>

definition broadcast_within :: "u8 list list \<Rightarrow> (u8 list \<Rightarrow> bool) \<Rightarrow> world \<Rightarrow> bool" where
  "broadcast_within B P w \<longleftrightarrow> w_broadcasts w = B \<or> (\<exists>raw. P raw \<and> w_broadcasts w = B @ [raw])"

text \<open>The bytes that the transaction is stored with.\<close>

definition stored_raw :: "transaction_repo_model \<Rightarrow> u8 list \<Rightarrow> bool" where
  "stored_raw tx raw \<longleftrightarrow> status tx \<in> {Sent, Submitted} \<and> (\<exists>d. network_data tx = Evm d \<and> evm_raw d = Some raw)"

text \<open>Bytes the signer returned for the stored data with a price that passed the minimum bump.\<close>

definition resigned_raw ::
  "evm_env \<Rightarrow> relayer_repo_model \<Rightarrow> transaction_repo_model \<Rightarrow> u8 list \<Rightarrow> bool" where
  "resigned_raw E r tx raw \<longleftrightarrow> status tx \<in> {Sent, Submitted} \<and>
     (\<exists>d p s t t'. network_data tx = Evm d \<and> calculate_bumped_gas_price (e_gas_answers E t) r (is_noop d) d = Inr p
        \<and> pp_is_min_bumped p = Some True
        \<and> e_sign E t' (with_price_params d p) = Inr (SignedEvm s) \<and> raw = sr_raw s)"

lemma within_same: "w_broadcasts w = B \<Longrightarrow> broadcast_within B P w"
  by (simp add: broadcast_within_def)

lemma within_silent:
  assumes "preserves (\<lambda>w. w_broadcasts w = B) m V"
  shows "valid (\<lambda>w. w_broadcasts w = B) m (\<lambda>x w. w_broadcasts w = B \<and> V x) (\<lambda>_. broadcast_within B P)"
  by (rule valid_conseq [OF assms [unfolded preserves_def]]) (simp_all add: broadcast_within_def)

lemma within_quiet:
  assumes "preserves (\<lambda>w. w_broadcasts w = B) m (\<lambda>_. True)"
  shows "valid (\<lambda>w. w_broadcasts w = B) m (\<lambda>_ w. w_broadcasts w = B) (\<lambda>_. broadcast_within B P)"
  using within_silent [OF assms] by simp

lemma within_send_raw:
  "valid (\<lambda>w. w_broadcasts w = B) (attemptM (send_raw_transaction E raw)) (\<lambda>_ w. w_broadcasts w = B @ [raw]) Q"
  by (auto simp: valid_def attemptM_def send_raw_transaction_def)

lemma within_tail:
  assumes "P raw" "preserves (\<lambda>w. w_broadcasts w = B @ [raw]) m V"
  shows "valid (\<lambda>w. w_broadcasts w = B @ [raw]) m (\<lambda>_. broadcast_within B P) (\<lambda>_. broadcast_within B P)"
  by (rule valid_conseq [OF assms(2) [unfolded preserves_def]]) (use assms(1) in \<open>auto simp: broadcast_within_def\<close>)

lemma log_sign:
  "preserves (\<lambda>w. w_broadcasts w = B) (sign_evm E d)
     (\<lambda>d'. \<exists>t s. e_sign E t d = Inr (SignedEvm s) \<and> d' = with_signed_transaction_data d s)"
  unfolding sign_evm_def
  by (rule pres log_inv.pres_env | force simp: into_evm_def split: sign_transaction_response.splits)+

lemma submit_sends_stored:
  assumes "stored_raw tx raw"
  shows "valid (\<lambda>w. w_broadcasts w = B) (submit_transaction E r tx)
     (\<lambda>_ w. w_broadcasts w = B @ [raw]) (\<lambda>_ w. w_broadcasts w = B @ [raw])"
proof -
  obtain d where d: "network_data tx = Evm d" "evm_raw d = Some raw"
    and s: "ensure_status_one_of tx [Sent, Submitted] (Some ''submit_transaction'') = Inr ()"
    using assms by (auto simp: stored_raw_def)
  have tail: "preserves (\<lambda>w. w_broadcasts w = B @ [raw])
      (bindM (submit_outcome E r tx answer) f) (\<lambda>_. True)"
    if "\<And>x. preserves (\<lambda>w. w_broadcasts w = B @ [raw]) (f x) (\<lambda>_. True)" for answer and f :: "_ \<Rightarrow> transaction_repo_model handler"
    by (rule pres_bind [OF log_inv.quiet_submit_outcome that])
  have "preserves (\<lambda>w. w_broadcasts w = B @ [raw])
      (case outcome of ReturnOk \<Rightarrow> returnM tx | Propagate e \<Rightarrow> throwM (UnderlyingProvider e)
       | Continue \<Rightarrow> bindM (now_rfc3339 E) (\<lambda>now.
           bindM (update_after_broadcast E tx (default_update
                    \<lparr> up_status := Some Submitted, up_sent_at := Some now, up_metadata := metadata_reset tx \<rparr>)) (\<lambda>updated_tx.
           thenM (ignoreM (send_transaction_update_notification E r updated_tx)) (returnM updated_tx)))) (\<lambda>_. True)"
    for outcome
    by (rule pres log_inv.quiet TrueI | split broadcast_outcome.split, intro conjI allI impI)+
  note rest = tail [OF this, unfolded preserves_def]
  show ?thesis
    unfolding submit_transaction_def s
    by (simp add: d get_evm_transaction_data_def liftR_def bindM_returnM [unfolded returnM_def])
      (rule valid_bind [OF within_send_raw], rule valid_conseq [OF rest], simp_all)
qed

lemma submit_broadcasts:
  "valid (\<lambda>w. w_broadcasts w = B) (submit_transaction E r tx)
     (\<lambda>_. broadcast_within B (stored_raw tx)) (\<lambda>_. broadcast_within B (stored_raw tx))"
proof (cases "\<exists>raw. stored_raw tx raw")
  case True
  then obtain raw where raw: "stored_raw tx raw" ..
  show ?thesis
    by (rule valid_conseq [OF submit_sends_stored [OF raw]]) (use raw in \<open>auto simp: broadcast_within_def\<close>)
next
  case False
  then show ?thesis
    by (auto simp: submit_transaction_def eff_defs get_evm_transaction_data_def valid_def broadcast_within_def stored_raw_def
        split: sum.splits option.splits prod.splits network_transaction_data.splits)
qed

lemma resubmit_broadcasts:
  "valid (\<lambda>w. w_broadcasts w = B) (resubmit_transaction E r tx)
     (\<lambda>_. broadcast_within B (resigned_raw E r tx)) (\<lambda>_. broadcast_within B (resigned_raw E r tx))"
proof (cases "status tx \<in> {Sent, Submitted} \<and> (\<exists>d. network_data tx = Evm d)")
  case True
  then obtain d where d: "network_data tx = Evm d" "status tx \<in> {Sent, Submitted}"
    and s: "ensure_status_one_of tx [Sent, Submitted] (Some ''resubmit_transaction'') = Inr ()"
    by auto
  have tail: "preserves (\<lambda>w. w_broadcasts w = B')
      (bindM (resubmit_outcome E r tx answer) (\<lambda>outcome. case outcome of
         Inl _ \<Rightarrow> returnM tx
       | Inr b \<Rightarrow> bindM (resubmit_update E tx d' b) (\<lambda>update. update_after_broadcast E tx update))) (\<lambda>_. True)"
    for B' answer d'
    by (rule pres log_inv.quiet log_inv.quiet_resubmit_outcome TrueI)+
  have "resigned_raw E r tx (sr_raw sg)"
    if "\<exists>t. calculate_bumped_gas_price (e_gas_answers E t) r (is_noop d) d = Inr p" "pp_is_min_bumped p = Some True"
      "e_sign E t (with_price_params d p) = Inr (SignedEvm sg)" for p t sg
    using that d unfolding resigned_raw_def by blast
  note resigned = this
  show ?thesis
    unfolding resubmit_transaction_def s
    apply (simp add: d get_evm_transaction_data_def liftR_def bindM_returnM [unfolded returnM_def])
    apply (rule valid_bind [OF within_silent [OF log_inv.pres_call]], rule valid_fact, rule valid_if)
     apply (rule valid_return, erule within_same)
    apply (rule valid_then [OF within_quiet [OF log_inv.quiet_balance]])
    apply (rule valid_bind [OF within_silent [OF log_sign]], rule valid_fact)
    apply (elim exE conjE, simp add: with_signed_transaction_data_def)
    apply (rule valid_bind [OF within_send_raw], rule within_tail [OF _ tail], rule resigned; blast)
    done
next
  case False
  have early: "valid (\<lambda>w. w_broadcasts w = B) (returnM tx) (\<lambda>_. broadcast_within B P) (\<lambda>_. broadcast_within B P)"
    "valid (\<lambda>w. w_broadcasts w = B) (throwM e) (\<lambda>_. broadcast_within B P) (\<lambda>_. broadcast_within B P)" for P e
    by (auto simp: valid_def eff_defs broadcast_within_def)
  show ?thesis
  proof (cases "ensure_status_one_of tx [Sent, Submitted] (Some ''resubmit_transaction'')")
    case Inr
    with False obtain e where "get_evm_transaction_data (network_data tx) = Inl e"
      by (cases "network_data tx") (auto simp: get_evm_transaction_data_def)
    then show ?thesis
      unfolding resubmit_transaction_def Inr
      by (simp add: liftR_def bindM_throwM [unfolded throwM_def] early(2) [unfolded throwM_def])
  qed (simp add: resubmit_transaction_def early)
qed

end
