(* ===== verification/Evm_Status.thy ===== *)
theory Evm_Status
  imports Evm_Transaction
begin

text \<open>
  The status checker of \<open>domain/transaction/evm/status.rs\<close>: what it reads from the chain,
  when it resubmits or replaces a transaction by a NOOP, the recovery of the hash that was
  mined, the reconciliation after a nonce error, the circuit breaker, and
  \<open>handle_status_impl\<close>, which composes them. \<open>jobs/status_check_context.rs\<close> is part of it.
\<close>

section \<open>Revert data\<close>

definition REVERT_REASON_GENERIC :: string where
  "REVERT_REASON_GENERIC = ''Transaction reverted on-chain (receipt status: failed)''"

definition MAX_REVERT_DATA_HEX_LEN :: nat where "MAX_REVERT_DATA_HEX_LEN = 4096"

definition truncate_revert_hex :: "string \<Rightarrow> string" where
  "truncate_revert_hex hex =
     (if length hex \<le> MAX_REVERT_DATA_HEX_LEN then hex
      else take MAX_REVERT_DATA_HEX_LEN hex @ ''...(truncated)'')"

definition is_ascii_hexdigit :: "char \<Rightarrow> bool" where
  "is_ascii_hexdigit c =
     (let n = (of_char c :: nat) in (48 \<le> n \<and> n \<le> 57) \<or> (65 \<le> n \<and> n \<le> 70) \<or> (97 \<le> n \<and> n \<le> 102))"

definition is_revert_hex :: "string \<Rightarrow> bool" where
  "is_revert_hex s =
     (starts_with ''0x'' s \<and> (let rest = drop 2 s in rest \<noteq> [] \<and> list_all is_ascii_hexdigit rest))"

text \<open>The argument is the string under \<open>output\<close> of the trace, if there is one.\<close>

definition extract_trace_output :: "string option \<Rightarrow> string option" where
  "extract_trace_output output = (case output of
     Some s \<Rightarrow> (if is_revert_hex s then Some s else None) | None \<Rightarrow> None)"

definition hex_digit :: "nat \<Rightarrow> char" where
  "hex_digit n = (if n < 10 then char_of (48 + n) else char_of (87 + n))"

definition hex_encode :: "u8 list \<Rightarrow> string" where
  "hex_encode bs = concat (map (\<lambda>b. [hex_digit (unat b div 16), hex_digit (unat b mod 16)]) bs)"

text \<open>The errors are logged only; the library's part of their text is left out.\<close>

definition build_revert_call_request ::
  "evm_env \<Rightarrow> evm_transaction_data \<Rightarrow> transaction_error + call_request" where
  "build_revert_call_request E d = (case e_parse_address E (evm_from d) of
     None \<Rightarrow> Inl (UnexpectedError ''Invalid from address for revert recovery'')
   | Some sender \<Rightarrow>
       (case (case evm_to d of
                Some addr \<Rightarrow> (case e_parse_address E addr of
                  None \<Rightarrow> Inl (UnexpectedError ''Invalid to address for revert recovery'')
                | Some a \<Rightarrow> Inr (Some a))
              | None \<Rightarrow> Inr None) of
          Inl e \<Rightarrow> Inl e
        | Inr target \<Rightarrow>
            (case e_hex_decode E (case evm_data d of Some s \<Rightarrow> s | None \<Rightarrow> []) of
               None \<Rightarrow> Inl (UnexpectedError ''Invalid input data for revert recovery'')
             | Some input \<Rightarrow> Inr \<lparr> cr_from = sender, cr_to = target, cr_value = evm_value d, cr_input = input,
                 cr_gas = gas_limit d, cr_gas_price = gas_price d, cr_max_fee_per_gas = max_fee_per_gas d,
                 cr_max_priority_fee_per_gas = max_priority_fee_per_gas d \<rparr>)))"

definition revert_by_call ::
  "evm_env \<Rightarrow> evm_transaction_data \<Rightarrow> string \<Rightarrow> string option handler" where
  "revert_by_call E d hash =
     bindM (attemptM (callM (\<lambda>t. e_receipt E t hash))) (\<lambda>receipt. case receipt of
       Inr (Some rc) \<Rightarrow> (case rc_block_number rc of
           None \<Rightarrow> returnM None
         | Some block_number \<Rightarrow> (case build_revert_call_request E d of
             Inl _ \<Rightarrow> returnM None
           | Inr request \<Rightarrow>
               bindM (attemptM (callM (\<lambda>t. e_call_revert_data E t request block_number))) (\<lambda>answer.
                 returnM (case answer of
                   Inr (Some bytes) \<Rightarrow> (if bytes \<noteq> [] then Some (''0x'' @ hex_encode bytes) else None)
                 | _ \<Rightarrow> None))))
     | _ \<Rightarrow> returnM None)"

definition recover_revert_data :: "evm_env \<Rightarrow> transaction_repo_model \<Rightarrow> string option handler" where
  "recover_revert_data E tx = (case get_evm_transaction_data (network_data tx) of
     Inl _ \<Rightarrow> returnM None
   | Inr d \<Rightarrow> (case evm_hash d of
       None \<Rightarrow> returnM None
     | Some hash \<Rightarrow>
         bindM (attemptM (callM (\<lambda>t. e_trace_output E t hash))) (\<lambda>trace. case trace of
           Inr output \<Rightarrow> (case extract_trace_output output of
               Some hex \<Rightarrow> returnM (Some hex) | None \<Rightarrow> revert_by_call E d hash)
         | Inl _ \<Rightarrow> revert_by_call E d hash)))"

definition build_failed_status_reason ::
  "evm_env \<Rightarrow> relayer_repo_model \<Rightarrow> transaction_repo_model \<Rightarrow> string handler" where
  "build_failed_status_reason E r tx =
     (if \<not> (case include_revert_data (get_evm_policy (r_policies r)) of
              Some b \<Rightarrow> b | None \<Rightarrow> DEFAULT_EVM_INCLUDE_REVERT_DATA)
      then returnM REVERT_REASON_GENERIC
      else bindM (recover_revert_data E tx) (\<lambda>hex. returnM (case hex of
             Some hex \<Rightarrow> ''Transaction reverted on-chain (revert_data: '' @ truncate_revert_hex hex @ '')''
           | None \<Rightarrow> REVERT_REASON_GENERIC)))"

section \<open>Debounce\<close>

definition NONCE_HEALTH_DEBOUNCE_TTL :: int where "NONCE_HEALTH_DEBOUNCE_TTL = secs 30"

text \<open>\<open>elapsed\<close> of an instant in the future is zero.\<close>

definition should_fire :: "evm_env \<Rightarrow> string \<Rightarrow> (world, 'e, bool) eff" where
  "should_fire E key =
     bindM (readM (\<lambda>w. w_debounce w key)) (\<lambda>entry. case entry of
       Some fired \<Rightarrow>
         bindM (askM (e_instant E)) (\<lambda>now.
           if max 0 (now - fired) < NONCE_HEALTH_DEBOUNCE_TTL then returnM False
           else bindM (askM (e_instant E)) (\<lambda>now.
                thenM (modifyM (\<lambda>w. w\<lparr> w_debounce := (w_debounce w)(key \<mapsto> now) \<rparr>)) (returnM True)))
     | None \<Rightarrow>
         bindM (askM (e_instant E)) (\<lambda>now.
           thenM (modifyM (\<lambda>w. w\<lparr> w_debounce := (w_debounce w)(key \<mapsto> now) \<rparr>)) (returnM True)))"

definition clear_debounce :: "string \<Rightarrow> (world, 'e, unit) eff" where
  "clear_debounce key = modifyM (\<lambda>w. w\<lparr> w_debounce := (w_debounce w)(key := None) \<rparr>)"

section \<open>Hash recovery\<close>

definition should_try_hash_recovery ::
  "evm_env \<Rightarrow> int \<Rightarrow> transaction_repo_model \<Rightarrow> transaction_error + bool" where
  "should_try_hash_recovery E now tx =
     (if status tx \<noteq> Submitted then Inr False
      else if length (hashes tx) \<le> 1 then Inr False
      else case get_age_of_sent_at E now tx of
             Inl e \<Rightarrow> Inl e
           | Inr age \<Rightarrow>
               (if age < get_evm_min_age_for_hash_recovery then Inr False
                else if length (hashes tx) < EVM_MIN_HASHES_FOR_RECOVERY then Inr False else Inr True))"

definition update_transaction_with_corrected_hash ::
  "evm_env \<Rightarrow> relayer_repo_model \<Rightarrow> transaction_repo_model \<Rightarrow> evm_transaction_data \<Rightarrow> string \<Rightarrow>
   transaction_status \<Rightarrow> transaction_repo_model handler" where
  "update_transaction_with_corrected_hash E r tx d correct_hash s =
     bindM (partial_updateM E (tx_id tx) (default_update
              \<lparr> up_network_data := Some (Evm (d\<lparr> evm_hash := Some correct_hash \<rparr>)), up_status := Some s \<rparr>)) (\<lambda>updated_tx.
     thenM (ignoreM (send_transaction_update_notification E r updated_tx))
       (returnM updated_tx))"

text \<open>The loop over the hashes, most recent first.\<close>

fun recover_loop ::
  "evm_env \<Rightarrow> relayer_repo_model \<Rightarrow> transaction_repo_model \<Rightarrow> evm_transaction_data \<Rightarrow> string list \<Rightarrow>
   transaction_repo_model option handler" where
  "recover_loop E r tx d [] = returnM None"
| "recover_loop E r tx d (h # hs) =
     (if Some h = evm_hash d then recover_loop E r tx d hs
      else bindM (attemptM (callM (\<lambda>t. e_receipt E t h))) (\<lambda>answer. case answer of
             Inr (Some receipt) \<Rightarrow>
               bindM (update_transaction_with_corrected_hash E r tx d h Mined) (\<lambda>updated_tx. returnM (Some updated_tx))
           | Inr None \<Rightarrow> recover_loop E r tx d hs
           | Inl _ \<Rightarrow> recover_loop E r tx d hs))"

definition try_recover_with_historical_hashes ::
  "evm_env \<Rightarrow> relayer_repo_model \<Rightarrow> transaction_repo_model \<Rightarrow> evm_transaction_data \<Rightarrow>
   transaction_repo_model option handler" where
  "try_recover_with_historical_hashes E r tx d = recover_loop E r tx d (rev (hashes tx))"

section \<open>Checking the chain\<close>

definition recovery_due :: "evm_env \<Rightarrow> transaction_repo_model \<Rightarrow> bool handler" where
  "recovery_due E tx =
     (if length (hashes tx) > 1
      then bindM (askM (e_now E)) (\<lambda>now. liftR (should_try_hash_recovery E now tx))
      else returnM False)"

definition hash_recovery ::
  "evm_env \<Rightarrow> relayer_repo_model \<Rightarrow> transaction_repo_model \<Rightarrow> evm_transaction_data \<Rightarrow> transaction_status handler" where
  "hash_recovery E r tx d =
     bindM (recovery_due E tx) (\<lambda>recover.
     if recover
     then bindM (try_recover_with_historical_hashes E r tx d) (\<lambda>recovered. returnM (case recovered of
            Some recovered_tx \<Rightarrow> status recovered_tx | None \<Rightarrow> Submitted))
     else returnM Submitted)"

definition mined_status ::
  "evm_env \<Rightarrow> transaction_repo_model \<Rightarrow> evm_transaction_data \<Rightarrow> evm_receipt \<Rightarrow> transaction_status handler" where
  "mined_status E tx d receipt =
     (if \<not> rc_status receipt then returnM Failed
      else bindM (map_errM UnderlyingProvider (callM (e_block_number E))) (\<lambda>last_block_number.
           case rc_block_number receipt of
             None \<Rightarrow> throwM (UnexpectedError ''Transaction receipt missing block number'')
           | Some tx_block_number \<Rightarrow>
               bindM (network_by_chain_id E (chain_id d)) (\<lambda>network. returnM
                 (if \<not> has_enough_confirmations tx_block_number last_block_number (net_required_confirmations network)
                  then Mined
                  else if is_canceled tx = Some True \<and> rc_to receipt = Some (rc_from receipt) then Canceled
                  else Confirmed))))"

definition check_transaction_status ::
  "evm_env \<Rightarrow> relayer_repo_model \<Rightarrow> transaction_repo_model \<Rightarrow> transaction_status handler" where
  "check_transaction_status E r tx =
     (if is_final_state (status tx) then returnM (status tx)
      else if status tx = Pending \<or> status tx = Sent then returnM (status tx)
      else bindM (liftR (get_evm_transaction_data (network_data tx))) (\<lambda>d. case evm_hash d of
             None \<Rightarrow> throwM (UnexpectedError ''Transaction hash is missing'')
           | Some tx_hash \<Rightarrow>
               bindM (map_errM UnderlyingProvider (callM (\<lambda>t. e_receipt E t tx_hash))) (\<lambda>receipt_result.
                 case receipt_result of
                   Some receipt \<Rightarrow> mined_status E tx d receipt
                 | None \<Rightarrow> hash_recovery E r tx d)))"

section \<open>Decisions\<close>

definition should_resubmit :: "evm_env \<Rightarrow> transaction_repo_model \<Rightarrow> bool handler" where
  "should_resubmit E tx =
     thenM (liftR (ensure_status tx Submitted (Some ''should_resubmit'')))
     (bindM (liftR (get_evm_transaction_data (network_data tx))) (\<lambda>d.
      bindM (askM (e_now E)) (\<lambda>now.
      bindM (liftR (get_age_of_sent_at E now tx)) (\<lambda>age.
      bindM (network_by_chain_id E (chain_id d)) (\<lambda>network.
        let timeout = (if is_arbitrum network then ARBITRUM_TIME_TO_RESUBMIT
                       else get_resubmit_timeout_for_speed (evm_speed d));
            timeout_with_backoff = (if is_arbitrum network then timeout
                       else get_resubmit_timeout_with_backoff timeout (length (hashes tx)))
        in returnM (age > millis timeout_with_backoff))))))"

definition noop_for_block_gas_limit ::
  "evm_env \<Rightarrow> evm_transaction_data \<Rightarrow> (bool \<times> string option) handler" where
  "noop_for_block_gas_limit E d =
     bindM (attemptM (callM (e_block_gas_limit E))) (\<lambda>block. returnM (case (block, gas_limit d) of
       (Inr block_gas_limit, Some limit) \<Rightarrow>
         (if limit > block_gas_limit
          then (True, Some (''Transaction gas limit ('' @ show_nat (unat limit) @ '') exceeds block gas limit (''
                            @ show_nat (unat block_gas_limit) @ ''). Replacing with NOOP.''))
          else (False, None))
     | _ \<Rightarrow> (False, None)))"

definition noop_for_age ::
  "evm_env \<Rightarrow> transaction_repo_model \<Rightarrow> evm_transaction_data \<Rightarrow> (bool \<times> string option) handler" where
  "noop_for_age E tx d =
     (if status tx = Pending
      then (case parse_rfc3339 E (created_at tx) of
              None \<Rightarrow> throwM (UnexpectedError ''Invalid created_at timestamp'')
            | Some created_time \<Rightarrow>
                bindM (askM (e_now E)) (\<lambda>now.
                  if now - created_time > get_evm_prepare_timeout
                  then returnM (True, Some ''Transaction in Pending state for over 2 minutes. Replacing with NOOP.'')
                  else noop_for_block_gas_limit E d))
      else noop_for_block_gas_limit E d)"

definition should_noop :: "evm_env \<Rightarrow> transaction_repo_model \<Rightarrow> (bool \<times> string option) handler" where
  "should_noop E tx =
     (if too_many_noop_attempts tx then returnM (False, None)
      else bindM (liftR (get_evm_transaction_data (network_data tx))) (\<lambda>d.
        if is_noop d then returnM (False, None)
        else bindM (network_by_chain_id E (chain_id d)) (\<lambda>network.
          if is_rollup network \<and> too_many_attempts tx
          then returnM (True, Some ''Rollup transaction has too many attempts. Replacing with NOOP.'')
          else bindM (askM (e_now E)) (\<lambda>now.
            if \<not> is_transaction_valid E now (created_at tx) (valid_until tx)
            then returnM (True, Some ''Transaction is expired. Replacing with NOOP.'')
            else noop_for_age E tx d))))"

definition update_transaction_status_if_needed ::
  "evm_env \<Rightarrow> relayer_repo_model \<Rightarrow> transaction_repo_model \<Rightarrow> transaction_status \<Rightarrow> string option \<Rightarrow>
   transaction_repo_model handler" where
  "update_transaction_status_if_needed E r tx new_status reason =
     (if status tx \<noteq> new_status then update_transaction_status E r tx new_status reason else returnM tx)"

definition gap_nonces :: "(u64 \<times> transaction_status option) list \<Rightarrow> u64 list" where
  "gap_nonces occupancy = map fst (filter (\<lambda>(_, s). \<not> (case s of Some s \<Rightarrow> is_active_nonce_status s | None \<Rightarrow> False)) occupancy)"

definition schedule_gap_health :: "evm_env \<Rightarrow> transaction_repo_model \<Rightarrow> unit handler" where
  "schedule_gap_health E tx =
     bindM (should_fire E (relayer_id tx)) (\<lambda>fire. whenM fire
       (bindM (attemptM (schedule_relayer_nonce_health_job E tx)) (\<lambda>res. case res of
          Inl _ \<Rightarrow> clear_debounce (relayer_id tx) | Inr _ \<Rightarrow> returnM ())))"

definition detect_nonce_gap_ahead ::
  "evm_env \<Rightarrow> relayer_repo_model \<Rightarrow> transaction_repo_model \<Rightarrow> bool option handler" where
  "detect_nonce_gap_ahead E r tx = (case get_evm_transaction_data (network_data tx) of
     Inl _ \<Rightarrow> returnM None
   | Inr d \<Rightarrow> (case nonce d of
       None \<Rightarrow> returnM None
     | Some n \<Rightarrow>
         bindM (attemptM (callM (\<lambda>t. e_transaction_count E t (r_address r)))) (\<lambda>answer. case answer of
           Inl _ \<Rightarrow> returnM None
         | Inr on_chain_nonce \<Rightarrow>
             (if n \<le> on_chain_nonce then returnM (Some False)
              else
                bindM (attemptM (repoM E (get_nonce_occupancy (e_values_order E) (relayer_id tx) on_chain_nonce
                          (min n (on_chain_nonce + MAX_GAP_SCAN_RANGE))))) (\<lambda>occupancy. case occupancy of
                  Inl _ \<Rightarrow> returnM None
                | Inr occ \<Rightarrow>
                    (if gap_nonces occ = [] then returnM (Some False)
                     else thenM (schedule_gap_health E tx) (returnM (Some True))))))))"

section \<open>Handling each status\<close>

definition process_noop_transaction ::
  "evm_env \<Rightarrow> relayer_repo_model \<Rightarrow> transaction_repo_model \<Rightarrow> string option \<Rightarrow> transaction_repo_model handler" where
  "process_noop_transaction E r tx reason =
     bindM (prepare_noop_update_request E tx False reason) (\<lambda>update.
     bindM (partial_updateM E (tx_id tx) update) (\<lambda>updated_tx.
     thenM (ignoreM (send_transaction_update_notification E r updated_tx))
       (returnM updated_tx)))"

definition noop_if :: 
  "evm_env \<Rightarrow> relayer_repo_model \<Rightarrow> transaction_repo_model \<Rightarrow> bool \<times> string option \<Rightarrow> transaction_repo_model handler" where
  "noop_if E r tx decision =
     (if fst decision then process_noop_transaction E r tx (snd decision) else returnM tx)"

definition handle_resubmission ::
  "evm_env \<Rightarrow> relayer_repo_model \<Rightarrow> transaction_repo_model \<Rightarrow> transaction_repo_model handler" where
  "handle_resubmission E r tx =
     bindM (should_noop E tx) (\<lambda>decision.
     bindM (noop_if E r tx decision) (\<lambda>tx_to_process.
     thenM (send_transaction_resubmit_job E tx_to_process) (returnM tx_to_process)))"

definition handle_submitted_state ::
  "evm_env \<Rightarrow> relayer_repo_model \<Rightarrow> transaction_repo_model \<Rightarrow> transaction_repo_model handler" where
  "handle_submitted_state E r tx =
     bindM (should_resubmit E tx) (\<lambda>stale.
       if stale
       then bindM (detect_nonce_gap_ahead E r tx) (\<lambda>gap.
              if gap = Some True then update_transaction_status_if_needed E r tx Submitted None
              else handle_resubmission E r tx)
       else update_transaction_status_if_needed E r tx Submitted None)"

definition handle_pending_state ::
  "evm_env \<Rightarrow> relayer_repo_model \<Rightarrow> transaction_repo_model \<Rightarrow> transaction_repo_model handler" where
  "handle_pending_state E r tx =
     bindM (should_noop E tx) (\<lambda>decision.
       if fst decision
       then bindM (partial_updateM E (tx_id tx) (default_update
                     \<lparr> up_status := Some Failed, up_status_reason := snd decision \<rparr>)) (\<lambda>updated_tx.
            thenM (ignoreM (send_transaction_update_notification E r updated_tx))
              (returnM updated_tx))
       else bindM (askM (e_now E)) (\<lambda>now.
            bindM (liftR (get_age_since_created E now tx)) (\<lambda>age.
            thenM (whenM (age > get_evm_pending_recovery_trigger_timeout) (send_transaction_request_job E tx))
              (returnM tx))))"

definition handle_mined_state ::
  "evm_env \<Rightarrow> relayer_repo_model \<Rightarrow> transaction_repo_model \<Rightarrow> transaction_repo_model handler" where
  "handle_mined_state E r tx = update_transaction_status_if_needed E r tx Mined None"

definition handle_final_state ::
  "evm_env \<Rightarrow> relayer_repo_model \<Rightarrow> transaction_repo_model \<Rightarrow> transaction_status \<Rightarrow> string option \<Rightarrow>
   transaction_repo_model handler" where
  "handle_final_state E r tx s reason = update_transaction_status_if_needed E r tx s reason"

definition handle_sent_state ::
  "evm_env \<Rightarrow> relayer_repo_model \<Rightarrow> transaction_repo_model \<Rightarrow> transaction_repo_model handler" where
  "handle_sent_state E r tx =
     bindM (should_noop E tx) (\<lambda>decision.
       if fst decision
       then bindM (prepare_noop_update_request E tx False (snd decision)) (\<lambda>update.
            bindM (partial_updateM E (tx_id tx) update) (\<lambda>updated_tx.
            thenM (send_transaction_submit_job E updated_tx)
            (thenM (ignoreM (send_transaction_update_notification E r updated_tx))
              (returnM updated_tx))))
       else bindM (askM (e_now E)) (\<lambda>now.
            bindM (liftR (get_age_since_status_change E now tx)) (\<lambda>age.
              if age > get_evm_resend_timeout
              then bindM (detect_nonce_gap_ahead E r tx) (\<lambda>gap.
                     if gap = Some True then update_transaction_status_if_needed E r tx Sent None
                     else thenM (send_transaction_resubmit_job E tx)
                            (update_transaction_status_if_needed E r tx Sent None))
              else update_transaction_status_if_needed E r tx Sent None)))"

definition mark_as_failed ::
  "evm_env \<Rightarrow> relayer_repo_model \<Rightarrow> transaction_repo_model \<Rightarrow> string \<Rightarrow> transaction_repo_model handler" where
  "mark_as_failed E r tx reason =
     bindM (partial_updateM E (tx_id tx) (default_update
              \<lparr> up_status := Some Failed, up_status_reason := Some reason \<rparr>)) (\<lambda>updated_tx.
     thenM (ignoreM (send_transaction_update_notification E r updated_tx))
       (returnM updated_tx))"

section \<open>Nonce reconciliation\<close>

text \<open>
  The receipt check of the current hash: \<open>None\<close> if a receipt exists, otherwise whether
  the call failed.
\<close>

definition reconcile_current :: "evm_env \<Rightarrow> evm_transaction_data \<Rightarrow> bool option handler" where
  "reconcile_current E d = (case evm_hash d of
     None \<Rightarrow> returnM (Some False)
   | Some hash \<Rightarrow>
       bindM (attemptM (callM (\<lambda>t. e_receipt E t hash))) (\<lambda>answer. returnM (case answer of
         Inr (Some _) \<Rightarrow> None | Inr None \<Rightarrow> Some False | Inl _ \<Rightarrow> Some True)))"

text \<open>A left value is the recovered transaction, a right one whether the recovery failed.\<close>

definition reconcile_historical ::
  "evm_env \<Rightarrow> relayer_repo_model \<Rightarrow> transaction_repo_model \<Rightarrow> evm_transaction_data \<Rightarrow>
   (transaction_repo_model + bool) handler" where
  "reconcile_historical E r tx d =
     (if length (hashes tx) > 1
      then bindM (attemptM (try_recover_with_historical_hashes E r tx d)) (\<lambda>res. returnM (case res of
             Inr (Some recovered_tx) \<Rightarrow> Inl recovered_tx | Inr None \<Rightarrow> Inr False | Inl _ \<Rightarrow> Inr True))
      else returnM (Inr False))"

definition reconcile_nonce ::
  "evm_env \<Rightarrow> relayer_repo_model \<Rightarrow> transaction_repo_model \<Rightarrow> u64 \<Rightarrow> transaction_repo_model option handler" where
  "reconcile_nonce E r tx n =
     bindM (map_errM (\<lambda>e. UnexpectedError (''Failed to get on-chain nonce for recovery: '' @ show_provider_error e))
              (callM (\<lambda>t. e_transaction_count E t (r_address r)))) (\<lambda>on_chain_nonce.
       if on_chain_nonce > n
       then bindM (update_transaction_status E r tx Failed
                     (Some (''Nonce '' @ show_nat (unat n) @ '' consumed externally (on-chain nonce: ''
                            @ show_nat (unat on_chain_nonce) @ ''). No matching transaction hash found on-chain.''))) (\<lambda>updated_tx.
            thenM (ignoreM (schedule_relayer_nonce_health_job E tx)) (returnM (Some updated_tx)))
       else returnM None)"

definition reconcile_tx_nonce_state ::
  "evm_env \<Rightarrow> relayer_repo_model \<Rightarrow> transaction_repo_model \<Rightarrow> transaction_repo_model option handler" where
  "reconcile_tx_nonce_state E r tx =
     bindM (liftR (get_evm_transaction_data (network_data tx))) (\<lambda>d.
     bindM (reconcile_current E d) (\<lambda>current. case current of
       None \<Rightarrow> returnM None
     | Some current_failed \<Rightarrow>
         bindM (reconcile_historical E r tx d) (\<lambda>historical. case historical of
           Inl recovered_tx \<Rightarrow> returnM (Some recovered_tx)
         | Inr recovery_failed \<Rightarrow>
             (if current_failed \<or> recovery_failed then returnM None
              else case nonce d of None \<Rightarrow> returnM None | Some n \<Rightarrow> reconcile_nonce E r tx n))))"

section \<open>Circuit breaker\<close>

record status_check_context =
  sc_consecutive_failures :: u32
  sc_total_failures :: u32
  sc_total_retries :: u32
  sc_max_consecutive_failures :: u32
  sc_max_total_failures :: u32
  sc_network_type :: network_type
  sc_job_metadata :: "job_metadata option"

definition should_force_finalize :: "status_check_context \<Rightarrow> bool" where
  "should_force_finalize c \<longleftrightarrow>
     sc_consecutive_failures c \<ge> sc_max_consecutive_failures c \<or> sc_total_failures c \<ge> sc_max_total_failures c"

definition triggered_by_consecutive :: "status_check_context \<Rightarrow> bool" where
  "triggered_by_consecutive c \<longleftrightarrow> sc_consecutive_failures c \<ge> sc_max_consecutive_failures c"

definition triggered_by_total :: "status_check_context \<Rightarrow> bool" where
  "triggered_by_total c \<longleftrightarrow> sc_total_failures c \<ge> sc_max_total_failures c"

definition breaker_noop ::
  "evm_env \<Rightarrow> relayer_repo_model \<Rightarrow> transaction_repo_model \<Rightarrow> string \<Rightarrow> transaction_repo_model handler" where
  "breaker_noop E r tx reason =
     bindM (process_noop_transaction E r tx (Some reason)) (\<lambda>updated_tx.
     thenM (send_transaction_resubmit_job E updated_tx) (returnM updated_tx))"

definition handle_circuit_breaker_safely ::
  "evm_env \<Rightarrow> relayer_repo_model \<Rightarrow> transaction_repo_model \<Rightarrow> status_check_context \<Rightarrow>
   transaction_repo_model handler" where
  "handle_circuit_breaker_safely E r tx ctx =
     (let reason = ''Transaction status monitoring failed after '' @ show_nat (unat (sc_consecutive_failures ctx))
            @ '' consecutive errors (total: '' @ show_nat (unat (sc_total_failures ctx)) @ ''). Last status: ''
            @ show_status (status tx) @ ''.''
      in case status tx of
           Pending \<Rightarrow> mark_as_failed E r tx reason
         | Sent \<Rightarrow>
             (if tx_nonce tx \<noteq> None
              then breaker_noop E r tx (reason
                     @ ''. Replacing with NOOP to clear nonce slot (Sent state with assigned nonce).'')
              else mark_as_failed E r tx reason)
         | Submitted \<Rightarrow> breaker_noop E r tx (reason @ ''. Replacing with NOOP to clear nonce slot.'')
         | _ \<Rightarrow> returnM tx)"

section \<open>The status handler\<close>

definition tx_is_noop :: "transaction_repo_model \<Rightarrow> bool" where
  "tx_is_noop tx = (case get_evm_transaction_data (network_data tx) of Inr d \<Rightarrow> is_noop d | Inl _ \<Rightarrow> False)"

definition has_reconcile_hint :: "status_check_context \<Rightarrow> bool" where
  "has_reconcile_hint ctx = (case sc_job_metadata ctx of
     Some m \<Rightarrow> map_of m TX_NONCE_RECONCILE_TRIGGER \<noteq> None | None \<Rightarrow> False)"

definition dispatch_status ::
  "evm_env \<Rightarrow> relayer_repo_model \<Rightarrow> transaction_repo_model \<Rightarrow> transaction_status \<Rightarrow> transaction_repo_model handler" where
  "dispatch_status E r tx s = (case s of
     Pending \<Rightarrow> handle_pending_state E r tx
   | Sent \<Rightarrow> handle_sent_state E r tx
   | Submitted \<Rightarrow> handle_submitted_state E r tx
   | Mined \<Rightarrow> handle_mined_state E r tx
   | Failed \<Rightarrow>
       (if status tx \<noteq> Failed
        then bindM (build_failed_status_reason E r tx) (\<lambda>reason. handle_final_state E r tx s (Some reason))
        else handle_final_state E r tx s None)
   | _ \<Rightarrow> handle_final_state E r tx s None)"

definition reload_if ::
  "evm_env \<Rightarrow> bool \<Rightarrow> transaction_repo_model \<Rightarrow> transaction_repo_model handler" where
  "reload_if E changed tx =
     (if changed then map_errM tx_error_of_repository_error (repoM E (get_by_id (tx_id tx))) else returnM tx)"

definition normal_status_flow ::
  "evm_env \<Rightarrow> relayer_repo_model \<Rightarrow> transaction_repo_model \<Rightarrow> transaction_repo_model handler" where
  "normal_status_flow E r tx =
     bindM (check_transaction_status E r tx) (\<lambda>s.
     bindM (reload_if E (s \<noteq> status tx) tx) (\<lambda>tx.
     bindM (askM (e_now E)) (\<lambda>now.
     bindM (liftR (is_too_early_to_resubmit E now tx)) (\<lambda>too_early.
       if too_early \<and> is_pending_transaction s then update_transaction_status_if_needed E r tx s None
       else dispatch_status E r tx s))))"

definition handle_status_impl ::
  "evm_env \<Rightarrow> relayer_repo_model \<Rightarrow> transaction_repo_model \<Rightarrow> status_check_context option \<Rightarrow>
   transaction_repo_model handler" where
  "handle_status_impl E r tx context =
     (if is_final_state (status tx) then returnM tx
      else case context of
             None \<Rightarrow> normal_status_flow E r tx
           | Some ctx \<Rightarrow>
               (if should_force_finalize ctx \<and> \<not> tx_is_noop tx then handle_circuit_breaker_safely E r tx ctx
                else if has_reconcile_hint ctx
                then bindM (attemptM (reconcile_tx_nonce_state E r tx)) (\<lambda>res. case res of
                       Inr (Some recovered_tx) \<Rightarrow> returnM recovered_tx
                     | _ \<Rightarrow> normal_status_flow E r tx)
                else normal_status_flow E r tx))"

section \<open>What the status handler keeps\<close>

lemma pres_modify_debounce: "preserves (touched w0 tx) (modifyM (\<lambda>w. w\<lparr> w_debounce := f w \<rparr>)) (\<lambda>_. True)"
  by (simp add: preserves_def valid_def modifyM_def touched_def)

lemma pres_debounce [handler_pres]:
  "preserves (touched w0 tx) (should_fire E key) (\<lambda>_. True)"
  "preserves (touched w0 tx) (clear_debounce key) (\<lambda>_. True)"
  unfolding should_fire_def clear_debounce_def
  by (rule pres touched_inv.pres_env pres_modify_debounce TrueI)+

lemma pres_gap_health [handler_pres]: "preserves (touched w0 tx) (schedule_gap_health E t) (\<lambda>_. True)"
  unfolding schedule_gap_health_def by (rule pres handler_pres TrueI)+

lemma occupancy_loop_state: "snd (occupancy_loop order rid ns acc R) = R"
  by (induction ns arbitrary: acc R) (auto simp: eff_defs find_by_nonce_def split: prod.splits sum.splits)

lemma pres_occupancy [handler_pres]:
  "preserves (touched w0 tx) (repoM E (get_nonce_occupancy order rid a b)) (\<lambda>_. True)"
proof -
  have "snd (get_nonce_occupancy order rid a b R) = R" for R
    by (simp add: get_nonce_occupancy_def occupancy_loop_state)
  then show ?thesis
    using touched_inv.tick_stable
    by (auto simp: preserves_def valid_def repoM_def split: option.splits prod.splits sum.splits)
      (metis snd_conv world.surjective world.update_convs(1))+
qed

lemma pres_detect_gap [handler_pres]: "preserves (touched w0 tx) (detect_nonce_gap_ahead E r t) (\<lambda>_. True)"
  unfolding detect_nonce_gap_ahead_def by (rule pres handler_pres touched_inv.pres_env TrueI)+

lemma pres_decisions [handler_pres]:
  "preserves (touched w0 tx) (should_resubmit E t) (\<lambda>_. status t = Submitted)"
  "preserves (touched w0 tx) (noop_for_block_gas_limit E d) (\<lambda>_. True)"
  unfolding should_resubmit_def noop_for_block_gas_limit_def Let_def thenM_def
  by (rule pres handler_pres touched_inv.pres_env TrueI | force)+

lemma pres_should_noop [handler_pres]: "preserves (touched w0 tx) (should_noop E t) (\<lambda>_. True)"
  unfolding should_noop_def noop_for_age_def by (rule pres handler_pres touched_inv.pres_env TrueI)+

lemma pres_revert_by_call [handler_pres]: "preserves (touched w0 tx) (revert_by_call E d h) (\<lambda>_. True)"
  unfolding revert_by_call_def by (rule pres touched_inv.pres_env TrueI)+

lemma pres_recover_revert [handler_pres]: "preserves (touched w0 tx) (recover_revert_data E t) (\<lambda>_. True)"
  unfolding recover_revert_data_def by (rule pres handler_pres touched_inv.pres_env TrueI)+

lemma pres_failed_reason [handler_pres]: "preserves (touched w0 tx) (build_failed_status_reason E r t) (\<lambda>_. True)"
  unfolding build_failed_status_reason_def by (rule pres handler_pres TrueI)+

text \<open>A snapshot of the transaction a handler works on: the stored one may have moved from it.\<close>

definition snapshot :: "transaction_repo_model \<Rightarrow> transaction_repo_model \<Rightarrow> bool" where
  "snapshot tx t \<longleftrightarrow> \<not> is_final_state (status tx) \<and> moves tx t \<and> tx_nonce t = tx_nonce tx"

lemma snapshot_self: "\<not> is_final_state (status tx) \<Longrightarrow> snapshot tx tx"
  by (simp add: snapshot_def)

lemma pres_update_if_needed [handler_pres]:
  assumes "snapshot tx t" "s \<in> set (status_next (status tx))"
  shows "preserves (touched w0 tx) (update_transaction_status_if_needed E r t s reason) (moves tx)"
  unfolding update_transaction_status_if_needed_def
proof (rule pres_if)
  show "preserves (touched w0 tx) (update_transaction_status E r t s reason) (moves tx)"
    by (rule pres_conseq, rule pres_update_transaction_status) (use assms in \<open>auto simp: snapshot_def moves_id\<close>)
qed (use assms in \<open>auto simp: snapshot_def intro: pres_return\<close>)

lemma pres_process_noop [handler_pres]:
  assumes "snapshot tx t"
  shows "preserves (touched w0 tx) (process_noop_transaction E r t reason) (\<lambda>t'. moves tx t' \<and> tx_is_noop t')"
  unfolding process_noop_transaction_def
  by (rule pres handler_pres pres_partial_update |
      use assms in \<open>force simp: snapshot_def moves_id updated_by_def tx_is_noop_def get_evm_transaction_data_def\<close>)+

lemma pres_handle_resubmission [handler_pres]:
  assumes "snapshot tx t"
  shows "preserves (touched w0 tx) (handle_resubmission E r t) (moves tx)"
proof -
  have "preserves (touched w0 tx) (noop_if E r t c) (moves tx)" for c
    unfolding noop_if_def
    by (rule pres_if, rule pres_conseq [OF pres_process_noop [OF assms]])
      (use assms in \<open>auto simp: snapshot_def intro: pres_return\<close>)
  then show ?thesis
    unfolding handle_resubmission_def by - (rule pres handler_pres | assumption)+
qed

lemma pres_state_handlers [handler_pres]:
  assumes "snapshot tx t"
  shows "Submitted \<in> set (status_next (status tx)) \<Longrightarrow>
           preserves (touched w0 tx) (handle_submitted_state E r t) (moves tx)"
    and "preserves (touched w0 tx) (handle_pending_state E r t) (moves tx)"
    and "Sent \<in> set (status_next (status tx)) \<Longrightarrow>
           preserves (touched w0 tx) (handle_sent_state E r t) (moves tx)"
    and "Mined \<in> set (status_next (status tx)) \<Longrightarrow>
           preserves (touched w0 tx) (handle_mined_state E r t) (moves tx)"
    and "s \<in> set (status_next (status tx)) \<Longrightarrow>
           preserves (touched w0 tx) (handle_final_state E r t s reason) (moves tx)"
proof -
  have t: "tx_id t = tx_id tx" "\<not> is_final_state (status tx)" "moves tx t" "tx_nonce t = tx_nonce tx"
    using assms by (auto simp: snapshot_def moves_id)
  show "preserves (touched w0 tx) (handle_submitted_state E r t) (moves tx)"
    if "Submitted \<in> set (status_next (status tx))"
    unfolding handle_submitted_state_def by (rule pres handler_pres assms that)+
  show "preserves (touched w0 tx) (handle_pending_state E r t) (moves tx)"
    unfolding handle_pending_state_def
    by (rule pres handler_pres pres_partial_update touched_inv.pres_env t |
        use t in \<open>force simp: update_ok_def updated_by_def failed_next\<close>)+
  show "preserves (touched w0 tx) (handle_sent_state E r t) (moves tx)"
    if "Sent \<in> set (status_next (status tx))"
    unfolding handle_sent_state_def
    by (rule pres handler_pres pres_partial_update touched_inv.pres_env t assms that |
        use t in \<open>force simp: updated_by_def\<close>)+
  show "preserves (touched w0 tx) (handle_mined_state E r t) (moves tx)"
    if "Mined \<in> set (status_next (status tx))"
    unfolding handle_mined_state_def by (rule handler_pres assms that)+
  show "preserves (touched w0 tx) (handle_final_state E r t s reason) (moves tx)"
    if "s \<in> set (status_next (status tx))"
    unfolding handle_final_state_def by (rule handler_pres assms that)+
qed

lemma pres_dispatch [handler_pres]:
  assumes "snapshot tx t" "s \<in> set (status_next (status tx))"
  shows "preserves (touched w0 tx) (dispatch_status E r t s) (moves tx)"
proof (cases s)
qed (use assms in \<open>auto simp: dispatch_status_def intro!: pres_state_handlers pres_bind [OF pres_failed_reason]\<close>)

lemma pres_corrected_hash [handler_pres]:
  assumes "\<not> is_final_state (status tx)" "nonce d = tx_nonce tx"
  shows "preserves (touched w0 tx) (update_transaction_with_corrected_hash E r tx d h Mined)
           (\<lambda>t. moves tx t \<and> status t = Mined)"
proof -
  have "Mined \<in> set (status_next (status tx))"
    using assms(1) by (cases "status tx") (auto simp: status_next_def)
  then show ?thesis
    unfolding update_transaction_with_corrected_hash_def
    by - (rule pres handler_pres pres_partial_update |
        use assms in \<open>force simp: update_ok_def updated_by_def\<close>)+
qed

lemma pres_recover [handler_pres]:
  assumes "\<not> is_final_state (status tx)" "nonce d = tx_nonce tx"
  shows "preserves (touched w0 tx) (try_recover_with_historical_hashes E r tx d)
           (\<lambda>res. \<forall>t. res = Some t \<longrightarrow> moves tx t \<and> status t = Mined)"
proof -
  have "preserves (touched w0 tx) (recover_loop E r tx d hs)
          (\<lambda>res. \<forall>t. res = Some t \<longrightarrow> moves tx t \<and> status t = Mined)" for hs
  proof (induction hs)
    case Nil
    then show ?case by (simp add: pres_return)
  next
    case (Cons h hs)
    show ?case
      unfolding recover_loop.simps
      by (rule pres handler_pres touched_inv.pres_env assms Cons.IH | force)+
  qed
  then show ?thesis by (simp add: try_recover_with_historical_hashes_def)
qed

lemma pres_mined_status [handler_pres]:
  "preserves (touched w0 tx) (mined_status E t d rc) (\<lambda>s. s \<in> {Mined, Confirmed, Failed, Canceled})"
  unfolding mined_status_def by (rule pres handler_pres touched_inv.pres_env | simp)+


lemma pres_check_status [handler_pres]:
  assumes "\<not> is_final_state (status tx)"
  shows "preserves (touched w0 tx) (check_transaction_status E r tx) (\<lambda>s. s \<in> set (status_next (status tx)))"
proof (cases "status tx = Pending \<or> status tx = Sent")
  case True
  then show ?thesis
    using assms by (auto simp: check_transaction_status_def intro!: pres_return)
next
  case False
  then have n: "{Mined, Confirmed, Failed, Canceled, Submitted} \<subseteq> set (status_next (status tx))"
    using assms by (cases "status tx") (auto simp: status_next_def)
  have due: "preserves (touched w0 tx) (recovery_due E tx) (\<lambda>_. True)"
    unfolding recovery_due_def
    by (rule pres touched_inv.pres_env TrueI | rule pres_conseq [OF pres_lift])+
  have rec: "preserves (touched w0 tx) (hash_recovery E r tx d) (\<lambda>s. s \<in> set (status_next (status tx)))"
    if "nonce d = tx_nonce tx" for d
    unfolding hash_recovery_def
    by (rule pres due pres_recover assms that | use n in \<open>force split: option.splits\<close>)+
  have "preserves (touched w0 tx) (mined_status E tx d rc) (\<lambda>s. s \<in> set (status_next (status tx)))" for d rc
    by (rule pres_conseq [OF pres_mined_status]) (use n in auto)
  then show ?thesis
    unfolding check_transaction_status_def
    using assms
    by - (rule pres touched_inv.pres_env rec | assumption | force simp: evm_data_nonce)+
qed

lemma pres_get_by_id [handler_pres]:
  assumes "\<not> is_final_state (status tx)"
  shows "preserves (touched w0 tx) (reload_if E b tx) (snapshot tx)"
  unfolding reload_if_def
  using assms touched_inv.tick_stable
  by (auto simp: preserves_def valid_def map_errM_def repoM_def get_by_id_def returnM_def touched_def snapshot_def
      split: option.splits prod.splits sum.splits)

lemma pres_normal_flow [handler_pres]:
  assumes "\<not> is_final_state (status tx)"
  shows "preserves (touched w0 tx) (normal_status_flow E r tx) (moves tx)"
  unfolding normal_status_flow_def
  by (rule pres handler_pres touched_inv.pres_env assms | assumption)+

lemma pres_mark_as_failed [handler_pres]:
  assumes "\<not> is_final_state (status tx)"
  shows "preserves (touched w0 tx) (mark_as_failed E r tx reason) (moves tx)"
  unfolding mark_as_failed_def
  by (rule pres handler_pres pres_partial_update |
      use assms in \<open>force simp: update_ok_def updated_by_def failed_next\<close>)+

lemma pres_breaker_noop [handler_pres]:
  assumes "\<not> is_final_state (status tx)"
  shows "preserves (touched w0 tx) (breaker_noop E r tx reason) (\<lambda>t. moves tx t \<and> tx_is_noop t)"
  unfolding breaker_noop_def
  by (rule pres handler_pres snapshot_self assms | force)+

lemma pres_breaker [handler_pres]:
  assumes "\<not> is_final_state (status tx)"
  shows "preserves (touched w0 tx) (handle_circuit_breaker_safely E r tx ctx) (moves tx)"
  unfolding handle_circuit_breaker_safely_def Let_def
  using pres_conseq [OF pres_breaker_noop [OF assms], of "moves tx"] pres_mark_as_failed [OF assms]
  by (auto intro: pres_return split: transaction_status.splits)

lemma pres_reconcile [handler_pres]:
  assumes "\<not> is_final_state (status tx)"
  shows "preserves (touched w0 tx) (reconcile_tx_nonce_state E r tx) (\<lambda>res. \<forall>t. res = Some t \<longrightarrow> moves tx t)"
proof -
  have cur: "preserves (touched w0 tx) (reconcile_current E d) (\<lambda>_. True)" for d
    unfolding reconcile_current_def by (rule pres touched_inv.pres_env TrueI)+
  have hist: "preserves (touched w0 tx) (reconcile_historical E r tx d) (\<lambda>res. \<forall>t. res = Inl t \<longrightarrow> moves tx t)"
    if "nonce d = tx_nonce tx" for d
    unfolding reconcile_historical_def
    by (rule pres pres_recover assms that | force split: sum.splits option.splits)+
  have nonce: "preserves (touched w0 tx) (reconcile_nonce E r tx n) (\<lambda>res. \<forall>t. res = Some t \<longrightarrow> moves tx t)" for n
    unfolding reconcile_nonce_def
    by (rule pres handler_pres touched_inv.pres_env failed_next assms refl | force)+
  show ?thesis
    unfolding reconcile_tx_nonce_state_def
    by (rule pres cur hist nonce | force simp: evm_data_nonce)+
qed

lemma pres_handle_status: "preserves (touched w0 tx) (handle_status_impl E r tx ctx) (moves tx)"
proof (cases "is_final_state (status tx)")
  case True
  then show ?thesis by (simp add: handle_status_impl_def pres_return)
next
  case False
  then show ?thesis
    unfolding handle_status_impl_def
    by - (rule pres handler_pres | assumption | simp)+
qed

section \<open>The status checker broadcasts nothing\<close>

context quiet_inv
begin

lemma quiet_debounce:
  "preserves J (modifyM (\<lambda>w. w\<lparr> w_debounce := f w \<rparr>)) (\<lambda>_. True)"
  by (simp add: preserves_def valid_def modifyM_def debounce_stable)

lemma quiet_fire:
  "preserves J (should_fire E key) (\<lambda>_. True)" "preserves J (clear_debounce key) (\<lambda>_. True)"
  unfolding should_fire_def clear_debounce_def by (rule pres pres_env quiet_debounce TrueI)+

lemma quiet_gap_health: "preserves J (schedule_gap_health E t) (\<lambda>_. True)"
  unfolding schedule_gap_health_def by (rule pres quiet quiet_fire TrueI)+

lemma quiet_gap: "preserves J (detect_nonce_gap_ahead E r t) (\<lambda>_. True)"
  unfolding detect_nonce_gap_ahead_def by (rule pres quiet quiet_gap_health TrueI)+

lemma quiet_decisions:
  "preserves J (should_resubmit E t) (\<lambda>_. True)" "preserves J (should_noop E t) (\<lambda>_. True)"
  unfolding should_resubmit_def should_noop_def noop_for_age_def noop_for_block_gas_limit_def Let_def
  by (rule pres quiet TrueI)+

lemma quiet_revert: "preserves J (revert_by_call E d h) (\<lambda>_. True)"
  unfolding revert_by_call_def by (rule pres quiet TrueI)+

lemma quiet_recover_revert: "preserves J (recover_revert_data E t) (\<lambda>_. True)"
  unfolding recover_revert_data_def by (rule pres quiet quiet_revert TrueI)+

lemma quiet_reason: "preserves J (build_failed_status_reason E r t) (\<lambda>_. True)"
  unfolding build_failed_status_reason_def by (rule pres quiet_recover_revert TrueI)+

lemma quiet_if_needed: "preserves J (update_transaction_status_if_needed E r t s reason) (\<lambda>_. True)"
  unfolding update_transaction_status_if_needed_def by (rule pres quiet TrueI)+

lemma quiet_process_noop: "preserves J (process_noop_transaction E r t reason) (\<lambda>_. True)"
  unfolding process_noop_transaction_def by (rule pres quiet TrueI)+

lemma quiet_noop_if: "preserves J (noop_if E r t c) (\<lambda>_. True)"
  unfolding noop_if_def by (rule pres quiet_process_noop TrueI)+

lemmas quiet_status = quiet quiet_gap quiet_decisions quiet_reason quiet_if_needed quiet_process_noop quiet_noop_if

lemma quiet_resubmission: "preserves J (handle_resubmission E r t) (\<lambda>_. True)"
  unfolding handle_resubmission_def by (rule pres quiet_status TrueI)+

lemma quiet_submitted_state: "preserves J (handle_submitted_state E r t) (\<lambda>_. True)"
  unfolding handle_submitted_state_def by (rule pres quiet_status quiet_resubmission TrueI)+

lemma quiet_pending_state: "preserves J (handle_pending_state E r t) (\<lambda>_. True)"
  unfolding handle_pending_state_def by (rule pres quiet_status TrueI)+

lemma quiet_sent_state: "preserves J (handle_sent_state E r t) (\<lambda>_. True)"
  unfolding handle_sent_state_def by (rule pres quiet_status TrueI)+

lemma quiet_closing_states:
  "preserves J (handle_mined_state E r t) (\<lambda>_. True)"
  "preserves J (handle_final_state E r t s reason) (\<lambda>_. True)"
  unfolding handle_mined_state_def handle_final_state_def by (rule pres quiet_status TrueI)+

lemmas quiet_states = quiet_submitted_state quiet_pending_state quiet_sent_state quiet_closing_states

lemma quiet_dispatch: "preserves J (dispatch_status E r t s) (\<lambda>_. True)"
  unfolding dispatch_status_def
  by (rule pres quiet_states quiet_reason TrueI | split transaction_status.split, intro conjI impI)+

lemma quiet_corrected_hash: "preserves J (update_transaction_with_corrected_hash E r t d h s) (\<lambda>_. True)"
  unfolding update_transaction_with_corrected_hash_def by (rule pres quiet TrueI)+

lemma quiet_recover_loop: "preserves J (recover_loop E r t d hs) (\<lambda>_. True)"
  by (induction hs) (simp only: recover_loop.simps, (rule pres quiet quiet_corrected_hash TrueI | assumption)+)+

lemma quiet_recover: "preserves J (try_recover_with_historical_hashes E r t d) (\<lambda>_. True)"
  unfolding try_recover_with_historical_hashes_def by (rule pres quiet_recover_loop TrueI)+

lemma quiet_lift: "preserves J (liftR r) (\<lambda>_. True)"
  by (rule pres_conseq [OF pres_lift]) simp

lemma quiet_due: "preserves J (recovery_due E t) (\<lambda>_. True)"
  unfolding recovery_due_def by (rule quiet_lift pres quiet TrueI)+

lemma quiet_check: "preserves J (check_transaction_status E r t) (\<lambda>_. True)"
  unfolding check_transaction_status_def mined_status_def hash_recovery_def
  by (rule pres quiet quiet_recover quiet_due TrueI)+

lemma quiet_reload: "preserves J (reload_if E b t) (\<lambda>_. True)"
  unfolding reload_if_def by (rule pres quiet TrueI)+

lemma quiet_normal_flow: "preserves J (normal_status_flow E r t) (\<lambda>_. True)"
  unfolding normal_status_flow_def by (rule pres quiet_status quiet_check quiet_reload quiet_dispatch TrueI)+

lemma quiet_reconcile_parts:
  "preserves J (reconcile_current E d) (\<lambda>_. True)" "preserves J (reconcile_historical E r t d) (\<lambda>_. True)"
  "preserves J (reconcile_nonce E r t n) (\<lambda>_. True)"
  unfolding reconcile_current_def reconcile_historical_def reconcile_nonce_def
  by (rule pres quiet quiet_recover TrueI)+

lemma quiet_reconcile: "preserves J (reconcile_tx_nonce_state E r t) (\<lambda>_. True)"
  unfolding reconcile_tx_nonce_state_def by (rule pres quiet_reconcile_parts TrueI)+

lemma quiet_breaker: "preserves J (handle_circuit_breaker_safely E r t ctx) (\<lambda>_. True)"
  unfolding handle_circuit_breaker_safely_def Let_def breaker_noop_def mark_as_failed_def
  by (rule pres quiet_status TrueI | split transaction_status.split, intro conjI impI)+

lemma quiet_handle_status: "preserves J (handle_status_impl E r t ctx) (\<lambda>_. True)"
  unfolding handle_status_impl_def by (rule pres quiet_breaker quiet_reconcile quiet_normal_flow TrueI)+

end

lemma unconditional_partial_update:
  "partial_updateM E i u w = (Inr t, w') \<Longrightarrow>
   \<exists>old now. t = apply_partial_update E now u old \<and> tx_lookup (w_repo w) i = Some old
     \<and> tx_lookup (w_repo w') i = Some t \<and> w_jobs w' = w_jobs w \<and> w_broadcasts w' = w_broadcasts w
     \<and> w_counter w' = w_counter w"
  by (auto simp: partial_updateM_def eff_defs askM_def repoM_def partial_update_def Let_def map_of_alist_update
      split: option.splits prod.splits sum.splits)

lemma corrected_hash_status:
  "update_transaction_with_corrected_hash E r tx d h s w = (Inr t, w') \<Longrightarrow> status t = s"
  by (auto simp: update_transaction_with_corrected_hash_def thenM_def ignoreM_def bindM_def returnM_def
      dest!: unconditional_partial_update split: prod.splits sum.splits)

lemma recover_loop_mined: "recover_loop E r tx d hs w = (Inr (Some t), w') \<Longrightarrow> status t = Mined"
  by (induction hs arbitrary: w)
    (auto simp: bindM_def returnM_def attemptM_def split: if_splits prod.splits sum.splits option.splits
      dest: corrected_hash_status)

lemma hash_recovery_status: "hash_recovery E r tx d w = (Inr s, w') \<Longrightarrow> s \<in> {Mined, Submitted}"
  by (auto simp: hash_recovery_def bindM_def returnM_def try_recover_with_historical_hashes_def
      split: if_splits prod.splits sum.splits option.splits dest!: recover_loop_mined)


definition ex_receipt :: evm_receipt where
  "ex_receipt = \<lparr> rc_status = True, rc_block_number = Some 98, rc_from = ''0xaa'', rc_to = Some ''0xbb'' \<rparr>"


lemma noop_request_result:
  assumes "network_data tx = Evm d" "prepare_noop_update_request E tx c reason w = (Inr u, w')"
  shows "w_repo w' = w_repo w \<and> w_jobs w' = w_jobs w \<and> w_broadcasts w' = w_broadcasts w
    \<and> w_counter w' = w_counter w
    \<and> (\<exists>d'. u = default_update \<lparr> up_network_data := Some (Evm d'),
          up_noop_count := Some ((case noop_count tx of Some n \<Rightarrow> n | None \<Rightarrow> 0) + 1),
          up_status_reason := reason, up_is_canceled := (if c then Some True else is_canceled tx) \<rparr>
          \<and> noop_of d d')"
  using assms
  by (auto simp: prepare_noop_update_request_def get_evm_transaction_data_def eff_defs network_by_chain_id_def
      callM_def make_noop_def Let_def noop_of_def is_noop_def DEFAULT_GAS_LIMIT_def ARBITRUM_GAS_LIMIT_def
      max_def split: sum.splits option.splits if_splits prod.splits)

lemma noop_request_error:
  "prepare_noop_update_request E tx c reason w = (Inl e, w') \<Longrightarrow> w_repo w' = w_repo w"
  by (auto simp: prepare_noop_update_request_def eff_defs network_by_chain_id_def callM_def make_noop_def Let_def
      split: sum.splits option.splits if_splits prod.splits)

lemma notification_state:
  "w_repo (snd (send_transaction_update_notification E r t w)) = w_repo w"
  "w_broadcasts (snd (send_transaction_update_notification E r t w)) = w_broadcasts w"
  "w_counter (snd (send_transaction_update_notification E r t w)) = w_counter w"
  "prefix (w_jobs w) (w_jobs (snd (send_transaction_update_notification E r t w)))"
  by (auto simp: send_transaction_update_notification_def produceM_def returnM_def split: option.splits)

lemma partial_update_error: "partial_updateM E i u w = (Inl e, w') \<Longrightarrow> w_repo w' = w_repo w"
  by (auto simp: partial_updateM_def eff_defs askM_def repoM_def partial_update_def Let_def
      split: option.splits prod.splits sum.splits)

text \<open>
  The NOOP replacement keeps the status, the nonce and the hash history, whatever the
  node, the storage and the queue answer.
\<close>

lemma process_noop_result:
  assumes "network_data tx = Evm d" "tx_lookup (w_repo w) (tx_id tx) = Some tx"
    and "process_noop_transaction E r tx reason w = (Inr t, w')"
  shows "tx_lookup (w_repo w') (tx_id tx) = Some t \<and> tx_is_noop t \<and> status t = status tx \<and> tx_id t = tx_id tx
    \<and> relayer_id t = relayer_id tx \<and> hashes t = hashes tx \<and> (\<exists>d'. network_data t = Evm d' \<and> noop_of d d')"
proof -
  obtain u w1 where u: "prepare_noop_update_request E tx False reason w = (Inr u, w1)"
    using assms(3) by (auto simp: process_noop_transaction_def bindM_def split: prod.splits sum.splits)
  note n = noop_request_result [OF assms(1) u]
  obtain t1 w2 where p: "partial_updateM E (tx_id tx) u w1 = (Inr t1, w2)"
    and t: "t = t1" "w' = snd (send_transaction_update_notification E r t1 w2)"
    using assms(3) u by (auto simp: process_noop_transaction_def thenM_def ignoreM_def returnM_def bindM_def
        split: prod.splits sum.splits)
  show ?thesis
    using unconditional_partial_update [OF p] n assms(2) t notification_state(1) [of E r t1 w2]
    by (auto simp: tx_is_noop_def get_evm_transaction_data_def noop_of_def)
qed

lemma process_noop_error:
  assumes "network_data tx = Evm d" "process_noop_transaction E r tx reason w = (Inl e, w')"
  shows "w_repo w' = w_repo w"
  using assms(2)
  by (auto simp: process_noop_transaction_def thenM_def ignoreM_def returnM_def bindM_def
      dest: noop_request_error split: prod.splits sum.splits)
    (auto dest!: noop_request_result [OF assms(1)] partial_update_error)

lemma resubmit_job_state:
  "send_transaction_resubmit_job E t w = (x, w') \<Longrightarrow> w_repo w' = w_repo w \<and> w_broadcasts w' = w_broadcasts w
     \<and> (x = Inr () \<longrightarrow> JSend (send_job Resubmit (tx_id t) (relayer_id t)) None \<in> set (w_jobs w'))"
  by (auto simp: send_transaction_resubmit_job_def send_transaction_job_def map_errM_def produceM_def
      split: option.splits)

text \<open>
  C10: The circuit breaker never fails a broadcast transaction. When the failure limits are
  exceeded for a submitted transaction that is not a NOOP, whatever the node, the storage
  and the queue answer, the stored transaction stays submitted with the same nonce and the
  same hashes; and if the handler succeeds it is stored as a NOOP for the same nonce and a
  resubmission is queued.
\<close>

theorem breaker_never_fails_submitted:
  assumes "status tx = Submitted" "network_data tx = Evm d" "\<not> is_noop d"
    and "tx_lookup (w_repo w) (tx_id tx) = Some tx" "should_force_finalize ctx"
    and "handle_status_impl E r tx (Some ctx) w = (res, w')"
  shows "(\<exists>t. tx_lookup (w_repo w') (tx_id tx) = Some t \<and> status t = Submitted
             \<and> tx_nonce t = nonce d \<and> hashes t = hashes tx)
    \<and> (\<forall>t. res = Inr t \<longrightarrow> tx_lookup (w_repo w') (tx_id tx) = Some t \<and> tx_is_noop t
             \<and> JSend (send_job Resubmit (tx_id tx) (relayer_id tx)) None \<in> set (w_jobs w'))"
proof -
  obtain reason where run: "breaker_noop E r tx reason w = (res, w')"
    using assms by (auto simp: handle_status_impl_def tx_is_noop_def get_evm_transaction_data_def
        handle_circuit_breaker_safely_def Let_def)
  show ?thesis
  proof (cases "process_noop_transaction E r tx (Some reason) w")
    case (Pair x w1)
    show ?thesis
    proof (cases x)
      case (Inl e)
      then show ?thesis
        using run Pair process_noop_error [OF assms(2)] assms
        by (auto simp: breaker_noop_def bindM_def tx_nonce_def)
    next
      case (Inr t)
      note n = process_noop_result [OF assms(2,4) Pair [unfolded Inr]]
      then show ?thesis
        using run Pair Inr assms(1)
        by (auto simp: breaker_noop_def bindM_def thenM_def returnM_def tx_nonce_def noop_of_def
            dest!: resubmit_job_state split: prod.splits sum.splits)
    qed
  qed
qed

definition ex_ctx :: status_check_context where
  "ex_ctx = \<lparr> sc_consecutive_failures = 15, sc_total_failures = 15, sc_total_retries = 15,
     sc_max_consecutive_failures = 10, sc_max_total_failures = 100, sc_network_type = NtEvm, sc_job_metadata = None \<rparr>"

lemma ex_tx_sel:
  "status ex_tx = Submitted" "network_data ex_tx = Evm ex_evm_data" "tx_id ex_tx = ''tx-1''" "hashes ex_tx = [''0x01'']"
  "relayer_id ex_tx = ''relayer''" "nonce ex_evm_data = Some 7" "\<not> is_noop ex_evm_data" "evm_raw ex_evm_data = Some [1, 2, 3]"
  "evm_hash ex_evm_data = Some ''0x01''" "chain_id ex_evm_data = 1"
  by (simp_all add: ex_tx_def ex_evm_data_def is_noop_def)

theorem breaker_never_fails_submitted_witness:
  "\<exists>t. tx_lookup (w_repo (snd (handle_status_impl ex_env ex_relayer ex_tx (Some ex_ctx) (ex_world ex_tx)))) ''tx-1''
         = Some t \<and> status t = Submitted \<and> tx_nonce t = Some 7"
proof -
  have "should_force_finalize ex_ctx"
    by (simp add: should_force_finalize_def ex_ctx_def)
  then show ?thesis
    using breaker_never_fails_submitted [OF ex_tx_sel(1,2,7) ex_world_sel(6) _ surjective_pairing,
        where ctx = ex_ctx and E = ex_env and r = ex_relayer]
    by (auto simp: ex_tx_sel)
qed

end
