(* ===== verification/Evm_Nonce.thy ===== *)
theory Evm_Nonce
  imports Evm_Transaction
begin

text \<open>
  Nonce management of the EVM relayer (\<open>domain/relayer/evm/nonce.rs\<close>): synchronising the
  counter with the chain, detecting and filling nonce gaps, and rewinding the counter over
  a region that no transaction uses. The settling pause between reading the counter and
  scanning the repository is time in which other handlers run; a run of this model is one
  in which none does.
\<close>

section \<open>Errors of the relayer\<close>

text \<open>The errors of signers and signer factories are carried as their text.\<close>

datatype relayer_error =
    RlNetworkConfiguration string
  | RlProviderError string
  | RlUnderlyingProvider provider_error
  | RlUnderlyingSolanaProvider solana_provider_error
  | RlQueueError string
  | RlSignerFactoryError string
  | RlSignerError string
  | RlNotSupported string
  | RlRelayerDisabled
  | RlRelayerPaused
  | RlTransactionSequenceError transaction_counter_error
  | RlInsufficientBalanceError string
  | RlInsufficientRelayerBalance string
  | RlPolicyConfigurationError string
  | RlInvalidDexName string
  | RlDexError string
  | RlValidationError string
  | RlInternal string

type_synonym 'a relayer_op = "(world, relayer_error, 'a) eff"

definition relayer_error_of_repository_error :: "repository_error \<Rightarrow> relayer_error" where
  "relayer_error_of_repository_error e = RlNetworkConfiguration (show_repository_error e)"

definition relayer_error_of_job_producer_error :: "string \<Rightarrow> relayer_error" where
  "relayer_error_of_job_producer_error m = RlQueueError (show_job_producer_error m)"

section \<open>Calls of the relayer\<close>

text \<open>A call of the counter service of the relayer.\<close>

definition serviceM ::
  "evm_env \<Rightarrow> relayer_repo_model \<Rightarrow> (string \<Rightarrow> string \<Rightarrow> 'a counter_op) \<Rightarrow> 'a relayer_op" where
  "serviceM E r call =
     map_errM (\<lambda>e. RlTransactionSequenceError (not_found_of e)) (counterM E (call (r_id r) (r_address r)))"

definition internalM :: "evm_env \<Rightarrow> 'a repo_op \<Rightarrow> 'a relayer_op" where
  "internalM E m = map_errM (\<lambda>e. RlInternal (show_repository_error e)) (repoM E m)"

definition get_on_chain_nonce :: "evm_env \<Rightarrow> relayer_repo_model \<Rightarrow> u64 relayer_op" where
  "get_on_chain_nonce E r =
     map_errM (\<lambda>e. RlProviderError (show_provider_error e)) (callM (\<lambda>t. e_transaction_count E t (r_address r)))"

definition sync_nonce :: "evm_env \<Rightarrow> relayer_repo_model \<Rightarrow> unit relayer_op" where
  "sync_nonce E r =
     bindM (get_on_chain_nonce E r) (\<lambda>on_chain_nonce.
     bindM (serviceM E r (\<lambda>i a. counter_sync_floor i a on_chain_nonce)) (\<lambda>effective. returnM ()))"

definition find_active_tx_for_nonce ::
  "evm_env \<Rightarrow> relayer_repo_model \<Rightarrow> u64 \<Rightarrow> transaction_repo_model option relayer_op" where
  "find_active_tx_for_nonce E r n =
     bindM (internalM E (find_by_nonce (e_values_order E) (r_id r) n)) (\<lambda>tx. returnM (case tx of
       Some t \<Rightarrow> if is_active_nonce_status (status t) then Some t else None
     | None \<Rightarrow> None))"

section \<open>Detecting gaps\<close>

definition highest_occupied :: "(u64 \<times> transaction_status option) list \<Rightarrow> u64 option" where
  "highest_occupied occupancy = map_option fst (find (\<lambda>(_, s). s \<noteq> None) (rev occupancy))"

definition gaps_below :: "(u64 \<times> transaction_status option) list \<Rightarrow> u64 list" where
  "gaps_below occupancy = (case highest_occupied occupancy of
     None \<Rightarrow> []
   | Some n \<Rightarrow>
       (let upper_bound = n + 1
        in map fst (filter (\<lambda>(m, s). m < upper_bound
             \<and> \<not> (case s of Some s \<Rightarrow> is_active_nonce_status s | None \<Rightarrow> False)) occupancy)))"

definition gap_scan_end :: "u64 \<Rightarrow> u64 option \<Rightarrow> u64" where
  "gap_scan_end on_chain_nonce nonce_hint =
     (let hint_end = (case nonce_hint of Some h \<Rightarrow> h + 1 | None \<Rightarrow> 0)
      in max (on_chain_nonce + MAX_GAP_SCAN_RANGE) hint_end)"

definition detect_nonce_gaps ::
  "evm_env \<Rightarrow> relayer_repo_model \<Rightarrow> u64 option \<Rightarrow> u64 option \<Rightarrow> u64 list relayer_op" where
  "detect_nonce_gaps E r on_chain nonce_hint =
     bindM (case on_chain of Some n \<Rightarrow> returnM n | None \<Rightarrow> get_on_chain_nonce E r) (\<lambda>on_chain_nonce.
     bindM (internalM E (get_nonce_occupancy (e_values_order E) (r_id r) on_chain_nonce
                           (gap_scan_end on_chain_nonce nonce_hint))) (\<lambda>occupancy.
       returnM (gaps_below occupancy)))"

section \<open>Rewinding the counter\<close>

definition MAX_REWIND_SCAN_RANGE :: u64 where "MAX_REWIND_SCAN_RANGE = 100000"
definition REWIND_SCAN_CHUNK :: u64 where "REWIND_SCAN_CHUNK = 1000"

text \<open>The scan of the chunks, top-down; each round ends below the one before.\<close>

definition rewind_chunk_start :: "u64 \<Rightarrow> u64 \<Rightarrow> u64" where
  "rewind_chunk_start on_chain_nonce chunk_end =
     max on_chain_nonce (saturating_sub chunk_end REWIND_SCAN_CHUNK)"

lemma rewind_chunk_start_less: "chunk_end > on_chain_nonce \<Longrightarrow> rewind_chunk_start on_chain_nonce chunk_end < chunk_end"
  by (auto simp: rewind_chunk_start_def word_less_nat_alt unat_saturating_sub REWIND_SCAN_CHUNK_def max_def
      word_le_nat_alt)

function rewind_scan :: "evm_env \<Rightarrow> relayer_repo_model \<Rightarrow> u64 \<Rightarrow> u64 \<Rightarrow> u64 option relayer_op" where
  "rewind_scan E r on_chain_nonce chunk_end =
     (if chunk_end > on_chain_nonce
      then bindM (internalM E (get_nonce_occupancy (e_values_order E) (r_id r)
                                 (rewind_chunk_start on_chain_nonce chunk_end) chunk_end)) (\<lambda>occupancy.
             case highest_occupied occupancy of
               Some n \<Rightarrow> returnM (Some n)
             | None \<Rightarrow> rewind_scan E r on_chain_nonce (rewind_chunk_start on_chain_nonce chunk_end))
      else returnM None)"
  by auto
termination
  by (relation "measure (\<lambda>(E, r, on_chain_nonce, chunk_end). unat chunk_end)")
    (use rewind_chunk_start_less in \<open>auto simp: word_less_nat_alt\<close>)

declare rewind_scan.simps [simp del]

definition rewind_target :: "u64 \<Rightarrow> u64 option \<Rightarrow> u64" where
  "rewind_target on_chain_nonce highest = (case highest of
     Some n \<Rightarrow> max on_chain_nonce (n + 1) | None \<Rightarrow> on_chain_nonce)"

definition try_rewind_counter :: "evm_env \<Rightarrow> relayer_repo_model \<Rightarrow> u64 \<Rightarrow> u64 \<Rightarrow> unit relayer_op" where
  "try_rewind_counter E r on_chain_nonce observed =
     (if observed \<le> on_chain_nonce then returnM ()
      else if observed - on_chain_nonce > MAX_REWIND_SCAN_RANGE then returnM ()
      else bindM (rewind_scan E r on_chain_nonce observed) (\<lambda>highest.
        if rewind_target on_chain_nonce highest \<ge> observed then returnM ()
        else bindM (serviceM E r (\<lambda>i a. counter_set_if_equals i a observed (rewind_target on_chain_nonce highest)))
               (\<lambda>applied. returnM ())))"

section \<open>Filling gaps\<close>

definition for_evm_network :: "string \<Rightarrow> string \<Rightarrow> evm_network \<Rightarrow> transaction_status_check" where
  "for_evm_network i rid network = (status_check_job i rid NtEvm)
     \<lparr> tsc_status_check_retry_delay_seconds := net_status_check_retry_delay_seconds network \<rparr>"

definition schedule_initial_status_check ::
  "evm_env \<Rightarrow> transaction_repo_model \<Rightarrow> evm_network \<Rightarrow> (world, string, unit) eff" where
  "schedule_initial_status_check E tx network =
     bindM (askM (e_now E)) (\<lambda>now.
       produceM E (JStatusCheck (for_evm_network (tx_id tx) (relayer_id tx) network)
         (Some (calculate_scheduled_timestamp now (sint (net_status_check_initial_delay_seconds network))))))"

definition relayer_network :: "evm_env \<Rightarrow> relayer_repo_model \<Rightarrow> evm_network relayer_op" where
  "relayer_network E r =
     bindM (map_errM relayer_error_of_repository_error (callM (\<lambda>t. e_network_by_name E t (r_network r)))) (\<lambda>model.
       case model of
         None \<Rightarrow> throwM (RlNetworkConfiguration (''Network '' @ r_network r @ '' not found''))
       | Some (Inl e) \<Rightarrow> throwM (RlNetworkConfiguration e)
       | Some (Inr network) \<Rightarrow> returnM network)"

definition blank_evm_data :: "relayer_repo_model \<Rightarrow> evm_network \<Rightarrow> evm_transaction_data" where
  "blank_evm_data r network = \<lparr> gas_price = None, gas_limit = None, nonce = None, evm_value = 0, evm_data = None,
     evm_from = r_address r, evm_to = None, chain_id = net_chain_id network, evm_hash = None,
     evm_signature_of = None, evm_speed = None, max_fee_per_gas = None, max_priority_fee_per_gas = None,
     evm_raw = None \<rparr>"

definition gap_filling_tx ::
  "relayer_repo_model \<Rightarrow> evm_transaction_data \<Rightarrow> u64 \<Rightarrow> string \<Rightarrow> string \<Rightarrow> transaction_repo_model" where
  "gap_filling_tx r d n now uuid = \<lparr> tx_id = uuid, relayer_id = r_id r, status = Pending,
     status_reason = Some (''Gap-filling NOOP for nonce '' @ show_nat (unat n)), created_at = now, sent_at = None,
     confirmed_at = None, valid_until = None, delete_at = None, network_data = Evm (d\<lparr> nonce := Some n \<rparr>),
     priced_at = None, hashes = [], tx_network_type = NtEvm, noop_count = Some 1, is_canceled = Some False,
     metadata = None \<rparr>"

text \<open>
  Both jobs are attempted. If neither could be queued the transaction is marked as failed,
  with an error of that update only logged, and the error of the request job is returned.
\<close>

definition queue_gap_filling ::
  "evm_env \<Rightarrow> transaction_repo_model \<Rightarrow> evm_network \<Rightarrow> transaction_repo_model relayer_op" where
  "queue_gap_filling E tx network =
     bindM (attemptM (produceM E (JRequest (request_job (tx_id tx) (relayer_id tx)) None))) (\<lambda>request_result.
     bindM (attemptM (schedule_initial_status_check E tx network)) (\<lambda>status_result.
       case (request_result, status_result) of
         (Inl request_err, Inl _) \<Rightarrow>
           thenM (ignoreM (partial_updateM E (tx_id tx) (default_update
                    \<lparr> up_status := Some Failed,
                      up_status_reason := Some ''Gap-filling NOOP could not be scheduled'' \<rparr>)))
             (throwM (relayer_error_of_job_producer_error request_err))
       | _ \<Rightarrow> returnM tx))"

text \<open>\<open>make_noop\<close> has an error type but returns no error, so the text of that error is left out.\<close>

definition create_gap_filling_noop ::
  "evm_env \<Rightarrow> relayer_repo_model \<Rightarrow> u64 \<Rightarrow> transaction_repo_model relayer_op" where
  "create_gap_filling_noop E r n =
     bindM (relayer_network E r) (\<lambda>evm_network.
     bindM (map_errM (\<lambda>_. RlInternal ''Failed to create NOOP data'')
              (make_noop E evm_network True (blank_evm_data r evm_network))) (\<lambda>d.
     bindM (now_rfc3339 E) (\<lambda>now.
     bindM (askM (e_uuid E)) (\<lambda>uuid.
     bindM (internalM E (create (gap_filling_tx r d n now uuid))) (\<lambda>_.
       queue_gap_filling E (gap_filling_tx r d n now uuid) evm_network)))))"

fun fill_gaps :: "evm_env \<Rightarrow> relayer_repo_model \<Rightarrow> u64 list \<Rightarrow> nat \<Rightarrow> nat relayer_op" where
  "fill_gaps E r [] filled = returnM filled"
| "fill_gaps E r (n # ns) filled =
     bindM (find_active_tx_for_nonce E r n) (\<lambda>active. case active of
       Some _ \<Rightarrow> fill_gaps E r ns filled
     | None \<Rightarrow>
         bindM (attemptM (create_gap_filling_noop E r n)) (\<lambda>created. case created of
           Inr _ \<Rightarrow> fill_gaps E r ns (filled + 1)
         | Inl _ \<Rightarrow> fill_gaps E r ns filled))"

definition cover_hint :: "evm_env \<Rightarrow> relayer_repo_model \<Rightarrow> u64 option \<Rightarrow> unit relayer_op" where
  "cover_hint E r nonce_hint = (case nonce_hint of
     None \<Rightarrow> returnM ()
   | Some hint \<Rightarrow> bindM (serviceM E r (\<lambda>i a. counter_sync_floor i a (hint + 1))) (\<lambda>effective. returnM ()))"

definition resolve_nonce_gaps :: "evm_env \<Rightarrow> relayer_repo_model \<Rightarrow> u64 option \<Rightarrow> nat relayer_op" where
  "resolve_nonce_gaps E r nonce_hint =
     bindM (serviceM E r counter_get) (\<lambda>current.
     let observed = (case current of Some n \<Rightarrow> n | None \<Rightarrow> 0)
     in thenM (cover_hint E r nonce_hint)
        (bindM (get_on_chain_nonce E r) (\<lambda>on_chain_nonce.
         bindM (serviceM E r (\<lambda>i a. counter_sync_floor i a on_chain_nonce)) (\<lambda>effective.
         thenM (try_rewind_counter E r on_chain_nonce observed)
         (bindM (detect_nonce_gaps E r (Some on_chain_nonce) nonce_hint) (\<lambda>gaps.
           if gaps = [] then returnM 0 else fill_gaps E r gaps 0))))))"

section \<open>The health action\<close>

text \<open>
  What the locks of \<open>handle_health_action\<close> answer: the distributed lock counts if the
  server runs in distributed mode and the repository has connection info, the in-process
  lock otherwise.
\<close>

record health_locks =
  distributed_mode :: bool
  has_connection_info :: bool
  try_acquire :: "string + bool"
  try_lock_owned :: bool

definition health_lock_taken :: "health_locks \<Rightarrow> bool" where
  "health_lock_taken L =
     (if distributed_mode L \<and> has_connection_info L then try_acquire L = Inr True else try_lock_owned L)"

text \<open>\<open>str::parse::<u64>\<close>: an optional plus sign and at least one digit, below two to the 64.\<close>

definition digit_of :: "char \<Rightarrow> nat option" where
  "digit_of c = (let k = of_char c :: nat in if 48 \<le> k \<and> k \<le> 57 then Some (k - 48) else None)"

fun digits_value :: "nat \<Rightarrow> string \<Rightarrow> nat option" where
  "digits_value acc [] = Some acc"
| "digits_value acc (c # cs) = (case digit_of c of None \<Rightarrow> None | Some k \<Rightarrow> digits_value (10 * acc + k) cs)"

definition parse_u64 :: "string \<Rightarrow> u64 option" where
  "parse_u64 s =
     (let s = (case s of CHR ''+'' # cs \<Rightarrow> cs | _ \<Rightarrow> s)
      in if s = [] then None
         else case digits_value 0 s of
                Some v \<Rightarrow> if v < 2 ^ 64 then Some (of_nat v) else None
              | None \<Rightarrow> None)"

definition nonce_hint_of :: "job_metadata \<Rightarrow> u64 option" where
  "nonce_hint_of m = Option.bind (map_of m HEALTH_CHECK_NONCE_HINT_KEY) parse_u64"

definition handle_health_action ::
  "evm_env \<Rightarrow> health_locks \<Rightarrow> relayer_repo_model \<Rightarrow> job_metadata \<Rightarrow> bool relayer_op" where
  "handle_health_action E L r m = (case map_of m HEALTH_CHECK_ACTION_KEY of
     None \<Rightarrow> returnM False
   | Some action \<Rightarrow>
       (if action = HEALTH_CHECK_ACTION_NONCE_HEALTH
        then (if health_lock_taken L
              then bindM (resolve_nonce_gaps E r (nonce_hint_of m)) (\<lambda>filled. returnM True)
              else returnM True)
        else returnM False))"

section \<open>Scans of the repository\<close>

text \<open>The status of the first transaction of the relayer that the repository reports for a nonce.\<close>

definition slot :: "values_order \<Rightarrow> string \<Rightarrow> tx_repo \<Rightarrow> u64 \<Rightarrow> transaction_status option" where
  "slot order rid R n = map_option status
     (case filter (has_nonce rid n) (store_values order R) of [] \<Rightarrow> None | tx # _ \<Rightarrow> Some tx)"

text \<open>A permuting iteration order, which is all the hash map promises.\<close>

definition permuting :: "values_order \<Rightarrow> bool" where
  "permuting order \<longleftrightarrow> (\<forall>xs. mset (order xs) = mset xs)"

definition nonce_used :: "string \<Rightarrow> tx_repo \<Rightarrow> u64 \<Rightarrow> bool" where
  "nonce_used rid R n \<longleftrightarrow> (\<exists>tx \<in> snd ` set (store R). has_nonce rid n tx)"

lemma occupancy_slots:
  "get_nonce_occupancy order rid a b R = (Inr (map (\<lambda>n. (n, slot order rid R n)) (nonce_range a b)), R)"
  by (simp add: get_nonce_occupancy_def occupancy_loop_eq slot_def)

lemma slot_None: "permuting order \<Longrightarrow> slot order rid R n = None \<longleftrightarrow> \<not> nonce_used rid R n"
proof -
  assume "permuting order"
  then have "set (store_values order R) = snd ` set (store R)"
    by (simp add: permuting_def set_store_values)
  moreover have "slot order rid R n = None \<longleftrightarrow> filter (has_nonce rid n) (store_values order R) = []"
    by (simp add: slot_def split: list.split)
  ultimately show ?thesis
    by (simp add: filter_empty_conv nonce_used_def)
qed

lemma sorted_nonce_range: "sorted_wrt (<) (nonce_range a b)"
proof -
  have "sorted_wrt (<) (map (of_nat :: nat \<Rightarrow> u64) [i ..< j])" if "j \<le> 2 ^ 64" for i j
    unfolding sorted_wrt_map
    by (rule sorted_wrt_mono_rel [OF _ sorted_wrt_upt])
      (use that in \<open>auto simp: word_less_nat_alt unsigned_of_nat take_bit_nat_eq_self\<close>)
  then show ?thesis
    using unat_le_max [of b] by (auto simp: nonce_range_def)
qed

lemma find_rev_sorted:
  "sorted_wrt (<) xs \<Longrightarrow> find P (rev xs) = Some x \<longleftrightarrow> x \<in> set xs \<and> P x \<and> (\<forall>y \<in> set xs. x < y \<longrightarrow> \<not> P y)"
  for xs :: "'a::linorder list"
  by (induction xs rule: rev_induct) (auto simp: sorted_wrt_append)

lemma highest_occupied_map: "highest_occupied (map (\<lambda>n. (n, f n)) ns) = find (\<lambda>n. f n \<noteq> None) (rev ns)"
  by (induction ns rule: rev_induct) (auto simp: highest_occupied_def)

lemma highest_occupied_Some:
  "highest_occupied (map (\<lambda>n. (n, f n)) (nonce_range a b)) = Some m \<longleftrightarrow>
     a \<le> m \<and> m < b \<and> f m \<noteq> None \<and> (\<forall>k. m < k \<and> k < b \<longrightarrow> f k = None)"
  by (auto simp: highest_occupied_map find_rev_sorted [OF sorted_nonce_range] set_nonce_range)

lemma highest_occupied_None:
  "highest_occupied (map (\<lambda>n. (n, f n)) (nonce_range a b)) = None \<longleftrightarrow> (\<forall>n. a \<le> n \<and> n < b \<longrightarrow> f n = None)"
  by (auto simp: highest_occupied_map find_None_iff set_nonce_range)

lemma internal_occupancy:
  "internalM E (get_nonce_occupancy order rid a b) w = (res, w') \<Longrightarrow>
   w' = w\<lparr> w_tick := Suc (w_tick w) \<rparr>
   \<and> (\<forall>occ. res = Inr occ \<longrightarrow> occ = map (\<lambda>n. (n, slot order rid (w_repo w) n)) (nonce_range a b))"
  by (auto simp: internalM_def map_errM_def repoM_def occupancy_slots split: option.splits)

section \<open>The rewind\<close>

text \<open>What a scan of a region says: its highest used nonce, or that no nonce of it is used.\<close>

definition scan_result :: "(u64 \<Rightarrow> bool) \<Rightarrow> u64 \<Rightarrow> u64 \<Rightarrow> u64 option \<Rightarrow> bool" where
  "scan_result used lo hi h = (case h of
     None \<Rightarrow> \<forall>n. lo \<le> n \<and> n < hi \<longrightarrow> \<not> used n
   | Some m \<Rightarrow> lo \<le> m \<and> m < hi \<and> used m \<and> (\<forall>n. m < n \<and> n < hi \<longrightarrow> \<not> used n))"

lemma scan_extend:
  assumes "scan_result used lo mid h" "\<forall>n. mid \<le> n \<and> n < hi \<longrightarrow> \<not> used n" "mid < hi"
  shows "scan_result used lo hi h"
  using assms by (auto simp: scan_result_def not_less split: option.splits) (metis leI)+

lemma rewind_scan_result:
  assumes "permuting (e_values_order E)" "rewind_scan E r lo hi w = (res, w')"
  shows "w_repo w' = w_repo w \<and> w_counter w' = w_counter w
     \<and> (\<forall>h. res = Inr h \<longrightarrow> scan_result (nonce_used (r_id r) (w_repo w)) lo hi h)"
  using assms
proof (induction E r lo hi arbitrary: w res w' rule: rewind_scan.induct)
  case (1 E r lo hi)
  show ?case
  proof (cases "hi > lo")
    case False
    then show ?thesis
      using "1.prems"(2) by (subst (asm) rewind_scan.simps) (auto simp: returnM_def scan_result_def)
  next
    case True
    let ?mid = "rewind_chunk_start lo hi"
    obtain x w1 where x: "internalM E (get_nonce_occupancy (e_values_order E) (r_id r) ?mid hi) w = (x, w1)"
      by fastforce
    note o = internal_occupancy [OF x]
    note none = slot_None [OF "1.prems"(1)]
    show ?thesis
    proof (cases x)
      case (Inl e)
      then show ?thesis
        using "1.prems"(2) True x o by (subst (asm) rewind_scan.simps) (auto simp: bindM_def)
    next
      case (Inr occ)
      show ?thesis
      proof (cases "highest_occupied occ")
        case None
        have run: "rewind_scan E r lo ?mid w1 = (res, w')"
          using "1.prems"(2) True x Inr None by (subst (asm) rewind_scan.simps) (auto simp: bindM_def)
        show ?thesis
          using "1.IH" [OF True None "1.prems"(1) run] None Inr o rewind_chunk_start_less [OF True]
          by (auto simp: highest_occupied_None none intro: scan_extend)
      next
        case (Some m)
        have "res = Inr (Some m)" "w' = w1"
          using "1.prems"(2) True x Inr Some
          by (subst (asm) rewind_scan.simps, simp add: bindM_def returnM_def)+
        then show ?thesis
          using o Inr Some
          by (auto simp: highest_occupied_Some none scan_result_def rewind_chunk_start_def)
      qed
    qed
  qed
qed


text \<open>
  The counter after a rewind attempt: as before, or lowered from the observed value to a
  value \<open>v\<close> such that no nonce from \<open>v\<close> to the observed value is used.
\<close>

definition rewound :: "relayer_repo_model \<Rightarrow> u64 \<Rightarrow> u64 \<Rightarrow> world \<Rightarrow> world \<Rightarrow> bool" where
  "rewound r on_chain observed w w' \<longleftrightarrow> w_repo w' = w_repo w \<and>
     (w_counter w' = w_counter w \<or>
      (\<exists>v. w_counter w (r_id r, r_address r) = Some observed
         \<and> w_counter w' = (w_counter w)((r_id r, r_address r) \<mapsto> v)
         \<and> on_chain \<le> v \<and> v < observed \<and> observed - on_chain \<le> MAX_REWIND_SCAN_RANGE
         \<and> (\<forall>n. v \<le> n \<and> n < observed \<longrightarrow> \<not> nonce_used (r_id r) (w_repo w) n)
         \<and> (v = on_chain \<or> nonce_used (r_id r) (w_repo w) (v - 1))))"

lemma rewind_target_result:
  assumes "scan_result used lo hi h" "rewind_target lo h < hi"
  shows "lo \<le> rewind_target lo h \<and> (\<forall>n. rewind_target lo h \<le> n \<and> n < hi \<longrightarrow> \<not> used n)
     \<and> (rewind_target lo h = lo \<or> used (rewind_target lo h - 1))"
proof (cases h)
  case (Some m)
  then have m: "lo \<le> m" "m < hi" "used m" "\<forall>n. m < n \<and> n < hi \<longrightarrow> \<not> used n"
    using assms(1) by (auto simp: scan_result_def)
  have s: "unat (m + 1) = Suc (unat m)"
    using m(2) unat_le_max [of hi] by (simp add: word_less_nat_alt unat_word_ariths take_bit_nat_eq_self)
  have "rewind_target lo h = m + 1"
    using Some m s by (simp add: rewind_target_def max_def word_le_nat_alt)
  then show ?thesis
    using m s by (auto simp: word_le_nat_alt word_less_nat_alt)
qed (use assms in \<open>auto simp: scan_result_def rewind_target_def\<close>)

lemma try_rewind_rewound:
  assumes "permuting (e_values_order E)" "try_rewind_counter E r on_chain observed w = (res, w')"
  shows "rewound r on_chain observed w w'"
proof (cases "observed \<le> on_chain \<or> observed - on_chain > MAX_REWIND_SCAN_RANGE")
  case True
  then show ?thesis
    using assms(2) by (auto simp: try_rewind_counter_def returnM_def rewound_def split: if_splits)
next
  case False
  obtain x w1 where x: "rewind_scan E r on_chain observed w = (x, w1)"
    by fastforce
  note s = rewind_scan_result [OF assms(1) x]
  show ?thesis
  proof (cases "\<exists>h. x = Inr h \<and> rewind_target on_chain h < observed")
    case True
    then obtain h where h: "x = Inr h" "rewind_target on_chain h < observed"
      by blast
    have "scan_result (nonce_used (r_id r) (w_repo w)) on_chain observed h"
      using s h by blast
    note t = rewind_target_result [OF this h(2)]
    show ?thesis
      using assms(2) x h s t False
      by (auto simp: try_rewind_counter_def bindM_def returnM_def serviceM_def map_errM_def counterM_def
          counter_set_if_equals_def rewound_def split: option.splits if_splits)
  next
    case noop: False
    then show ?thesis
      using assms(2) x s False
      by (cases x) (auto simp: try_rewind_counter_def bindM_def returnM_def rewound_def split: if_splits)
  qed
qed

section \<open>The gaps\<close>

definition active_slot :: "transaction_status option \<Rightarrow> bool" where
  "active_slot s = (case s of Some s \<Rightarrow> is_active_nonce_status s | None \<Rightarrow> False)"

lemma gaps_below_range:
  "gaps_below (map (\<lambda>n. (n, f n)) (nonce_range a b)) =
     filter (\<lambda>n. (\<exists>m. n \<le> m \<and> m < b \<and> f m \<noteq> None) \<and> \<not> active_slot (f n)) (nonce_range a b)"
proof (cases "highest_occupied (map (\<lambda>n. (n, f n)) (nonce_range a b))")
  case None
  then have none: "f n = None" if "a \<le> n" "n < b" for n
    using that by (simp add: highest_occupied_None)
  have "filter (\<lambda>n. (\<exists>m. n \<le> m \<and> m < b \<and> f m \<noteq> None) \<and> \<not> active_slot (f n)) (nonce_range a b) = []"
    using none by (auto simp: filter_empty_conv set_nonce_range)
  then show ?thesis using None by (simp add: gaps_below_def)
next
  case (Some h)
  note h = Some [unfolded highest_occupied_Some]
  have "n < h + 1 \<longleftrightarrow> (\<exists>m. n \<le> m \<and> m < b \<and> f m \<noteq> None)" if "n \<in> set (nonce_range a b)" for n
  proof -
    have "unat (h + 1) = Suc (unat h)"
      using h unat_le_max [of b] by (simp add: word_less_nat_alt unat_word_ariths take_bit_nat_eq_self)
    then have "n < h + 1 \<longleftrightarrow> n \<le> h"
      by (simp add: word_less_nat_alt word_le_nat_alt less_Suc_eq_le)
    moreover have "n \<le> h" if "n \<le> m" "m < b" "f m \<noteq> None" for m
      using that h by (meson not_le order_trans)
    ultimately show ?thesis
      using h by blast
  qed
  then show ?thesis
    using Some by (simp add: gaps_below_def comp_def filter_map active_slot_def cong: filter_cong)
qed

text \<open>The gaps of a scan up to \<open>e\<close>: no active record, and a used nonce at or above.\<close>

definition gaps_of :: "values_order \<Rightarrow> string \<Rightarrow> tx_repo \<Rightarrow> u64 \<Rightarrow> u64 \<Rightarrow> u64 list" where
  "gaps_of order rid R a e = filter (\<lambda>n. (\<exists>m. n \<le> m \<and> m < e \<and> slot order rid R m \<noteq> None)
     \<and> \<not> active_slot (slot order rid R n)) (nonce_range a e)"

lemma distinct_gaps_of: "distinct (gaps_of order rid R a e)"
proof -
  have "distinct (nonce_range a e)"
    using sorted_nonce_range [of a e] by (metis strict_sorted_iff)
  then show ?thesis
    by (simp add: gaps_of_def)
qed

lemma detect_gaps_result:
  assumes "detect_nonce_gaps E r (Some on_chain) hint w = (res, w')"
  shows "w' = w\<lparr> w_tick := Suc (w_tick w) \<rparr> \<and>
    (\<forall>gaps. res = Inr gaps \<longrightarrow> gaps = gaps_of (e_values_order E) (r_id r) (w_repo w) on_chain (gap_scan_end on_chain hint))"
proof (cases "internalM E (get_nonce_occupancy (e_values_order E) (r_id r) on_chain (gap_scan_end on_chain hint)) w")
  case (Pair x w1)
  then show ?thesis
    using assms internal_occupancy [OF Pair]
    by (cases x) (auto simp: detect_nonce_gaps_def bindM_returnM bindM_def returnM_def gaps_below_range gaps_of_def)
qed

text \<open>At most one transaction of the relayer is stored for a nonce.\<close>

definition nonce_single :: "string \<Rightarrow> tx_repo \<Rightarrow> u64 \<Rightarrow> bool" where
  "nonce_single rid R n \<longleftrightarrow> (\<forall>t \<in> snd ` set (store R). \<forall>t' \<in> snd ` set (store R).
     has_nonce rid n t \<and> has_nonce rid n t' \<longrightarrow> t = t')"

definition active_nonce :: "string \<Rightarrow> tx_repo \<Rightarrow> u64 \<Rightarrow> bool" where
  "active_nonce rid R n \<longleftrightarrow> (\<exists>t \<in> snd ` set (store R). has_nonce rid n t \<and> is_active_nonce_status (status t))"

lemma active_slot_single:
  assumes "permuting order" "nonce_single rid R n"
  shows "active_slot (slot order rid R n) \<longleftrightarrow> active_nonce rid R n"
proof -
  have v: "set (store_values order R) = snd ` set (store R)"
    using assms(1) by (simp add: permuting_def set_store_values)
  show ?thesis
  proof (cases "filter (has_nonce rid n) (store_values order R)")
    case Nil
    then show ?thesis
      by (auto simp: slot_def active_slot_def active_nonce_def filter_empty_conv v)
  next
    case (Cons t ts)
    then have "t \<in> set (filter (has_nonce rid n) (store_values order R))"
      by simp
    then have t: "t \<in> snd ` set (store R)" "has_nonce rid n t"
      by (auto simp: v)
    moreover have "t' = t" if "t' \<in> snd ` set (store R)" "has_nonce rid n t'" for t'
      using assms(2) t that unfolding nonce_single_def by metis
    ultimately have "active_nonce rid R n \<longleftrightarrow> is_active_nonce_status (status t)"
      unfolding active_nonce_def by metis
    then show ?thesis
      by (simp add: slot_def active_slot_def Cons)
  qed
qed

section \<open>The health run and the other components\<close>

context quiet_inv
begin

lemma quiet_service: "preserves J (serviceM E r call) (\<lambda>_. True)"
  unfolding serviceM_def by (rule pres quiet)+

lemma quiet_internal: "repo_quiet m \<Longrightarrow> preserves J (internalM E m) (\<lambda>_. True)"
  unfolding internalM_def by (rule pres quiet_repo)+

lemma quiet_on_chain: "preserves J (get_on_chain_nonce E r) (\<lambda>_. True)"
  unfolding get_on_chain_nonce_def by (rule pres_conseq [OF pres_map_err [OF pres_call]]) simp

lemmas quiet_nonce = quiet_service quiet_internal quiet_on_chain

lemma quiet_sync_nonce: "preserves J (sync_nonce E r) (\<lambda>_. True)"
  unfolding sync_nonce_def by (rule pres quiet_nonce TrueI)+

lemma quiet_find_active: "preserves J (find_active_tx_for_nonce E r n) (\<lambda>_. True)"
  unfolding find_active_tx_for_nonce_def by (rule pres quiet_nonce repo_quiet_ops TrueI)+

lemma quiet_detect_gaps: "preserves J (detect_nonce_gaps E r on_chain hint) (\<lambda>_. True)"
  unfolding detect_nonce_gaps_def by (rule pres quiet_nonce repo_quiet_ops TrueI)+

lemma quiet_rewind_scan: "preserves J (rewind_scan E r lo hi) (\<lambda>_. True)"
proof (induction E r lo hi rule: rewind_scan.induct)
  case (1 E r lo hi)
  show ?case
    by (subst rewind_scan.simps) (rule pres quiet_nonce repo_quiet_ops "1.IH" TrueI | assumption)+
qed

lemma quiet_rewind: "preserves J (try_rewind_counter E r on_chain observed) (\<lambda>_. True)"
  unfolding try_rewind_counter_def by (rule pres quiet_nonce quiet_rewind_scan TrueI)+

lemma quiet_initial_check: "preserves J (schedule_initial_status_check E t network) (\<lambda>_. True)"
  unfolding schedule_initial_status_check_def by (rule pres quiet TrueI)+

lemma quiet_relayer_network: "preserves J (relayer_network E r) (\<lambda>_. True)"
  unfolding relayer_network_def by (rule pres quiet TrueI)+

lemma quiet_queue_gap: "preserves J (queue_gap_filling E t network) (\<lambda>_. True)"
  unfolding queue_gap_filling_def by (rule pres quiet quiet_initial_check TrueI)+

lemma quiet_create_gap: "preserves J (create_gap_filling_noop E r n) (\<lambda>_. True)"
  unfolding create_gap_filling_noop_def
  by (rule pres quiet quiet_nonce quiet_relayer_network pres_make_noop quiet_queue_gap TrueI)+

lemma quiet_fill: "preserves J (fill_gaps E r ns k) (\<lambda>_. True)"
proof (induction ns arbitrary: k)
  case (Cons n ns)
  show ?case
    unfolding fill_gaps.simps by (rule pres quiet_find_active quiet_create_gap Cons.IH TrueI)+
qed (simp add: pres_return)

lemma quiet_cover_hint: "preserves J (cover_hint E r hint) (\<lambda>_. True)"
  unfolding cover_hint_def by (rule pres quiet_nonce TrueI)+

lemma quiet_resolve: "preserves J (resolve_nonce_gaps E r hint) (\<lambda>_. True)"
  unfolding resolve_nonce_gaps_def
  by (rule pres quiet_nonce quiet_cover_hint quiet_rewind quiet_detect_gaps quiet_fill TrueI)+

lemma quiet_health_action: "preserves J (handle_health_action E L r m) (\<lambda>_. True)"
  unfolding handle_health_action_def by (rule pres quiet_resolve TrueI)+

end

section \<open>What filling adds\<close>

text \<open>A record the filling of a gap leaves: a pending NOOP, or a failed one if no job could be queued.\<close>

definition gap_record :: "relayer_repo_model \<Rightarrow> u64 \<Rightarrow> transaction_repo_model \<Rightarrow> bool" where
  "gap_record r n t \<longleftrightarrow> relayer_id t = r_id r \<and> status t \<in> {Pending, Failed}
     \<and> (\<exists>d. network_data t = Evm d \<and> is_noop d \<and> nonce d = Some n)"

definition same_txs :: "world \<Rightarrow> world \<Rightarrow> bool" where
  "same_txs w0 w \<longleftrightarrow> tx_lookup (w_repo w) = tx_lookup (w_repo w0) \<and> w_counter w = w_counter w0"

definition noop_stored :: "relayer_repo_model \<Rightarrow> u64 \<Rightarrow> world \<Rightarrow> string \<Rightarrow> world \<Rightarrow> bool" where
  "noop_stored r n w0 i w \<longleftrightarrow> w_counter w = w_counter w0 \<and> tx_lookup (w_repo w0) i = None
     \<and> (\<exists>t. gap_record r n t \<and> tx_lookup (w_repo w) = (tx_lookup (w_repo w0))(i \<mapsto> t))"

interpretation same_txs_inv: world_inv "same_txs w0" for w0
  by unfold_locales (auto simp: same_txs_def)

interpretation noop_stored_inv: world_inv "noop_stored r n w0 i" for r n w0 i
  by unfold_locales (auto simp: noop_stored_def)

lemma gap_record_failed:
  "gap_record r n t \<Longrightarrow> up_status u = Some Failed \<Longrightarrow> up_network_data u = None \<Longrightarrow>
   gap_record r n (apply_partial_update C now u t)"
  by (simp add: gap_record_def)

lemma noop_stored_step:
  assumes "noop_stored r n w0 i w" "partial_update C now i u (w_repo w) = (res, R)"
    and "up_status u = Some Failed" "up_network_data u = None"
  shows "noop_stored r n w0 i (w\<lparr> w_repo := R, w_tick := k \<rparr>)"
proof -
  obtain t where t: "gap_record r n t" "tx_lookup (w_repo w) = (tx_lookup (w_repo w0))(i \<mapsto> t)"
    and f: "w_counter w = w_counter w0" "tx_lookup (w_repo w0) i = None"
    using assms(1) by (auto simp: noop_stored_def)
  have "R = (w_repo w)\<lparr> store := AList.update i (apply_partial_update C now u t) (store (w_repo w)) \<rparr>"
    using assms(2) t(2) by (simp add: partial_update_def Let_def)
  then have "tx_lookup R = (tx_lookup (w_repo w0))(i \<mapsto> apply_partial_update C now u t)"
    using t(2) by (simp add: map_of_alist_update)
  then show ?thesis
    using f gap_record_failed [OF t(1) assms(3,4)] by (auto simp: noop_stored_def)
qed

lemma noop_stored_update:
  assumes "up_status u = Some Failed" "up_network_data u = None"
  shows "preserves (noop_stored r n w0 i) (partial_updateM E i u) (\<lambda>_. True)"
  unfolding partial_updateM_def
proof (rule pres_bind [OF noop_stored_inv.pres_ask], rule pres_map_err)
  fix now
  show "preserves (noop_stored r n w0 i) (repoM E (partial_update E now i u)) (\<lambda>_. True)"
    by (auto simp: preserves_def valid_def repoM_def noop_stored_inv.tick_stable
        split: option.splits prod.splits sum.splits dest: noop_stored_step [OF _ _ assms])
qed

lemma queue_gap_stored: "preserves (noop_stored r n w0 (tx_id t)) (queue_gap_filling E t network) (\<lambda>_. True)"
  unfolding queue_gap_filling_def schedule_initial_status_check_def
  by (rule pres noop_stored_inv.pres_env noop_stored_update TrueI | simp)+

lemma create_gap_stored:
  assumes "is_noop d" "relayer_id t = r_id r" "status t = Pending" "network_data t = Evm (d\<lparr> nonce := Some n \<rparr>)"
  shows "valid (same_txs w0) (internalM E (create t)) (\<lambda>_. noop_stored r n w0 (tx_id t)) (\<lambda>_. same_txs w0)"
proof -
  have "gap_record r n t"
    using assms by (auto simp: gap_record_def is_noop_def)
  then show ?thesis
    by (auto simp: valid_def internalM_def map_errM_def repoM_def create_def same_txs_def noop_stored_def
        map_of_alist_update split: option.splits prod.splits sum.splits if_splits)
qed

definition noop_added :: "relayer_repo_model \<Rightarrow> u64 \<Rightarrow> world \<Rightarrow> world \<Rightarrow> bool" where
  "noop_added r n w0 w \<longleftrightarrow> same_txs w0 w \<or> (\<exists>i. noop_stored r n w0 i w)"

lemma noop_prefix:
  assumes "preserves (same_txs w0) m V"
  shows "valid (same_txs w0) m (\<lambda>x w. same_txs w0 w \<and> V x) (\<lambda>_. noop_added r n w0)"
  by (rule valid_conseq [OF assms [unfolded preserves_def]]) (auto simp: noop_added_def)

lemma noop_suffix:
  assumes "preserves (noop_stored r n w0 i) m V"
  shows "valid (noop_stored r n w0 i) m (\<lambda>_. noop_added r n w0) (\<lambda>_. noop_added r n w0)"
  by (rule valid_conseq [OF assms [unfolded preserves_def]]) (auto simp: noop_added_def)

lemma same_txs_network: "preserves (same_txs w0) (relayer_network E r) (\<lambda>_. True)"
  unfolding relayer_network_def by (rule pres same_txs_inv.pres_env TrueI)+

lemma create_gap_added: "valid (same_txs w0) (create_gap_filling_noop E r n) (\<lambda>_. noop_added r n w0) (\<lambda>_. noop_added r n w0)"
  unfolding create_gap_filling_noop_def
  apply (rule valid_bind [OF noop_prefix [OF same_txs_network]], rule valid_fact)
  apply (rule valid_bind [OF noop_prefix [OF pres_map_err [OF same_txs_inv.pres_make_noop]]], rule valid_fact)
  apply (rule valid_bind [OF noop_prefix [OF same_txs_inv.pres_now]], rule valid_fact)
  apply (rule valid_bind [OF noop_prefix [OF same_txs_inv.pres_ask]], rule valid_fact)
  subgoal premises prems for network d now uuid
  proof (rule valid_bind)
    let ?t = "gap_filling_tx r d n now uuid"
    have "is_noop d"
      using prems by (simp add: noop_of_def)
    then show "valid (same_txs w0) (internalM E (create ?t)) (\<lambda>_. noop_stored r n w0 (tx_id ?t)) (\<lambda>_. noop_added r n w0)"
      by (intro valid_conseq [OF create_gap_stored]) (auto simp: gap_filling_tx_def noop_added_def)
    show "valid (noop_stored r n w0 (tx_id ?t)) (queue_gap_filling E ?t network)
        (\<lambda>_. noop_added r n w0) (\<lambda>_. noop_added r n w0)"
      by (rule noop_suffix [OF queue_gap_stored])
  qed
  done

section \<open>No second active transaction for a nonce\<close>

definition active_unique :: "string \<Rightarrow> tx_repo \<Rightarrow> bool" where
  "active_unique rid R \<longleftrightarrow> (\<forall>i j ti tj n. tx_lookup R i = Some ti \<and> tx_lookup R j = Some tj
     \<and> has_nonce rid n ti \<and> has_nonce rid n tj
     \<and> is_active_nonce_status (status ti) \<and> is_active_nonce_status (status tj) \<longrightarrow> i = j)"

lemma values_lookup: "repo_wf R \<Longrightarrow> snd ` set (store R) = ran (tx_lookup R)"
  by (simp add: repo_wf_def ran_distinct)

lemma gap_record_nonce: "gap_record r n t \<Longrightarrow> has_nonce (r_id r) m t \<longleftrightarrow> m = n"
  by (auto simp: gap_record_def has_nonce_def)

text \<open>The transactions stored before stay as they are, and every new one fills one of the gaps.\<close>

definition only_fills :: "relayer_repo_model \<Rightarrow> u64 set \<Rightarrow> world \<Rightarrow> world \<Rightarrow> bool" where
  "only_fills r N w w' \<longleftrightarrow> w_counter w' = w_counter w
     \<and> (\<forall>i t. tx_lookup (w_repo w) i = Some t \<longrightarrow> tx_lookup (w_repo w') i = Some t)
     \<and> (\<forall>i t. tx_lookup (w_repo w') i = Some t \<and> tx_lookup (w_repo w) i = None \<longrightarrow> (\<exists>n \<in> N. gap_record r n t))"

lemma only_fills_refl: "only_fills r N w w"
  by (auto simp: only_fills_def)

lemma only_fills_mono: "only_fills r N w w' \<Longrightarrow> N \<subseteq> N' \<Longrightarrow> only_fills r N' w w'"
  unfolding only_fills_def by blast

lemma only_fills_trans: "only_fills r N w w' \<Longrightarrow> only_fills r N w' w'' \<Longrightarrow> only_fills r N w w''"
  unfolding only_fills_def by (metis option.exhaust)

lemma noop_added_fills: "noop_added r n w w' \<Longrightarrow> only_fills r {n} w w'"
  by (auto simp: noop_added_def noop_stored_def same_txs_def only_fills_def split: if_splits)

lemma noop_added_cases:
  assumes "noop_added r n w w'"
  obtains (same) "tx_lookup (w_repo w') = tx_lookup (w_repo w)"
  | (added) i t where "tx_lookup (w_repo w) i = None" "gap_record r n t"
      "tx_lookup (w_repo w') = (tx_lookup (w_repo w))(i \<mapsto> t)"
  using assms by (auto simp: noop_added_def noop_stored_def same_txs_def)

lemma noop_added_unique:
  assumes "noop_added r n w w'" "repo_wf (w_repo w)" "active_unique (r_id r) (w_repo w)"
    and "\<not> active_nonce (r_id r) (w_repo w) n"
  shows "active_unique (r_id r) (w_repo w')"
  using assms(1)
proof (cases rule: noop_added_cases)
  case same
  then show ?thesis using assms(3) by (simp add: active_unique_def)
next
  case (added i t)
  have old: "\<not> is_active_nonce_status (status t')"
    if "tx_lookup (w_repo w) j = Some t'" "has_nonce (r_id r) n t'" for j t'
    using assms(4) that values_lookup [OF assms(2)] by (auto simp: active_nonce_def ran_def)
  show ?thesis
    using assms(3) added gap_record_nonce [OF added(2)] old
    by (auto simp: active_unique_def)
qed

lemma noop_added_single:
  assumes "noop_added r n w w'" "repo_wf (w_repo w)" "repo_wf (w_repo w')" "m \<noteq> n"
    and "nonce_single (r_id r) (w_repo w) m"
  shows "nonce_single (r_id r) (w_repo w') m"
  using assms(1)
proof (cases rule: noop_added_cases)
  case same
  then show ?thesis
    using assms(5) by (simp add: nonce_single_def values_lookup assms(2,3))
next
  case (added i t)
  then have "ran (tx_lookup (w_repo w')) = insert t (ran (tx_lookup (w_repo w)))"
    by simp
  then show ?thesis
    using assms(4,5) gap_record_nonce [OF added(2)] by (auto simp: nonce_single_def values_lookup assms(2,3))
qed

lemma find_active_result:
  assumes "find_active_tx_for_nonce E r n w = (x, w1)"
  shows "w1 = w\<lparr> w_tick := Suc (w_tick w) \<rparr>
    \<and> (x = Inr None \<longrightarrow> \<not> active_slot (slot (e_values_order E) (r_id r) (w_repo w) n))"
  using assms
  by (auto simp: find_active_tx_for_nonce_def internalM_def eff_defs repoM_def find_by_nonce_def slot_def
      active_slot_def split: option.splits list.splits if_splits)

lemma create_gap_run:
  assumes "create_gap_filling_noop E r n w = (x, w')" "repo_wf (w_repo w)"
  shows "noop_added r n w w' \<and> repo_wf (w_repo w')"
proof -
  have "same_txs w w"
    by (simp add: same_txs_def)
  then have "noop_added r n w w'"
    using create_gap_added [of w E r n] assms(1) by (auto simp: valid_def split: sum.splits)
  then show ?thesis
    using pres_snd [OF wf_inv.quiet_create_gap assms(2), of E r n] assms(1) by simp
qed

lemma fill_gaps_fills:
  assumes "fill_gaps E r ns k w = (res, w')"
  shows "only_fills r (set ns) w w'"
  using assms
proof (induction ns arbitrary: k w)
  case Nil
  then show ?case by (simp add: returnM_def only_fills_refl)
next
  case (Cons n ns)
  obtain x w1 where f: "find_active_tx_for_nonce E r n w = (x, w1)"
    by fastforce
  have w1: "only_fills r (set (n # ns)) w w1"
    using find_active_result [OF f] by (auto simp: only_fills_def)
  obtain y w2 where c: "create_gap_filling_noop E r n w1 = (y, w2)"
    by fastforce
  have "same_txs w1 w1"
    by (simp add: same_txs_def)
  then have "noop_added r n w1 w2"
    using create_gap_added [of w1 E r n] c by (auto simp: valid_def split: sum.splits)
  then have w2: "only_fills r (set (n # ns)) w1 w2"
    by (rule only_fills_mono [OF noop_added_fills]) simp
  have "w' = w1 \<or> (\<exists>k'. fill_gaps E r ns k' w1 = (res, w')) \<or> (\<exists>k'. fill_gaps E r ns k' w2 = (res, w'))"
    using Cons.prems f c
    by (auto simp: bindM_def attemptM_def split: sum.splits option.splits)
  then show ?case
    using w1 only_fills_trans [OF w1 w2] only_fills_mono [OF Cons.IH, of _ _ "set (n # ns)"]
    by (auto intro: only_fills_trans)
qed

lemma fill_gaps_unique:
  assumes "fill_gaps E r ns k w = (res, w')" "permuting (e_values_order E)" "repo_wf (w_repo w)"
    and "active_unique (r_id r) (w_repo w)" "distinct ns" "\<forall>n \<in> set ns. nonce_single (r_id r) (w_repo w) n"
  shows "active_unique (r_id r) (w_repo w')"
  using assms
proof (induction ns arbitrary: k w)
  case Nil
  then show ?case by (simp add: returnM_def)
next
  case (Cons n ns)
  obtain x w1 where f: "find_active_tx_for_nonce E r n w = (x, w1)"
    by fastforce
  note r1 = find_active_result [OF f]
  show ?case
  proof (cases "x = Inr None")
    case False
    then have "w' = w1 \<or> (\<exists>k'. fill_gaps E r ns k' w1 = (res, w'))"
      using Cons.prems(1) f by (auto simp: bindM_def split: sum.splits option.splits)
    then show ?thesis
      using Cons.prems Cons.IH r1 by auto
  next
    case True
    obtain y w2 where c: "create_gap_filling_noop E r n w1 = (y, w2)"
      by fastforce
    have wf1: "repo_wf (w_repo w1)"
      using r1 Cons.prems by simp
    note a = create_gap_run [OF c wf1]
    have free: "\<not> active_nonce (r_id r) (w_repo w1) n"
      using r1 True Cons.prems active_slot_single [OF Cons.prems(2), of "r_id r" "w_repo w" n] by simp
    have "\<exists>k'. fill_gaps E r ns k' w2 = (res, w')"
      using Cons.prems(1) f c True by (auto simp: bindM_def attemptM_def split: sum.splits)
    moreover have "active_unique (r_id r) (w_repo w2)"
      using noop_added_unique [OF _ wf1 _ free] a r1 Cons.prems by simp
    moreover have "\<forall>m \<in> set ns. nonce_single (r_id r) (w_repo w2) m"
    proof
      fix m assume m: "m \<in> set ns"
      then have "m \<noteq> n" "nonce_single (r_id r) (w_repo w1) m"
        using Cons.prems r1 by auto
      then show "nonce_single (r_id r) (w_repo w2) m"
        using noop_added_single [of r n w1 w2 m] a wf1 by blast
    qed
    ultimately show ?thesis
      using Cons.IH Cons.prems a by auto
  qed
qed

section \<open>The run as a whole\<close>

definition counter_covers :: "relayer_repo_model \<Rightarrow> world \<Rightarrow> bool" where
  "counter_covers r w \<longleftrightarrow> (\<forall>n. nonce_used (r_id r) (w_repo w) n \<longrightarrow> n < next_counter r w)"

text \<open>The states before the first gap is filled: only the counter of the relayer has changed.\<close>

definition covered :: "relayer_repo_model \<Rightarrow> world \<Rightarrow> world \<Rightarrow> bool" where
  "covered r w0 w \<longleftrightarrow> w_repo w = w_repo w0 \<and> counter_covers r w"

interpretation covered_inv: world_inv "covered r w0" for r w0
  by unfold_locales (auto simp: covered_def counter_covers_def next_counter_def)

lemma covered_get: "preserves (covered r w0) (serviceM E r counter_get) (\<lambda>_. True)"
  by (auto simp: preserves_def valid_def serviceM_def map_errM_def counterM_def counter_get_def
      covered_def counter_covers_def next_counter_def split: option.splits)

lemma covered_raise: "preserves (covered r w0) (serviceM E r (\<lambda>i a. counter_sync_floor i a f)) (\<lambda>_. True)"
proof -
  have "n < (case Some (if (case c of None \<Rightarrow> f | Some m \<Rightarrow> m) < f then f else (case c of None \<Rightarrow> f | Some m \<Rightarrow> m)) of
          Some k \<Rightarrow> k | None \<Rightarrow> 0)" if "n < (case c of Some k \<Rightarrow> k | None \<Rightarrow> 0)" for c :: "u64 option" and n
    using that by (cases c) (auto simp: word_less_nat_alt)
  then show ?thesis
    by (auto simp: preserves_def valid_def serviceM_def map_errM_def counterM_def counter_sync_floor_def Let_def
        covered_def counter_covers_def next_counter_def split: option.splits)
qed

lemma covered_rewind:
  assumes "permuting (e_values_order E)"
  shows "preserves (covered r w0) (try_rewind_counter E r on_chain observed) (\<lambda>_. True)"
proof -
  have "covered r w0 w'" if "try_rewind_counter E r on_chain observed w = (x, w')" "covered r w0 w" for w x w'
    using try_rewind_rewound [OF assms that(1)] that(2)
    by (auto simp: rewound_def covered_def counter_covers_def next_counter_def) (meson not_le)+
  then show ?thesis
    by (auto simp: preserves_def valid_def split: prod.splits sum.splits)
qed

lemma covered_on_chain: "preserves (covered r w0) (get_on_chain_nonce E r) (\<lambda>_. True)"
  unfolding get_on_chain_nonce_def by (rule pres_conseq [OF pres_map_err [OF covered_inv.pres_call]]) simp

lemma covered_hint: "preserves (covered r w0) (cover_hint E r hint) (\<lambda>_. True)"
  unfolding cover_hint_def by (rule pres covered_raise TrueI)+

lemma covered_detect:
  assumes "permuting (e_values_order E)"
  shows "preserves (covered r w0) (detect_nonce_gaps E r (Some on_chain) hint)
    (\<lambda>gaps. gaps = gaps_of (e_values_order E) (r_id r) (w_repo w0) on_chain (gap_scan_end on_chain hint))"
proof -
  have "covered r w0 w' \<and> (\<forall>gaps. x = Inr gaps \<longrightarrow>
      gaps = gaps_of (e_values_order E) (r_id r) (w_repo w0) on_chain (gap_scan_end on_chain hint))"
    if "detect_nonce_gaps E r (Some on_chain) hint w = (x, w')" "covered r w0 w" for w x w'
    using detect_gaps_result [OF that(1)] that(2) covered_inv.tick_stable by (auto simp: covered_def)
  then show ?thesis
    by (auto simp: preserves_def valid_def split: prod.splits sum.splits)
qed

text \<open>
  The outcome of a health run: every recorded nonce is below the counter, no two active
  transactions share a nonce, what was stored is as before, and what is new is the NOOP
  of a gap.
\<close>

definition health_done :: "relayer_repo_model \<Rightarrow> world \<Rightarrow> world \<Rightarrow> bool" where
  "health_done r w0 w \<longleftrightarrow> counter_covers r w \<and> active_unique (r_id r) (w_repo w)
     \<and> (\<forall>i t. tx_lookup (w_repo w0) i = Some t \<longrightarrow> tx_lookup (w_repo w) i = Some t)
     \<and> (\<forall>i t. tx_lookup (w_repo w) i = Some t \<and> tx_lookup (w_repo w0) i = None \<longrightarrow> (\<exists>n. gap_record r n t))"

lemma gap_below_counter:
  assumes "permuting order" "counter_covers r w" "n \<in> set (gaps_of order (r_id r) (w_repo w) a e)"
  shows "n < next_counter r w"
proof -
  obtain m where "n \<le> m" "nonce_used (r_id r) (w_repo w) m"
    using assms(3) by (auto simp: gaps_of_def slot_None [OF assms(1)])
  then show ?thesis
    using assms(2) by (meson counter_covers_def order_le_less_trans)
qed

lemma fill_done:
  assumes "permuting (e_values_order E)" "repo_wf (w_repo w0)" "active_unique (r_id r) (w_repo w0)"
    and "\<forall>n. nonce_single (r_id r) (w_repo w0) n"
    and "gaps = gaps_of (e_values_order E) (r_id r) (w_repo w0) a e"
    and "covered r w0 w" "fill_gaps E r gaps k w = (res, w')"
  shows "health_done r w0 w'"
proof -
  have repo: "w_repo w = w_repo w0" and cov: "counter_covers r w"
    using assms(6) by (auto simp: covered_def)
  have wf: "repo_wf (w_repo w)" "repo_wf (w_repo w')"
    using pres_snd [OF wf_inv.quiet_fill, of w E r gaps k] assms(2,7) repo by auto
  note fills = fill_gaps_fills [OF assms(7)]
  have unique: "active_unique (r_id r) (w_repo w')"
    using fill_gaps_unique [OF assms(7,1)] assms(3,4,5) wf(1) repo distinct_gaps_of by simp
  have counter: "next_counter r w' = next_counter r w"
    using fills by (simp add: only_fills_def next_counter_def)
  have "n < next_counter r w" if l: "tx_lookup (w_repo w') i = Some t" and h: "has_nonce (r_id r) n t" for n i t
  proof (cases "tx_lookup (w_repo w) i")
    case None
    then obtain m where "m \<in> set gaps" "gap_record r m t"
      using fills l unfolding only_fills_def by blast
    then show ?thesis
      using h gap_record_nonce gap_below_counter [OF assms(1) cov] assms(5) repo by auto
  next
    case (Some t')
    then have "t' = t"
      using fills l by (auto simp: only_fills_def)
    then show ?thesis
      using cov h Some values_lookup [OF wf(1)] by (auto simp: counter_covers_def nonce_used_def ran_def)
  qed
  then have "counter_covers r w'"
    using counter values_lookup [OF wf(2)] by (auto simp: counter_covers_def nonce_used_def ran_def)
  then show ?thesis
    using unique fills unfolding health_done_def only_fills_def repo by blast
qed

lemma health_prefix:
  assumes "preserves (covered r w0) m V" "active_unique (r_id r) (w_repo w0)"
  shows "valid (covered r w0) m (\<lambda>x w. covered r w0 w \<and> V x) (\<lambda>_. health_done r w0)"
  by (rule valid_conseq [OF assms(1) [unfolded preserves_def]])
    (use assms(2) in \<open>auto simp: health_done_def covered_def\<close>)

lemma resolve_done:
  assumes "permuting (e_values_order E)" "repo_wf (w_repo w0)" "active_unique (r_id r) (w_repo w0)"
    and "\<forall>n. nonce_single (r_id r) (w_repo w0) n"
  shows "valid (covered r w0) (resolve_nonce_gaps E r hint) (\<lambda>_. health_done r w0) (\<lambda>_. health_done r w0)"
  unfolding resolve_nonce_gaps_def Let_def thenM_def
  apply (rule valid_bind [OF health_prefix [OF covered_get assms(3)]], rule valid_fact)
  apply (rule valid_bind [OF health_prefix [OF covered_hint assms(3)]], rule valid_fact)
  apply (rule valid_bind [OF health_prefix [OF covered_on_chain assms(3)]], rule valid_fact)
  apply (rule valid_bind [OF health_prefix [OF covered_raise assms(3)]], rule valid_fact)
  apply (rule valid_bind [OF health_prefix [OF covered_rewind [OF assms(1)] assms(3)]], rule valid_fact)
  apply (rule valid_bind [OF health_prefix [OF covered_detect [OF assms(1)] assms(3)]], rule valid_fact)
  apply (rule valid_if)
   apply (rule valid_return, use assms(3) in \<open>auto simp: health_done_def covered_def\<close>)[1]
  apply (rule validI; rule fill_done [OF assms]; simp)
  done

section \<open>Properties\<close>

text \<open>
  C25: A rewind of the nonce counter is safe. Whatever the storage answers, an attempt to
  rewind leaves the repository as it is and either leaves every counter as it is or
  lowers the relayer's counter from exactly the observed value to the least value above
  which, up to the observed value, no stored transaction of the relayer has a nonce; it
  never goes below the nonce of the chain and never over a region wider than the limit.
\<close>

theorem rewind_over_unused_only:
  assumes "\<And>xs. mset (e_values_order E xs) = mset xs"
    and "try_rewind_counter E r on_chain observed w = (res, w')"
  shows "w_repo w' = w_repo w \<and> (w_counter w' = w_counter w \<or>
      (\<exists>v. w_counter w (r_id r, r_address r) = Some observed
         \<and> w_counter w' = (w_counter w)((r_id r, r_address r) \<mapsto> v)
         \<and> on_chain \<le> v \<and> v < observed \<and> observed - on_chain \<le> MAX_REWIND_SCAN_RANGE
         \<and> (\<forall>n tx. v \<le> n \<and> n < observed \<and> tx \<in> snd ` set (store (w_repo w)) \<longrightarrow> \<not> has_nonce (r_id r) n tx)
         \<and> (v = on_chain \<or> (\<exists>tx \<in> snd ` set (store (w_repo w)). has_nonce (r_id r) (v - 1) tx))))"
proof -
  have "permuting (e_values_order E)"
    using assms(1) by (simp add: permuting_def)
  then show ?thesis
    using try_rewind_rewound [OF _ assms(2)] unfolding rewound_def nonce_used_def by blast
qed



section \<open>Witnesses\<close>

lemma ex_env_order: "mset (e_values_order ex_env xs) = mset xs"
  by (simp add: ex_env_def)

lemma ex_single: "nonce_single rid (w_repo (ex_world tx)) n"
  by (simp add: nonce_single_def)

theorem rewind_over_unused_only_witness:
  "w_repo (snd (try_rewind_counter ex_env ex_relayer 5 8 (ex_world ex_tx))) = w_repo (ex_world ex_tx)"
  using rewind_over_unused_only [OF ex_env_order surjective_pairing, of ex_relayer 5 8 "ex_world ex_tx"] by blast


lemma ex_tx_nonce: "has_nonce rid n ex_tx \<longleftrightarrow> rid = ''relayer'' \<and> n = 7"
  by (auto simp: has_nonce_def ex_tx_def ex_evm_data_def)

lemma ex_covers: "counter_covers ex_relayer (ex_world ex_tx)"
  by (auto simp: counter_covers_def nonce_used_def ex_tx_nonce next_counter_def)

lemma ex_world_wf: "repo_wf (w_repo (ex_world tx))"
  by (simp add: repo_wf_def)


section \<open>The nonce hint\<close>

lemma digit_of_char: "k < 10 \<Longrightarrow> digit_of (char_of (48 + k)) = Some k"
  by (simp add: digit_of_def)

lemma digits_value_append:
  "digits_value acc (s @ [c]) = Option.bind (digits_value acc s) (\<lambda>v. map_option (\<lambda>k. 10 * v + k) (digit_of c))"
  by (induction acc s rule: digits_value.induct) (auto split: option.splits)

lemma show_nat_not_empty: "show_nat n \<noteq> []"
  by (subst show_nat.simps) simp

lemma digits_value_show_nat: "digits_value 0 (show_nat n) = Some n"
proof (induction n rule: show_nat.induct)
  case (1 n)
  show ?case
  proof (cases "n < 10")
    case True
    then show ?thesis by (subst show_nat.simps) (simp add: digit_of_char)
  next
    case False
    then show ?thesis
      using 1 by (subst show_nat.simps) (simp add: digits_value_append digit_of_char)
  qed
qed

lemma show_nat_no_plus: "show_nat n \<noteq> CHR ''+'' # cs"
proof
  assume "show_nat n = CHR ''+'' # cs"
  then have "digits_value 0 (show_nat n) = None"
    by (simp add: digit_of_def)
  then show False by (simp add: digits_value_show_nat)
qed

lemma parse_u64_show_nat: "parse_u64 (show_nat (unat n)) = Some n"
proof -
  have "(case show_nat (unat n) of CHR ''+'' # cs \<Rightarrow> cs | _ \<Rightarrow> show_nat (unat n)) = show_nat (unat n)"
    using show_nat_no_plus [of "unat n"] by (auto split: list.splits char.splits bool.splits)
  then show ?thesis
    using unsigned_less [of n] by (simp add: parse_u64_def Let_def show_nat_not_empty digits_value_show_nat)
qed

text \<open>
  C31: The nonce hint survives the queue: the health check job that a handler builds with a
  nonce makes the health action recognise the action and read back exactly that nonce.
\<close>

theorem nonce_hint_roundtrip:
  "\<exists>m. rhc_metadata (nonce_health_with_hint rid n) = Some m
     \<and> map_of m HEALTH_CHECK_ACTION_KEY = Some HEALTH_CHECK_ACTION_NONCE_HEALTH \<and> nonce_hint_of m = Some n"
  by (simp add: nonce_health_with_hint_def nonce_health_def nonce_hint_of_def HEALTH_CHECK_ACTION_KEY_def
      HEALTH_CHECK_NONCE_HINT_KEY_def parse_u64_show_nat)

section \<open>A gap filled twice\<close>

text \<open>The state after a first health run: the failed transaction and the NOOP that fills its nonce.\<close>

definition ex_failed_tx :: transaction_repo_model where
  "ex_failed_tx = ex_tx\<lparr> status := Failed \<rparr>"

definition ex_filling_tx :: transaction_repo_model where
  "ex_filling_tx = gap_filling_tx ex_relayer (ex_evm_data\<lparr> evm_value := 0, evm_data := Some ''0x'', evm_to := Some ''0xaa'' \<rparr>)
     7 ''+'' ''tx-2''"

definition ex_filled_world :: world where
  "ex_filled_world = (ex_world ex_failed_tx)
     \<lparr> w_repo := \<lparr> store = [(''tx-1'', ex_failed_tx), (''tx-2'', ex_filling_tx)], idempotency = [] \<rparr> \<rparr>"

definition ex_local_lock :: health_locks where
  "ex_local_lock = \<lparr> distributed_mode = False, has_connection_info = False, try_acquire = Inr True, try_lock_owned = True \<rparr>"

lemma ex_filled_nonces:
  "has_nonce ''relayer'' n ex_failed_tx \<longleftrightarrow> n = 7" "has_nonce ''relayer'' n ex_filling_tx \<longleftrightarrow> n = 7"
  "status ex_failed_tx = Failed" "status ex_filling_tx = Pending" "tx_id ex_failed_tx = ''tx-1''" "tx_id ex_filling_tx = ''tx-2''"
  by (auto simp: has_nonce_def ex_failed_tx_def ex_filling_tx_def gap_filling_tx_def ex_relayer_def ex_tx_def ex_evm_data_def)

lemma ex_filled_repo:
  "w_repo ex_filled_world = \<lparr> store = [(''tx-1'', ex_failed_tx), (''tx-2'', ex_filling_tx)], idempotency = [] \<rparr>"
  "w_counter ex_filled_world = (\<lambda>_. Some 8)"
  by (simp_all add: ex_filled_world_def)

lemma ex_filled_slot:
  "w_repo w = w_repo ex_filled_world \<Longrightarrow> slot (e_values_order ex_env) ''relayer'' (w_repo w) n = (if n = 7 then Some Failed else None)"
  by (simp add: slot_def store_values_def ex_filled_repo ex_filled_nonces ex_env_def)

lemma internal_occupancy_ok:
  assumes "e_storage_fault E (w_tick w) = None"
  shows "internalM E (get_nonce_occupancy order rid a b) w =
    (Inr (map (\<lambda>n. (n, slot order rid (w_repo w) n)) (nonce_range a b)), w\<lparr> w_tick := Suc (w_tick w) \<rparr>)"
  by (simp add: internalM_def map_errM_def repoM_def occupancy_slots assms)

lemma ex_env_no_fault: "e_storage_fault ex_env t = None" "e_queue_fault ex_env t = None"
  by (simp_all add: ex_env_def)

lemma ex_filled_rewind:
  assumes "w_repo w = w_repo ex_filled_world"
  shows "try_rewind_counter ex_env ex_relayer 7 8 w = (Inr (), w\<lparr> w_tick := Suc (w_tick w) \<rparr>)"
proof -
  have "rewind_chunk_start 7 8 = 7"
    by (simp add: rewind_chunk_start_def saturating_sub_def REWIND_SCAN_CHUNK_def)
  moreover have "highest_occupied (map (\<lambda>n. (n, slot (e_values_order ex_env) ''relayer'' (w_repo w) n)) (nonce_range 7 8)) = Some 7"
    by (simp add: highest_occupied_Some ex_filled_slot [OF assms])
  ultimately have "rewind_scan ex_env ex_relayer 7 8 w = (Inr (Some 7), w\<lparr> w_tick := Suc (w_tick w) \<rparr>)"
    by (subst rewind_scan.simps)
      (simp add: bindM_def returnM_def internal_occupancy_ok ex_env_no_fault ex_relayer_def)
  then show ?thesis
    by (simp add: try_rewind_counter_def MAX_REWIND_SCAN_RANGE_def bindM_def returnM_def rewind_target_def)
qed

lemma ex_filled_detect:
  assumes "w_repo w = w_repo ex_filled_world"
  shows "detect_nonce_gaps ex_env ex_relayer (Some 7) None w = (Inr [7], w\<lparr> w_tick := Suc (w_tick w) \<rparr>)"
proof -
  have "(\<exists>m::u64. n \<le> m \<and> m < 107 \<and> (if m = 7 then Some Failed else None) \<noteq> None) \<longleftrightarrow> n \<le> 7" for n
    by auto
  moreover have "filter (\<lambda>n. n \<le> 7) (nonce_range 7 107) = [7]"
    by (simp add: nonce_range_def upt_rec)
  moreover have "\<not> active_slot (if n = 7 then Some Failed else None)" for n :: u64
    by (simp add: active_slot_def is_active_nonce_status_def)
  ultimately have "gaps_of (e_values_order ex_env) ''relayer'' (w_repo w) 7 107 = [7]"
    unfolding gaps_of_def ex_filled_slot [OF assms] by simp
  moreover have "gap_scan_end 7 None = 107"
    by (simp add: gap_scan_end_def MAX_GAP_SCAN_RANGE_def)
  ultimately show ?thesis
    by (simp add: detect_nonce_gaps_def bindM_def returnM_def internal_occupancy_ok ex_env_no_fault ex_relayer_def
        gaps_below_range gaps_of_def)
qed

lemma ex_filled_find:
  assumes "w_repo w = w_repo ex_filled_world"
  shows "find_active_tx_for_nonce ex_env ex_relayer 7 w = (Inr None, w\<lparr> w_tick := Suc (w_tick w) \<rparr>)"
  by (simp add: find_active_tx_for_nonce_def internalM_def eff_defs repoM_def ex_env_no_fault find_by_nonce_def
      assms ex_filled_repo store_values_def ex_filled_nonces ex_relayer_def)
    (simp add: ex_env_def ex_filled_nonces is_active_nonce_status_def assms ex_filled_repo)

lemma ex_filled_create:
  assumes "w_repo w = w_repo ex_filled_world"
  shows "\<exists>t w'. create_gap_filling_noop ex_env ex_relayer 7 w = (Inr t, w') \<and> tx_lookup (w_repo w') ''uuid'' = Some t
    \<and> has_nonce ''relayer'' 7 t \<and> status t = Pending \<and> tx_lookup (w_repo w') ''tx-2'' = Some ex_filling_tx"
proof -
  obtain d where d: "make_noop ex_env ex_network True (blank_evm_data ex_relayer ex_network) = returnM d"
    by (simp add: make_noop_def Let_def ex_network_def is_arbitrum_def)
  have net: "relayer_network ex_env ex_relayer w = (Inr ex_network, w\<lparr> w_tick := Suc (w_tick w) \<rparr>)" for w
    by (simp add: relayer_network_def eff_defs callM_def ex_env_def)
  define t where "t = gap_filling_tx ex_relayer d 7 (ex_to_rfc3339 (secs 100)) ''uuid''"
  have t: "tx_id t = ''uuid''" "has_nonce ''relayer'' 7 t" "status t = Pending"
    by (simp_all add: t_def gap_filling_tx_def has_nonce_def ex_relayer_def)
  have now: "to_rfc3339 ex_env (e_now ex_env k) = ex_to_rfc3339 (secs 100)" "e_uuid ex_env k = ''uuid''" for k
    by (simp_all add: ex_env_def)
  show ?thesis
    by (simp add: create_gap_filling_noop_def bindM_def net map_errM_def d returnM_def now_rfc3339_def askM_def now
        flip: t_def)
      (simp add: internalM_def map_errM_def repoM_def ex_env_no_fault create_def assms ex_filled_repo t
        queue_gap_filling_def bindM_def attemptM_def produceM_def schedule_initial_status_check_def askM_def returnM_def
        flip: t_def)
qed


end
