(* ===== verification/Relayer_Repository.thy ===== *)
theory Relayer_Repository
  imports Evm_Nonce
begin

text \<open>
  The in-memory relayer repository (\<open>repositories/relayer/relayer_in_memory.rs\<close>) and the
  reasons for which the system disables a relayer (\<open>models/relayer/mod.rs\<close>). The second
  half shows that every operation keeps a relayer under its own identifier and disabled
  exactly while it has a reason.
\<close>

section \<open>Reasons\<close>

datatype health_check_failure =
    HcNonceSyncFailed string | HcRpcValidationFailed string | HcBalanceCheckFailed string | HcSequenceSyncFailed string

definition show_health_check_failure :: "health_check_failure \<Rightarrow> string" where
  "show_health_check_failure f = (case f of
     HcNonceSyncFailed msg \<Rightarrow> ''Nonce sync failed: '' @ msg
   | HcRpcValidationFailed msg \<Rightarrow> ''RPC validation failed: '' @ msg
   | HcBalanceCheckFailed msg \<Rightarrow> ''Balance check failed: '' @ msg
   | HcSequenceSyncFailed msg \<Rightarrow> ''Sequence sync failed: '' @ msg)"

definition from_health_failure :: "health_check_failure \<Rightarrow> disabled_reason" where
  "from_health_failure f = (case f of
     HcNonceSyncFailed msg \<Rightarrow> NonceSyncFailed msg
   | HcRpcValidationFailed msg \<Rightarrow> RpcValidationFailed msg
   | HcBalanceCheckFailed msg \<Rightarrow> BalanceCheckFailed msg
   | HcSequenceSyncFailed msg \<Rightarrow> SequenceSyncFailed msg)"

definition from_health_failures :: "health_check_failure list \<Rightarrow> disabled_reason option" where
  "from_health_failures failures = (case failures of
     [] \<Rightarrow> None
   | [f] \<Rightarrow> Some (from_health_failure f)
   | _ \<Rightarrow> Some (MultipleReasons (map from_health_failure failures)))"

definition from_failures :: "disabled_reason list \<Rightarrow> disabled_reason option" where
  "from_failures failures = (case failures of
     [] \<Rightarrow> None | [f] \<Rightarrow> Some f | _ \<Rightarrow> Some (MultipleReasons failures))"

fun description :: "disabled_reason \<Rightarrow> string" where
  "description (NonceSyncFailed e) = ''Nonce sync failed: '' @ e"
| "description (RpcValidationFailed e) = ''RPC validation failed: '' @ e"
| "description (BalanceCheckFailed e) = ''Balance check failed: '' @ e"
| "description (SequenceSyncFailed e) = ''Sequence sync failed: '' @ e"
| "description (MultipleReasons reasons) = join_strings '', '' (map description reasons)"

fun safe_description :: "disabled_reason \<Rightarrow> string" where
  "safe_description (NonceSyncFailed _) = ''Nonce synchronization failed''"
| "safe_description (RpcValidationFailed _) = ''RPC endpoint validation failed''"
| "safe_description (BalanceCheckFailed _) = ''Insufficient balance''"
| "safe_description (SequenceSyncFailed _) = ''Sequence synchronization failed''"
| "safe_description (MultipleReasons reasons) = join_strings '', '' (map safe_description reasons)"

text \<open>The discriminants of two reasons agree, and for \<open>Multiple\<close> those of the parts, in order.\<close>

function (sequential) same_variant :: "disabled_reason \<Rightarrow> disabled_reason \<Rightarrow> bool" where
  "same_variant (MultipleReasons as) (MultipleReasons bs) =
     (length as = length bs \<and> list_all (\<lambda>(x, y). same_variant x y) (zip as bs))"
| "same_variant (NonceSyncFailed _) (NonceSyncFailed _) = True"
| "same_variant (RpcValidationFailed _) (RpcValidationFailed _) = True"
| "same_variant (BalanceCheckFailed _) (BalanceCheckFailed _) = True"
| "same_variant (SequenceSyncFailed _) (SequenceSyncFailed _) = True"
| "same_variant _ _ = False"
  by pat_completeness auto
termination
  by (relation "measure (\<lambda>(a, b). size a)")
    (auto dest!: set_zip_leftD simp: less_Suc_eq_le intro: size_list_estimation')

definition from_error_string :: "string \<Rightarrow> disabled_reason" where
  "from_error_string e =
     (let error_lower = to_lowercase e
      in if contains_str ''nonce'' error_lower then NonceSyncFailed e
         else if contains_str ''rpc'' error_lower then RpcValidationFailed e
         else if contains_str ''balance'' error_lower then BalanceCheckFailed e
         else if contains_str ''sequence'' error_lower then SequenceSyncFailed e
         else RpcValidationFailed e)"

section \<open>The repository\<close>

type_synonym relayer_store = "(string \<times> relayer_repo_model) list"
type_synonym relayer_order = "relayer_repo_model list \<Rightarrow> relayer_repo_model list"
type_synonym 'a relayer_repo_op = "(relayer_store, repository_error, 'a) eff"

definition relayer_not_found :: "string \<Rightarrow> repository_error" where
  "relayer_not_found i = NotFound (''Relayer with ID '' @ i @ '' not found'')"

definition relayer_list_active :: "relayer_order \<Rightarrow> relayer_repo_model list relayer_repo_op" where
  "relayer_list_active order = (\<lambda>S. (Inr (filter (\<lambda>r. \<not> r_paused r) (order (map snd S))), S))"

definition relayer_list_by_signer_id :: "relayer_order \<Rightarrow> string \<Rightarrow> relayer_repo_model list relayer_repo_op" where
  "relayer_list_by_signer_id order i = (\<lambda>S. (Inr (filter (\<lambda>r. r_signer_id r = i) (order (map snd S))), S))"

definition relayer_list_by_notification_id :: "relayer_order \<Rightarrow> string \<Rightarrow> relayer_repo_model list relayer_repo_op" where
  "relayer_list_by_notification_id order i =
     (\<lambda>S. (Inr (filter (\<lambda>r. r_notification_id r = Some i) (order (map snd S))), S))"

text \<open>The four updates change the entry in place and return it.\<close>

definition relayer_modify ::
  "string \<Rightarrow> (relayer_repo_model \<Rightarrow> relayer_repo_model) \<Rightarrow> relayer_repo_model relayer_repo_op" where
  "relayer_modify i f = (\<lambda>S. case map_of S i of
     Some r \<Rightarrow> (Inr (f r), AList.update i (f r) S) | None \<Rightarrow> (Inl (relayer_not_found i), S))"

definition relayer_partial_update :: "string \<Rightarrow> bool option \<Rightarrow> relayer_repo_model relayer_repo_op" where
  "relayer_partial_update i update_paused = relayer_modify i (\<lambda>r. case update_paused of
     Some paused \<Rightarrow> r\<lparr> r_paused := paused \<rparr> | None \<Rightarrow> r)"

definition relayer_update_policy :: "string \<Rightarrow> relayer_network_policy \<Rightarrow> relayer_repo_model relayer_repo_op" where
  "relayer_update_policy i policy = relayer_modify i (\<lambda>r. r\<lparr> r_policies := policy \<rparr>)"

definition disable_relayer :: "string \<Rightarrow> disabled_reason \<Rightarrow> relayer_repo_model relayer_repo_op" where
  "disable_relayer i reason =
     relayer_modify i (\<lambda>r. r\<lparr> r_system_disabled := True, r_disabled_reason := Some reason \<rparr>)"

definition enable_relayer :: "string \<Rightarrow> relayer_repo_model relayer_repo_op" where
  "enable_relayer i = relayer_modify i (\<lambda>r. r\<lparr> r_system_disabled := False, r_disabled_reason := None \<rparr>)"

definition relayer_create :: "relayer_repo_model \<Rightarrow> relayer_repo_model relayer_repo_op" where
  "relayer_create r = (\<lambda>S.
     if map_of S (r_id r) \<noteq> None
     then (Inl (ConstraintViolation (''Relayer with ID '' @ r_id r @ '' already exists'')), S)
     else (Inr r, AList.update (r_id r) r S))"

definition relayer_get_by_id :: "string \<Rightarrow> relayer_repo_model relayer_repo_op" where
  "relayer_get_by_id i = (\<lambda>S. case map_of S i of Some r \<Rightarrow> (Inr r, S) | None \<Rightarrow> (Inl (relayer_not_found i), S))"

definition relayer_update :: "string \<Rightarrow> relayer_repo_model \<Rightarrow> relayer_repo_model relayer_repo_op" where
  "relayer_update i r = (\<lambda>S.
     if map_of S i \<noteq> None then (Inr (r\<lparr> r_id := i \<rparr>), AList.update i (r\<lparr> r_id := i \<rparr>) S)
     else (Inl (relayer_not_found i), S))"

definition relayer_delete_by_id :: "string \<Rightarrow> unit relayer_repo_op" where
  "relayer_delete_by_id i = (\<lambda>S.
     if map_of S i \<noteq> None then (Inr (), AList.delete i S) else (Inl (relayer_not_found i), S))"

definition relayer_list_all :: "relayer_order \<Rightarrow> relayer_repo_model list relayer_repo_op" where
  "relayer_list_all order = (\<lambda>S. (Inr (order (map snd S)), S))"

definition relayer_list_paginated ::
  "relayer_order \<Rightarrow> pagination_query \<Rightarrow> relayer_repo_model paginated_result relayer_repo_op" where
  "relayer_list_paginated order q = (\<lambda>S.
     let total = length S; start = unat ((page q - 1) * per_page q)
     in (Inr \<lparr> items = take (unat (per_page q)) (drop start (order (map snd S))),
               pr_total = of_nat total, pr_page = page q, pr_per_page = per_page q \<rparr>, S))"

definition relayer_count :: "nat relayer_repo_op" where
  "relayer_count = (\<lambda>S. (Inr (length S), S))"

definition relayer_has_entries :: "bool relayer_repo_op" where
  "relayer_has_entries = (\<lambda>S. (Inr (S \<noteq> []), S))"

definition relayer_drop_all_entries :: "unit relayer_repo_op" where
  "relayer_drop_all_entries = (\<lambda>S. (Inr (), []))"

section \<open>What every operation keeps\<close>

definition relayer_entry_ok :: "string \<Rightarrow> relayer_repo_model \<Rightarrow> bool" where
  "relayer_entry_ok i r \<longleftrightarrow> r_id r = i \<and> (r_system_disabled r \<longleftrightarrow> r_disabled_reason r \<noteq> None)"

definition relayer_store_wf :: "relayer_store \<Rightarrow> bool" where
  "relayer_store_wf S \<longleftrightarrow> distinct (map fst S) \<and> (\<forall>i r. map_of S i = Some r \<longrightarrow> relayer_entry_ok i r)"

lemma relayer_store_wf_update:
  assumes "relayer_store_wf S" "relayer_entry_ok i r"
  shows "relayer_store_wf (AList.update i r S)"
  using assms by (simp add: relayer_store_wf_def update_conv' distinct_update)

lemma relayer_modify_wf:
  assumes "\<And>r. relayer_entry_ok i r \<Longrightarrow> relayer_entry_ok i (f r)" "relayer_store_wf S"
  shows "relayer_store_wf (snd (relayer_modify i f S))"
proof (cases "map_of S i")
  case None
  then show ?thesis using assms(2) by (simp add: relayer_modify_def)
next
  case (Some r)
  then have "relayer_entry_ok i (f r)"
    using assms by (simp add: relayer_store_wf_def)
  then show ?thesis
    using Some relayer_store_wf_update [OF assms(2)] by (simp add: relayer_modify_def)
qed

lemma relayer_store_wf_delete:
  assumes "relayer_store_wf S"
  shows "relayer_store_wf (snd (relayer_delete_by_id i S))"
  using assms by (simp add: relayer_delete_by_id_def relayer_store_wf_def distinct_delete delete_conv' restrict_map_def
      del: map_of_eq_Some_iff)

lemma relayer_store_wf_put:
  assumes "relayer_store_wf S" "r_system_disabled r \<longleftrightarrow> r_disabled_reason r \<noteq> None"
  shows "relayer_store_wf (snd (relayer_create r S))" "relayer_store_wf (snd (relayer_update i r S))"
proof -
  have "relayer_entry_ok (r_id r) r" "relayer_entry_ok i (r\<lparr> r_id := i \<rparr>)"
    using assms(2) by (simp_all add: relayer_entry_ok_def)
  then show "relayer_store_wf (snd (relayer_create r S))" "relayer_store_wf (snd (relayer_update i r S))"
    using relayer_store_wf_update [OF assms(1)] assms(1) by (simp_all add: relayer_create_def relayer_update_def)
qed

text \<open>
  C35: Every operation that changes the relayer repository keeps each relayer stored once,
  under its own identifier, and keeps the rule that a relayer is disabled by the system
  exactly while it has a reason. Creating or replacing an entry keeps the rule when the
  new relayer obeys it.
\<close>

theorem relayer_store_invariant:
  assumes "relayer_store_wf S"
  shows "relayer_store_wf (snd (relayer_partial_update i p S))
    \<and> relayer_store_wf (snd (relayer_update_policy i pol S))
    \<and> relayer_store_wf (snd (disable_relayer i reason S))
    \<and> relayer_store_wf (snd (enable_relayer i S))
    \<and> relayer_store_wf (snd (relayer_delete_by_id i S))
    \<and> relayer_store_wf (snd (relayer_drop_all_entries S))
    \<and> ((r_system_disabled r \<longleftrightarrow> r_disabled_reason r \<noteq> None) \<longrightarrow>
         relayer_store_wf (snd (relayer_create r S)) \<and> relayer_store_wf (snd (relayer_update i r S)))"
proof (intro conjI impI)
  show "relayer_store_wf (snd (relayer_partial_update i p S))" "relayer_store_wf (snd (relayer_update_policy i pol S))"
    "relayer_store_wf (snd (disable_relayer i reason S))" "relayer_store_wf (snd (enable_relayer i S))"
    unfolding relayer_partial_update_def relayer_update_policy_def disable_relayer_def enable_relayer_def
    by (rule relayer_modify_wf [OF _ assms], simp add: relayer_entry_ok_def split: option.split)+
  show "relayer_store_wf (snd (relayer_drop_all_entries S))"
    by (simp add: relayer_drop_all_entries_def relayer_store_wf_def)
qed (fact relayer_store_wf_delete [OF assms] | erule relayer_store_wf_put [OF assms])+

theorem relayer_store_invariant_witness:
  "relayer_store_wf (snd (disable_relayer ''relayer'' (BalanceCheckFailed ''low'') [(''relayer'', ex_relayer)]))"
proof -
  have "relayer_store_wf [(''relayer'', ex_relayer)]"
    by (simp add: relayer_store_wf_def relayer_entry_ok_def ex_relayer_def)
  from relayer_store_invariant [OF this] show ?thesis
    by blast
qed

end
