(* ===== verification/Evm_Relayer.thy ===== *)
theory Evm_Relayer
  imports Evm_Status Relayer_Repository
begin

text \<open>
  The EVM relayer service (\<open>domain/relayer/evm/evm_relayer.rs\<close>): accepting a transaction
  request, the status and the balance of the relayer, cancelling all pending transactions
  through the queue, and the health checks that disable and enable the relayer. The state
  of the health checks is the state of the handlers together with the relayer repository.
\<close>

section \<open>Texts of errors\<close>

definition show_counter_error :: "transaction_counter_error \<Rightarrow> string" where
  "show_counter_error e = (case e of
     SequenceNotFound rid addr \<Rightarrow> ''No sequence found for relayer '' @ rid @ '' and address '' @ addr
   | CounterNotFound m \<Rightarrow> ''Counter not found for '' @ m)"

definition show_relayer_error :: "relayer_error \<Rightarrow> string" where
  "show_relayer_error e = (case e of
     RlNetworkConfiguration m \<Rightarrow> ''Network configuration error: '' @ m
   | RlProviderError m \<Rightarrow> ''Provider error: '' @ m
   | RlUnderlyingProvider p \<Rightarrow> ''Underlying provider error: '' @ show_provider_error p
   | RlUnderlyingSolanaProvider p \<Rightarrow> ''Underlying Solana provider error: '' @ show_solana_provider_error p
   | RlQueueError m \<Rightarrow> ''Queue error: '' @ m
   | RlSignerFactoryError m \<Rightarrow> ''Signer factory error: '' @ m
   | RlSignerError m \<Rightarrow> ''Signer error: '' @ m
   | RlNotSupported m \<Rightarrow> ''Not supported: '' @ m
   | RlRelayerDisabled \<Rightarrow> ''Relayer is disabled''
   | RlRelayerPaused \<Rightarrow> ''Relayer is paused''
   | RlTransactionSequenceError c \<Rightarrow> ''Transaction sequence error: '' @ show_counter_error c
   | RlInsufficientBalanceError m \<Rightarrow> ''Insufficient balance error: '' @ m
   | RlInsufficientRelayerBalance m \<Rightarrow> ''Insufficient relayer balance: '' @ m
   | RlPolicyConfigurationError m \<Rightarrow> ''Relayer Policy configuration error: '' @ m
   | RlInvalidDexName m \<Rightarrow> ''Invalid Dex name : '' @ m
   | RlDexError m \<Rightarrow> ''Dex error : '' @ m
   | RlValidationError m \<Rightarrow> ''Transaction validation error: '' @ m
   | RlInternal m \<Rightarrow> ''Internal error: '' @ m)"

definition show_evm_validation_error :: "evm_transaction_validation_error \<Rightarrow> string" where
  "show_evm_validation_error e = (case e of
     EvProviderError m \<Rightarrow> ''Provider error: '' @ m
   | EvValidationError m \<Rightarrow> ''Validation error: '' @ m
   | EvInsufficientBalance m \<Rightarrow> ''Insufficient balance: '' @ m)"

section \<open>Accepting a request\<close>

text \<open>
  The two jobs of an accepted transaction, the status check first. \<open>net\<close> is the network
  the service was built with.
\<close>

definition queue_new_transaction ::
  "evm_env \<Rightarrow> evm_network \<Rightarrow> transaction_repo_model \<Rightarrow> transaction_repo_model relayer_op" where
  "queue_new_transaction E net tx =
     bindM (attemptM (schedule_initial_status_check E tx net)) (\<lambda>scheduled. case scheduled of
       Inl e \<Rightarrow>
         thenM (ignoreM (partial_updateM E (tx_id tx) (default_update
                  \<lparr> up_status := Some Failed, up_status_reason := Some ''Queue unavailable'' \<rparr>)))
           (throwM (relayer_error_of_job_producer_error e))
     | Inr _ \<Rightarrow>
         thenM (map_errM relayer_error_of_job_producer_error
                  (produceM E (JRequest (request_job (tx_id tx) (relayer_id tx)) None)))
           (returnM tx))"

definition process_transaction_request_with_id ::
  "evm_env \<Rightarrow> evm_network \<Rightarrow> relayer_repo_model \<Rightarrow> evm_transaction_request \<Rightarrow> string \<Rightarrow> transaction_repo_model relayer_op" where
  "process_transaction_request_with_id E net r request i =
     bindM (relayer_network E r) (\<lambda>network.
     bindM (now_rfc3339 E) (\<lambda>now.
     bindM (askM (e_uuid E)) (\<lambda>uuid.
       let tx = (evm_tx_of_request uuid (r_id r) (r_address r) now (net_chain_id network) request)\<lparr> tx_id := i \<rparr>
       in thenM (map_errM (\<lambda>e. relayer_error_of_repository_error (TransactionFailure (show_repository_error e)))
                   (repoM E (create tx)))
            (queue_new_transaction E net tx))))"

definition process_transaction_request ::
  "evm_env \<Rightarrow> evm_network \<Rightarrow> relayer_repo_model \<Rightarrow> evm_transaction_request \<Rightarrow> transaction_repo_model relayer_op" where
  "process_transaction_request E net r request =
     bindM (askM (e_uuid E)) (\<lambda>i. process_transaction_request_with_id E net r request i)"

section \<open>Balance and status\<close>

definition relayer_get_balance :: "evm_env \<Rightarrow> relayer_repo_model \<Rightarrow> (u128 \<times> string) relayer_op" where
  "relayer_get_balance E r =
     bindM (map_errM (\<lambda>e. RlProviderError (show_provider_error e)) (callM (\<lambda>t. e_balance E t (r_address r)))) (\<lambda>balance.
       if unat balance < 2 ^ 128 then returnM (ucast balance, ''wei'')
       else throwM (RlProviderError ''Failed to convert balance to u128''))"

record relayer_status_evm =
  rs_balance :: string
  rs_pending_transactions_count :: u64
  rs_last_confirmed_transaction_timestamp :: "string option"
  rs_system_disabled :: bool
  rs_paused :: bool
  rs_nonce :: string

definition relayer_get_status :: "evm_env \<Rightarrow> relayer_repo_model \<Rightarrow> relayer_status_evm relayer_op" where
  "relayer_get_status E r =
     bindM (attemptM (serviceM E r counter_get)) (\<lambda>answer.
     let n = (case answer of Inr (Some n) \<Rightarrow> n | _ \<Rightarrow> 0)
     in bindM (relayer_get_balance E r) (\<lambda>balance.
        bindM (map_errM relayer_error_of_repository_error
                 (repoM E (count_by_status (e_values_order E) (r_id r) PENDING_TRANSACTION_STATUSES))) (\<lambda>pending.
        bindM (map_errM relayer_error_of_repository_error
                 (repoM E (find_by_status_paginated (e_values_order E) (r_id r) [Confirmed]
                    \<lparr> page = 1, per_page = 1 \<rparr> False))) (\<lambda>confirmed.
          returnM \<lparr> rs_balance = show_nat (unat (fst balance)), rs_pending_transactions_count = pending,
            rs_last_confirmed_transaction_timestamp =
              (case items confirmed of tx # _ \<Rightarrow> confirmed_at tx | [] \<Rightarrow> None),
            rs_system_disabled = r_system_disabled r, rs_paused = r_paused r, rs_nonce = show_nat (unat n) \<rparr>))))"

section \<open>Cancelling all pending transactions\<close>

definition cancel_transaction_via_job :: "evm_env \<Rightarrow> transaction_repo_model \<Rightarrow> unit relayer_op" where
  "cancel_transaction_via_job E tx =
     map_errM relayer_error_of_job_producer_error
       (produceM E (JSend (send_job (Cancel ''Cancelled via delete_pending_transactions'') (tx_id tx) (relayer_id tx)) None))"

record delete_pending_response =
  queued_for_cancellation_transaction_ids :: "string list"
  failed_to_queue_transaction_ids :: "string list"
  total_processed :: u32

fun cancel_each ::
  "evm_env \<Rightarrow> transaction_repo_model list \<Rightarrow> string list \<Rightarrow> string list \<Rightarrow> (string list \<times> string list) relayer_op" where
  "cancel_each E [] cancelled not_queued = returnM (cancelled, not_queued)"
| "cancel_each E (tx # txs) cancelled not_queued =
     bindM (attemptM (cancel_transaction_via_job E tx)) (\<lambda>answer. case answer of
       Inr _ \<Rightarrow> cancel_each E txs (cancelled @ [tx_id tx]) not_queued
     | Inl _ \<Rightarrow> cancel_each E txs cancelled (not_queued @ [tx_id tx]))"

definition delete_pending_transactions :: "evm_env \<Rightarrow> relayer_repo_model \<Rightarrow> delete_pending_response relayer_op" where
  "delete_pending_transactions E r =
     bindM (map_errM relayer_error_of_repository_error
              (repoM E (find_by_status (e_values_order E) (r_id r) [Pending, Sent, Submitted]))) (\<lambda>pending.
       if pending = []
       then returnM \<lparr> queued_for_cancellation_transaction_ids = [], failed_to_queue_transaction_ids = [],
              total_processed = 0 \<rparr>
       else bindM (cancel_each E pending [] []) (\<lambda>(cancelled, not_queued).
         returnM \<lparr> queued_for_cancellation_transaction_ids = cancelled, failed_to_queue_transaction_ids = not_queued,
           total_processed = of_nat (length cancelled + length not_queued) \<rparr>))"

definition relayer_sign_transaction :: "unit relayer_op" where
  "relayer_sign_transaction = throwM (RlNotSupported ''Transaction signing not supported for EVM'')"

section \<open>Health checks\<close>

definition validate_rpc :: "evm_env \<Rightarrow> unit relayer_op" where
  "validate_rpc E =
     bindM (map_errM (\<lambda>e. RlProviderError (show_provider_error e)) (callM (e_block_number E))) (\<lambda>_. returnM ())"

definition validate_min_balance :: "evm_env \<Rightarrow> relayer_repo_model \<Rightarrow> unit relayer_op" where
  "validate_min_balance E r =
     map_errM (\<lambda>e. RlInsufficientBalanceError (show_evm_validation_error e))
       (callM (\<lambda>t. init_balance_validation (e_balance E t (r_address r)) (get_evm_policy (r_policies r))))"

definition err_of :: "'e + 'a \<Rightarrow> 'e option" where
  "err_of x = (case x of Inl e \<Rightarrow> Some e | Inr _ \<Rightarrow> None)"

definition check_health :: "evm_env \<Rightarrow> relayer_repo_model \<Rightarrow> (world, health_check_failure list, unit) eff" where
  "check_health E r =
     bindM (attemptM (sync_nonce E r)) (\<lambda>nonce_sync_result.
     bindM (attemptM (validate_rpc E)) (\<lambda>validate_rpc_result.
     bindM (attemptM (validate_min_balance E r)) (\<lambda>validate_min_balance_result.
       let failures = map the (filter (\<lambda>f. f \<noteq> None)
             [map_option (\<lambda>e. HcNonceSyncFailed (show_relayer_error e)) (err_of nonce_sync_result),
              map_option (\<lambda>e. HcRpcValidationFailed (show_relayer_error e)) (err_of validate_rpc_result),
              map_option (\<lambda>e. HcBalanceCheckFailed (show_relayer_error e)) (err_of validate_min_balance_result)])
       in if failures = [] then returnM () else throwM failures)))"

record app =
  app_world :: world
  app_relayers :: relayer_store

definition inW :: "(world, 'e, 'a) eff \<Rightarrow> (app, 'e, 'a) eff" where
  "inW m = (\<lambda>s. case m (app_world s) of (x, w) \<Rightarrow> (x, s\<lparr> app_world := w \<rparr>))"

definition relayersM :: "evm_env \<Rightarrow> 'a relayer_repo_op \<Rightarrow> (app, repository_error, 'a) eff" where
  "relayersM E m = (\<lambda>s.
     let w = app_world s; w' = w\<lparr> w_tick := Suc (w_tick w) \<rparr>
     in case e_storage_fault E (w_tick w) of
          Some e \<Rightarrow> (Inl e, s\<lparr> app_world := w' \<rparr>)
        | None \<Rightarrow> (case m (app_relayers s) of (x, S) \<Rightarrow> (x, s\<lparr> app_world := w', app_relayers := S \<rparr>)))"

definition disabling_reason :: "health_check_failure list \<Rightarrow> disabled_reason" where
  "disabling_reason failures = (case from_health_failures failures of
     Some reason \<Rightarrow> reason | None \<Rightarrow> RpcValidationFailed ''Unknown error'')"

definition new_health_check :: "string \<Rightarrow> u32 \<Rightarrow> relayer_health_check" where
  "new_health_check rid retry_count = \<lparr> rhc_relayer_id = rid, rhc_retry_count = retry_count, rhc_metadata = None \<rparr>"

definition initialize_relayer :: "evm_env \<Rightarrow> relayer_repo_model \<Rightarrow> (app, relayer_error, unit) eff" where
  "initialize_relayer E r =
     bindM (attemptM (inW (check_health E r))) (\<lambda>health. case health of
       Inr _ \<Rightarrow>
         (if r_system_disabled r
          then bindM (map_errM relayer_error_of_repository_error (relayersM E (enable_relayer (r_id r)))) (\<lambda>_. returnM ())
          else returnM ())
     | Inl failures \<Rightarrow>
         (let reason = disabling_reason failures
          in bindM (map_errM relayer_error_of_repository_error (relayersM E (disable_relayer (r_id r) reason))) (\<lambda>updated.
             thenM (case r_notification_id r of
                 Some nid \<Rightarrow> map_errM relayer_error_of_job_producer_error
                   (inW (produceM E (JRelayerDisabled nid updated (safe_description reason))))
               | None \<Rightarrow> returnM ())
             (bindM (inW (askM (e_now E))) (\<lambda>now.
                map_errM relayer_error_of_job_producer_error
                  (inW (produceM E (JHealthCheck (new_health_check (r_id r) 0)
                     (Some (calculate_scheduled_timestamp now 10)))))))))) "


section \<open>Accepted requests are monitored\<close>

definition check_of :: "evm_network \<Rightarrow> transaction_repo_model \<Rightarrow> int \<Rightarrow> queued_job" where
  "check_of net tx at = JStatusCheck (for_evm_network (tx_id tx) (relayer_id tx) net) (Some at)"

definition request_of :: "transaction_repo_model \<Rightarrow> queued_job" where
  "request_of tx = JRequest (request_job (tx_id tx) (relayer_id tx)) None"

lemma schedule_initial_result:
  "schedule_initial_status_check E tx net w = (x, w') \<Longrightarrow>
   w_repo w' = w_repo w \<and> (case x of Inl e \<Rightarrow> w_jobs w' = w_jobs w | Inr _ \<Rightarrow> (\<exists>at. w_jobs w' = w_jobs w @ [check_of net tx at]))"
  by (auto simp: schedule_initial_status_check_def bindM_def askM_def produceM_def check_of_def split: option.splits)

lemma failed_update_lookup:
  assumes "partial_updateM E i u w = (x, w')" "up_status u = Some Failed"
  shows "w_jobs w' = w_jobs w \<and> (\<forall>j. j \<noteq> i \<longrightarrow> tx_lookup (w_repo w') j = tx_lookup (w_repo w) j)
    \<and> (e_storage_fault E = (\<lambda>_. None) \<and> tx_lookup (w_repo w) i \<noteq> None \<longrightarrow>
        (\<exists>t. tx_lookup (w_repo w') i = Some t \<and> status t = Failed))"
  using assms
  by (auto simp: partial_updateM_def eff_defs askM_def repoM_def partial_update_def Let_def map_of_alist_update
      split: option.splits prod.splits sum.splits)

lemma queue_new_result:
  assumes "queue_new_transaction E net tx w = (res, w')"
  shows "(\<forall>t. res = Inr t \<longrightarrow> t = tx \<and> w_repo w' = w_repo w \<and> (\<exists>at. w_jobs w' = w_jobs w @ [check_of net tx at, request_of tx]))
    \<and> (\<forall>e. res = Inl e \<longrightarrow> (w_repo w' = w_repo w \<and> (\<exists>at. w_jobs w' = w_jobs w @ [check_of net tx at]))
         \<or> w_jobs w' = w_jobs w
           \<and> (e_storage_fault E = (\<lambda>_. None) \<and> tx_lookup (w_repo w) (tx_id tx) \<noteq> None \<longrightarrow>
                (\<exists>t. tx_lookup (w_repo w') (tx_id tx) = Some t \<and> status t = Failed)))
    \<and> (\<forall>j. j \<noteq> tx_id tx \<longrightarrow> tx_lookup (w_repo w') j = tx_lookup (w_repo w) j)"
proof -
  obtain x w1 where s: "schedule_initial_status_check E tx net w = (x, w1)"
    by fastforce
  note r = schedule_initial_result [OF s]
  show ?thesis
  proof (cases x)
    case (Inl e)
    obtain y w2 where u: "partial_updateM E (tx_id tx) (default_update
        \<lparr> up_status := Some Failed, up_status_reason := Some ''Queue unavailable'' \<rparr>) w1 = (y, w2)"
      by fastforce
    then have "res = Inl (relayer_error_of_job_producer_error e)" "w' = w2"
      using assms s Inl by (auto simp: queue_new_transaction_def thenM_def ignoreM_def bindM_def attemptM_def throwM_def)
    then show ?thesis
      using failed_update_lookup [OF u] r Inl by auto
  next
    case (Inr u)
    then show ?thesis
      using assms s r
      by (auto simp: queue_new_transaction_def thenM_def bindM_def attemptM_def map_errM_def produceM_def returnM_def
          request_of_def split: option.splits)
  qed
qed

lemma relayer_network_state:
  "relayer_network E r w = (x, w') \<Longrightarrow> w_repo w' = w_repo w \<and> w_jobs w' = w_jobs w"
  by (auto simp: relayer_network_def eff_defs callM_def split: sum.splits option.splits)

lemma process_request_stages:
  assumes "process_transaction_request_with_id E net r req i w = (res, w')"
  shows "(\<exists>e. res = Inl e \<and> w_repo w' = w_repo w \<and> w_jobs w' = w_jobs w)
    \<or> (\<exists>tx w1. tx_id tx = i \<and> relayer_id tx = r_id r \<and> status tx = Pending \<and> tx_nonce tx = None
         \<and> tx_lookup (w_repo w) i = None \<and> tx_lookup (w_repo w1) = (tx_lookup (w_repo w))(i \<mapsto> tx) \<and> w_jobs w1 = w_jobs w
         \<and> idempotency (w_repo w1) = idempotency (w_repo w) \<and> queue_new_transaction E net tx w1 = (res, w'))"
proof -
  obtain x w1 where n: "relayer_network E r w = (x, w1)"
    by fastforce
  note s = relayer_network_state [OF n]
  show ?thesis
  proof (cases x)
    case (Inl e)
    then show ?thesis
      using assms n s by (auto simp: process_transaction_request_with_id_def bindM_def)
  next
    case (Inr network)
    define tx where "tx = (evm_tx_of_request (e_uuid E (Suc (w_tick w1))) (r_id r) (r_address r)
        (to_rfc3339 E (e_now E (w_tick w1))) (net_chain_id network) req)\<lparr> tx_id := i \<rparr>"
    have t: "tx_id tx = i" "relayer_id tx = r_id r" "status tx = Pending" "tx_nonce tx = None"
      by (simp_all add: tx_def evm_tx_of_request_def tx_nonce_def)
    have "thenM (map_errM (\<lambda>e. relayer_error_of_repository_error (TransactionFailure (show_repository_error e)))
          (repoM E (create tx))) (queue_new_transaction E net tx) (w1\<lparr> w_tick := Suc (Suc (w_tick w1)) \<rparr>) = (res, w')"
      using assms n Inr
      by (simp add: process_transaction_request_with_id_def bindM_def now_rfc3339_def askM_def returnM_def Let_def tx_def)
    note run = this
    show ?thesis
    proof (cases "e_storage_fault E (Suc (Suc (w_tick w1))) = None \<and> tx_lookup (w_repo w) i = None")
      case False
      then show ?thesis
        using run s t by (auto simp: thenM_def bindM_def map_errM_def repoM_def create_def split: option.splits)
    next
      case True
      let ?w = "w1\<lparr> w_repo := (w_repo w1)\<lparr> store := AList.update i tx (store (w_repo w1)) \<rparr>,
        w_tick := Suc (Suc (Suc (w_tick w1))) \<rparr>"
      have "queue_new_transaction E net tx ?w = (res, w')"
        using run s t True by (simp add: thenM_def bindM_def map_errM_def repoM_def create_def)
      moreover have "tx_lookup (w_repo ?w) = (tx_lookup (w_repo w))(i \<mapsto> tx)" "w_jobs ?w = w_jobs w"
        "idempotency (w_repo ?w) = idempotency (w_repo w)"
        using s by (simp_all add: map_of_alist_update)
      ultimately show ?thesis
        using t True by blast
    qed
  qed
qed

lemma ex_env_calls:
  "callM (\<lambda>t. e_network_by_name ex_env t n) w = (Inr (Some (Inr ex_network)), w\<lparr> w_tick := Suc (w_tick w) \<rparr>)"
  "askM (e_uuid ex_env) w = (Inr ''uuid'', w\<lparr> w_tick := Suc (w_tick w) \<rparr>)"
  "askM (e_now ex_env) w = (Inr (secs 100), w\<lparr> w_tick := Suc (w_tick w) \<rparr>)"
  "e_values_order ex_env = id"
  by (simp_all add: callM_def askM_def ex_env_def)

lemma ex_process_accepted:
  "\<exists>tx. fst (process_transaction_request_with_id ex_env ex_network ex_relayer ex_request ''tx-9'' (ex_world ex_tx)) = Inr tx"
  by (simp add: process_transaction_request_with_id_def relayer_network_def queue_new_transaction_def eff_defs
      ex_env_no_fault ex_env_calls Let_def now_rfc3339_def repoM_def create_def schedule_initial_status_check_def
      produceM_def ex_tx_sel)

lemma ex_pending_found:
  "\<exists>response w'. delete_pending_transactions ex_env ex_relayer (ex_world ex_tx) = (Inr response, w')"
  by (simp add: delete_pending_transactions_def eff_defs ex_env_no_fault repoM_def find_by_status_def store_values_def
      ex_env_calls ex_tx_sel cancel_transaction_via_job_def produceM_def ex_relayer_def)

text \<open>
  C8: An accepted request is monitored before it is processed. If accepting a request
  succeeds, the transaction is stored as pending without a nonce under the given id, which
  was free, and exactly its status check and then its request job were queued. If it fails,
  at most the status check was queued, so no request job exists without a status check; and
  if the storage works and nothing was queued, nothing is stored under the id but a failed
  transaction. No other stored transaction changes.
\<close>

theorem accepted_request_monitored:
  assumes "process_transaction_request_with_id E net r req i w = (res, w')"
  shows "(\<forall>tx. res = Inr tx \<longrightarrow> tx_lookup (w_repo w) i = None \<and> tx_lookup (w_repo w') i = Some tx
          \<and> tx_id tx = i \<and> relayer_id tx = r_id r \<and> status tx = Pending \<and> tx_nonce tx = None
          \<and> (\<exists>at. w_jobs w' = w_jobs w @ [JStatusCheck (for_evm_network i (r_id r) net) (Some at),
                                           JRequest (request_job i (r_id r)) None]))
    \<and> (\<forall>e. res = Inl e \<longrightarrow>
          (\<exists>at. w_jobs w' = w_jobs w @ [JStatusCheck (for_evm_network i (r_id r) net) (Some at)])
          \<or> w_jobs w' = w_jobs w
            \<and> (e_storage_fault E = (\<lambda>_. None) \<and> tx_lookup (w_repo w) i = None \<longrightarrow>
                 (\<forall>t. tx_lookup (w_repo w') i = Some t \<longrightarrow> status t = Failed)))
    \<and> (\<forall>j. j \<noteq> i \<longrightarrow> tx_lookup (w_repo w') j = tx_lookup (w_repo w) j)"
  using process_request_stages [OF assms]
proof (elim disjE exE conjE)
  fix tx w1
  assume a: "tx_id tx = i" "relayer_id tx = r_id r" "status tx = Pending" "tx_nonce tx = None"
    "tx_lookup (w_repo w) i = None" "tx_lookup (w_repo w1) = (tx_lookup (w_repo w))(i \<mapsto> tx)" "w_jobs w1 = w_jobs w"
    and q: "queue_new_transaction E net tx w1 = (res, w')"
  show ?thesis
    using queue_new_result [OF q] a unfolding check_of_def request_of_def by auto
qed auto

theorem accepted_request_monitored_witness:
  "\<exists>tx. fst (process_transaction_request_with_id ex_env ex_network ex_relayer ex_request ''tx-9'' (ex_world ex_tx)) = Inr tx
     \<and> status tx = Pending"
  using accepted_request_monitored [OF surjective_pairing, of ex_env ex_network ex_relayer ex_request "''tx-9''" "ex_world ex_tx"]
    ex_process_accepted by blast

section \<open>Every pending transaction is accounted for\<close>

definition cancel_job_of :: "transaction_repo_model \<Rightarrow> queued_job" where
  "cancel_job_of tx = JSend (send_job (Cancel ''Cancelled via delete_pending_transactions'') (tx_id tx) (relayer_id tx)) None"

lemma cancel_each_result:
  "\<exists>qs fs. fst (cancel_each E txs cs ns w) = Inr (cs @ map tx_id qs, ns @ map tx_id fs) \<and> mset (qs @ fs) = mset txs
     \<and> w_jobs (snd (cancel_each E txs cs ns w)) = w_jobs w @ map cancel_job_of qs
     \<and> w_repo (snd (cancel_each E txs cs ns w)) = w_repo w"
proof (induction txs arbitrary: cs ns w)
  case Nil
  show ?case by (simp add: returnM_def)
next
  case (Cons tx txs)
  show ?case
  proof (cases "e_queue_fault E (w_tick w)")
    case None
    obtain qs fs where "fst (cancel_each E txs (cs @ [tx_id tx]) ns (w\<lparr> w_jobs := w_jobs w @ [cancel_job_of tx],
          w_tick := Suc (w_tick w) \<rparr>)) = Inr ((cs @ [tx_id tx]) @ map tx_id qs, ns @ map tx_id fs)"
      "mset (qs @ fs) = mset txs"
      "w_jobs (snd (cancel_each E txs (cs @ [tx_id tx]) ns (w\<lparr> w_jobs := w_jobs w @ [cancel_job_of tx],
          w_tick := Suc (w_tick w) \<rparr>))) = (w_jobs w @ [cancel_job_of tx]) @ map cancel_job_of qs"
      "w_repo (snd (cancel_each E txs (cs @ [tx_id tx]) ns (w\<lparr> w_jobs := w_jobs w @ [cancel_job_of tx],
          w_tick := Suc (w_tick w) \<rparr>))) = w_repo w"
      using Cons.IH [of "cs @ [tx_id tx]" ns "w\<lparr> w_jobs := w_jobs w @ [cancel_job_of tx], w_tick := Suc (w_tick w) \<rparr>"]
      by auto
    then show ?thesis
      using None
      by (intro exI [of _ "tx # qs"] exI [of _ fs])
        (simp add: bindM_def attemptM_def cancel_transaction_via_job_def map_errM_def produceM_def cancel_job_of_def)
  next
    case (Some e)
    obtain qs fs where "fst (cancel_each E txs cs (ns @ [tx_id tx]) (w\<lparr> w_tick := Suc (w_tick w) \<rparr>))
        = Inr (cs @ map tx_id qs, (ns @ [tx_id tx]) @ map tx_id fs)" "mset (qs @ fs) = mset txs"
      "w_jobs (snd (cancel_each E txs cs (ns @ [tx_id tx]) (w\<lparr> w_tick := Suc (w_tick w) \<rparr>))) = w_jobs w @ map cancel_job_of qs"
      "w_repo (snd (cancel_each E txs cs (ns @ [tx_id tx]) (w\<lparr> w_tick := Suc (w_tick w) \<rparr>))) = w_repo w"
      using Cons.IH [of cs "ns @ [tx_id tx]" "w\<lparr> w_tick := Suc (w_tick w) \<rparr>"] by auto
    then show ?thesis
      using Some
      by (intro exI [of _ qs] exI [of _ "tx # fs"])
        (simp add: bindM_def attemptM_def cancel_transaction_via_job_def map_errM_def produceM_def)
  qed
qed

lemma found_by_status:
  assumes "bindM (map_errM f (repoM E (find_by_status order rid sts))) g w = (Inr x, w')"
  obtains w1 where "map_errM f (repoM E (find_by_status order rid sts)) w = (Inr (sorted_by newest_created_first
      (filter (\<lambda>t. relayer_id t = rid \<and> status t \<in> set sts) (store_values order (w_repo w)))), w1)"
    "w_repo w1 = w_repo w" "w_jobs w1 = w_jobs w"
proof (cases "e_storage_fault E (w_tick w)")
  case None
  then show ?thesis
    using that [of "w\<lparr> w_tick := Suc (w_tick w) \<rparr>"] by (simp add: map_errM_def repoM_def find_by_status_def)
next
  case (Some e)
  then show ?thesis
    using assms by (simp add: bindM_def map_errM_def repoM_def)
qed

text \<open>
  C33: Deleting the pending transactions of a relayer accounts for each of them. Every
  stored pending, sent or submitted transaction of the relayer is listed exactly once, as
  queued or as failed to queue, the jobs queued are exactly a cancel command for each one
  listed as queued, in that order, and the repository is not changed.
\<close>

theorem pending_deletion_accounts_for_all:
  assumes "\<And>xs. mset (e_values_order E xs) = mset xs"
    and "delete_pending_transactions E r w = (Inr response, w')"
  shows "\<exists>qs fs. queued_for_cancellation_transaction_ids response = map tx_id qs
    \<and> failed_to_queue_transaction_ids response = map tx_id fs
    \<and> mset (qs @ fs) = mset (filter (\<lambda>t. relayer_id t = r_id r \<and> status t \<in> {Pending, Sent, Submitted})
        (map snd (store (w_repo w))))
    \<and> total_processed response = of_nat (length qs + length fs)
    \<and> w_jobs w' = w_jobs w @ map cancel_job_of qs \<and> w_repo w' = w_repo w"
proof -
  let ?P = "\<lambda>t. relayer_id t = r_id r \<and> status t \<in> set [Pending, Sent, Submitted]"
  let ?pending = "sorted_by newest_created_first (filter ?P (store_values (e_values_order E) (w_repo w)))"
  have m: "mset ?pending = mset (filter ?P (map snd (store (w_repo w))))"
    using assms(1) by (simp add: store_values_def mset_filter)
  obtain w1 where f: "map_errM relayer_error_of_repository_error
      (repoM E (find_by_status (e_values_order E) (r_id r) [Pending, Sent, Submitted])) w = (Inr ?pending, w1)"
    and w1: "w_repo w1 = w_repo w" "w_jobs w1 = w_jobs w"
    using assms(2) unfolding delete_pending_transactions_def by (elim found_by_status)
  obtain qs fs w2 where c: "cancel_each E ?pending [] [] w1 = (Inr (map tx_id qs, map tx_id fs), w2)"
    "mset (qs @ fs) = mset ?pending" "w_jobs w2 = w_jobs w1 @ map cancel_job_of qs" "w_repo w2 = w_repo w1"
    using cancel_each_result [of E ?pending "[]" "[]" w1]
    by (cases "cancel_each E ?pending [] [] w1") (auto simp del: cancel_each.simps)
  show ?thesis
  proof (cases "?pending = []")
    case True
    then show ?thesis
      using assms(2) f w1 m by (auto simp: delete_pending_transactions_def bindM_def returnM_def)
  next
    case False
    then have "response = \<lparr> queued_for_cancellation_transaction_ids = map tx_id qs,
        failed_to_queue_transaction_ids = map tx_id fs, total_processed = of_nat (length qs + length fs) \<rparr>" "w' = w2"
      using assms(2) f c(1) by (simp_all add: delete_pending_transactions_def bindM_def returnM_def)
    then show ?thesis
      using c(2-4) w1 m by (intro exI [of _ qs] exI [of _ fs]) simp
  qed
qed

theorem pending_deletion_accounts_for_all_witness:
  "\<exists>response w' qs fs. delete_pending_transactions ex_env ex_relayer (ex_world ex_tx) = (Inr response, w')
     \<and> mset (qs @ fs) = {#ex_tx#} \<and> w_jobs w' = map cancel_job_of qs"
proof -
  obtain response w' where run: "delete_pending_transactions ex_env ex_relayer (ex_world ex_tx) = (Inr response, w')"
    using ex_pending_found by blast
  have r: "r_id ex_relayer = ''relayer''" by (simp add: ex_relayer_def)
  show ?thesis
    using pending_deletion_accounts_for_all [OF ex_env_order run] run by (auto simp: ex_tx_sel r)
qed

section \<open>Starting a relayer\<close>

lemma check_health_result:
  assumes "check_health E r w = (res, w')"
  shows "res = Inr () \<longleftrightarrow> (\<exists>w1 w2. sync_nonce E r w = (Inr (), w1) \<and> validate_rpc E w1 = (Inr (), w2)
      \<and> validate_min_balance E r w2 = (Inr (), w'))"
    "res \<noteq> Inl []"
proof -
  obtain a w1 b w2 c w3 where s: "sync_nonce E r w = (a, w1)" "validate_rpc E w1 = (b, w2)"
      "validate_min_balance E r w2 = (c, w3)"
    by (metis prod.exhaust)
  have "w' = w3" "res \<noteq> Inl []" "res = Inr () \<longleftrightarrow> a = Inr () \<and> b = Inr () \<and> c = Inr ()"
    using assms s by (cases a; cases b; cases c;
      auto simp: check_health_def bindM_def attemptM_def returnM_def throwM_def Let_def err_of_def)+
  then show "res \<noteq> Inl []" "res = Inr () \<longleftrightarrow> (\<exists>w1 w2. sync_nonce E r w = (Inr (), w1)
      \<and> validate_rpc E w1 = (Inr (), w2) \<and> validate_min_balance E r w2 = (Inr (), w'))"
    using s by auto
qed

lemma relayersM_modify:
  assumes "map_errM f (relayersM E (relayer_modify i g)) s = (Inr x, s')"
  shows "\<exists>r. map_of (app_relayers s) i = Some r \<and> x = g r \<and> map_of (app_relayers s') = (map_of (app_relayers s))(i \<mapsto> g r)
    \<and> w_jobs (app_world s') = w_jobs (app_world s)"
proof (cases "e_storage_fault E (w_tick (app_world s))")
  case None
  then show ?thesis
    using assms by (cases "map_of (app_relayers s) i")
      (auto simp: map_errM_def relayersM_def relayer_modify_def Let_def update_conv')
next
  case (Some e)
  then show ?thesis
    using assms by (simp add: map_errM_def relayersM_def Let_def)
qed

lemma produce_in_app:
  assumes "map_errM f (inW (produceM E j)) s = (Inr x, s')"
  shows "app_relayers s' = app_relayers s \<and> w_jobs (app_world s') = w_jobs (app_world s) @ [j]"
  using assms by (cases "e_queue_fault E (w_tick (app_world s))") (auto simp: map_errM_def inW_def produceM_def)

lemma inW_run: "inW m s = (x, s') \<Longrightarrow> m (app_world s) = (x, app_world s') \<and> app_relayers s' = app_relayers s"
  by (auto simp: inW_def split: prod.splits)

lemma failures_have_reason: "failures \<noteq> [] \<Longrightarrow> from_health_failures failures = Some (disabling_reason failures)"
  by (auto simp: disabling_reason_def from_health_failures_def split: list.split)

lemma initialize_failed:
  assumes "initialize_relayer E r s = (Inr (), s')" "check_health E r (app_world s) = (Inl failures, w)"
  shows "\<exists>r0 at. map_of (app_relayers s) (r_id r) = Some r0
    \<and> map_of (app_relayers s') = (map_of (app_relayers s))(r_id r \<mapsto>
        r0\<lparr> r_system_disabled := True, r_disabled_reason := from_health_failures failures \<rparr>)
    \<and> last (w_jobs (app_world s')) = JHealthCheck (new_health_check (r_id r) 0) (Some at)"
proof -
  let ?s = "s\<lparr> app_world := w \<rparr>" and ?reason = "disabling_reason failures"
  have reason: "from_health_failures failures = Some ?reason"
    using check_health_result(2) [OF assms(2)] by (auto intro: failures_have_reason)
  have run: "attemptM (inW (check_health E r)) s = (Inr (Inl failures), ?s)"
    using assms(2) by (simp add: attemptM_def inW_def)
  obtain updated s1 where d: "map_errM relayer_error_of_repository_error
      (relayersM E (disable_relayer (r_id r) ?reason)) ?s = (Inr updated, s1)"
    and rest: "thenM (case r_notification_id r of
                 Some nid \<Rightarrow> map_errM relayer_error_of_job_producer_error
                   (inW (produceM E (JRelayerDisabled nid updated (safe_description ?reason))))
               | None \<Rightarrow> returnM ())
             (bindM (inW (askM (e_now E))) (\<lambda>now.
                map_errM relayer_error_of_job_producer_error
                  (inW (produceM E (JHealthCheck (new_health_check (r_id r) 0)
                     (Some (calculate_scheduled_timestamp now 10))))))) s1 = (Inr (), s')"
    using assms(1) unfolding initialize_relayer_def Let_def bindM_run [where m = "attemptM (inW (check_health E r))", OF run] sum.case by (elim bindM_okE)
  obtain s2 where n: "(case r_notification_id r of
                 Some nid \<Rightarrow> map_errM relayer_error_of_job_producer_error
                   (inW (produceM E (JRelayerDisabled nid updated (safe_description ?reason))))
               | None \<Rightarrow> returnM ()) s1 = (Inr (), s2)"
    and rest2: "bindM (inW (askM (e_now E))) (\<lambda>now. map_errM relayer_error_of_job_producer_error
                  (inW (produceM E (JHealthCheck (new_health_check (r_id r) 0)
                     (Some (calculate_scheduled_timestamp now 10)))))) s2 = (Inr (), s')"
    using rest by (elim thenM_okE) simp
  have s2: "app_relayers s2 = app_relayers s1"
    using n by (cases "r_notification_id r") (auto simp: returnM_def dest: produce_in_app)
  obtain now s3 where "inW (askM (e_now E)) s2 = (Inr now :: relayer_error + _, s3)"
    and last: "map_errM relayer_error_of_job_producer_error (inW (produceM E (JHealthCheck (new_health_check (r_id r) 0)
                     (Some (calculate_scheduled_timestamp now 10))))) s3 = (Inr (), s')"
    using rest2 by (elim bindM_okE) blast
  then have "app_relayers s' = app_relayers s1"
    using produce_in_app [OF last] inW_run s2 by metis
  then show ?thesis
    using relayersM_modify [OF d [unfolded disable_relayer_def]] produce_in_app [OF last] reason by auto
qed

text \<open>
  C34: Starting a relayer decides whether it may run. When the startup checks pass the relayer is
  stored as enabled and without a reason. Otherwise it is stored as disabled with the
  reason of the failed checks, and a health check for it is the last job queued. The
  checks pass exactly when the nonce is synchronised, the endpoint answers and the
  balance suffices, and no other relayer changes.
\<close>

theorem initialization_decides_enablement:
  assumes "initialize_relayer E r s = (Inr (), s')"
    and "map_of (app_relayers s) (r_id r) = Some r" and "relayer_store_wf (app_relayers s)"
  shows "\<exists>health w. check_health E r (app_world s) = (health, w)
    \<and> (health = Inr () \<longleftrightarrow> (\<exists>w1 w2. sync_nonce E r (app_world s) = (Inr (), w1) \<and> validate_rpc E w1 = (Inr (), w2)
          \<and> validate_min_balance E r w2 = (Inr (), w)))
    \<and> map_of (app_relayers s') = (map_of (app_relayers s))(r_id r \<mapsto> (case health of
        Inr _ \<Rightarrow> r\<lparr> r_system_disabled := False, r_disabled_reason := None \<rparr>
      | Inl failures \<Rightarrow> r\<lparr> r_system_disabled := True, r_disabled_reason := from_health_failures failures \<rparr>))
    \<and> (\<forall>failures. health = Inl failures \<longrightarrow> failures \<noteq> [] \<and>
         (\<exists>at. last (w_jobs (app_world s')) = JHealthCheck (new_health_check (r_id r) 0) (Some at)))"
proof -
  obtain health w where h: "check_health E r (app_world s) = (health, w)" by fastforce
  let ?s = "s\<lparr> app_world := w \<rparr>"
  have run: "attemptM (inW (check_health E r)) s = (Inr health :: relayer_error + _, ?s)"
    using h by (simp add: attemptM_def inW_def)
  note h' = check_health_result [OF h]
  show ?thesis
  proof (cases health)
    case (Inr u)
    have "relayer_entry_ok (r_id r) r"
      using assms(2,3) unfolding relayer_store_wf_def by blast
    then have same: "r\<lparr> r_system_disabled := False, r_disabled_reason := None \<rparr> = r" if "\<not> r_system_disabled r"
      using that by (cases r) (simp add: relayer_entry_ok_def)
    show ?thesis
    proof (cases "r_system_disabled r")
      case True
      obtain x s1 where e: "map_errM relayer_error_of_repository_error (relayersM E (enable_relayer (r_id r))) ?s = (Inr x, s1)"
        "s' = s1"
        using assms(1) True unfolding initialize_relayer_def bindM_run [where m = "attemptM (inW (check_health E r))", OF run] Inr
        by (auto simp: returnM_def elim: bindM_okE)
      show ?thesis
        using relayersM_modify [OF e(1) [unfolded enable_relayer_def]] e(2) assms(2) Inr
        by (intro exI [of _ health] exI [of _ w] conjI h h'(1)) auto
    next
      case False
      then have "s' = ?s"
        using assms(1) run Inr by (simp add: initialize_relayer_def bindM_def returnM_def)
      then show ?thesis
        using Inr same [OF False] fun_upd_idem [of "map_of (app_relayers s)", OF assms(2)]
        by (intro exI [of _ health] exI [of _ w] conjI h h'(1)) simp_all
    qed
  next
    case (Inl failures)
    show ?thesis
      using initialize_failed [OF assms(1) h [unfolded Inl]] assms(2) h'(2) Inl
      by (intro exI [of _ health] exI [of _ w] conjI h h'(1)) auto
  qed
qed

definition ex_app :: app where
  "ex_app = \<lparr> app_world = ex_world ex_tx, app_relayers = [(''relayer'', ex_relayer)] \<rparr>"

lemma ex_initialized: "\<exists>s'. initialize_relayer ex_env ex_relayer ex_app = (Inr (), s')"
proof (cases "check_health ex_env ex_relayer (ex_world ex_tx)")
  case (Pair health w)
  have r: "r_id ex_relayer = ''relayer''" "\<not> r_system_disabled ex_relayer" "r_notification_id ex_relayer = None"
    "app_relayers ex_app = [(''relayer'', ex_relayer)]" "app_world ex_app = ex_world ex_tx"
    by (simp_all add: ex_relayer_def ex_app_def)
  show ?thesis
    by (cases health) (simp_all add: initialize_relayer_def eff_defs Pair r relayersM_def disable_relayer_def relayer_modify_def
      ex_env_no_fault Let_def inW_def produceM_def askM_def)
qed

theorem initialization_decides_enablement_witness:
  "\<exists>s' r'. initialize_relayer ex_env ex_relayer ex_app = (Inr (), s') \<and> map_of (app_relayers s') ''relayer'' = Some r'
     \<and> (r_system_disabled r' \<longleftrightarrow> fst (check_health ex_env ex_relayer (ex_world ex_tx)) \<noteq> Inr ())"
proof -
  obtain s' where run: "initialize_relayer ex_env ex_relayer ex_app = (Inr (), s')"
    using ex_initialized by blast
  have r: "r_id ex_relayer = ''relayer''" "app_world ex_app = ex_world ex_tx"
    "map_of (app_relayers ex_app) (r_id ex_relayer) = Some ex_relayer" "relayer_store_wf (app_relayers ex_app)"
    by (simp_all add: ex_relayer_def ex_app_def relayer_store_wf_def relayer_entry_ok_def)
  obtain health w where "check_health ex_env ex_relayer (ex_world ex_tx) = (health, w)"
    "map_of (app_relayers s') = (map_of (app_relayers ex_app))(''relayer'' \<mapsto> (case health of
        Inr _ \<Rightarrow> ex_relayer\<lparr> r_system_disabled := False, r_disabled_reason := None \<rparr>
      | Inl failures \<Rightarrow> ex_relayer\<lparr> r_system_disabled := True, r_disabled_reason := from_health_failures failures \<rparr>))"
    using initialization_decides_enablement [OF run r(3,4)] unfolding r(1,2) by blast
  then show ?thesis
    using run by (cases health) auto
qed

section \<open>What the relayer operations keep\<close>

lemma repo_quiet_find: "repo_quiet (find_by_status order rid sts)"
  by (auto simp: repo_quiet_def find_by_status_def Let_def)

context quiet_inv
begin

lemma quiet_queue_new: "preserves J (queue_new_transaction E net t) (\<lambda>_. True)"
  unfolding queue_new_transaction_def by (rule pres quiet quiet_initial_check TrueI)+

lemma quiet_process_request: "preserves J (process_transaction_request_with_id E net r req i) (\<lambda>_. True)"
  unfolding process_transaction_request_with_id_def Let_def
  by (rule pres quiet quiet_relayer_network quiet_queue_new TrueI)+

lemma quiet_cancel_each: "preserves J (cancel_each E txs cs ns) (\<lambda>_. True)"
proof (induction txs arbitrary: cs ns)
  case (Cons t txs)
  show ?case
    unfolding cancel_each.simps cancel_transaction_via_job_def by (rule pres quiet Cons.IH TrueI)+
qed (simp add: pres_return)

lemma quiet_delete_pending: "preserves J (delete_pending_transactions E r) (\<lambda>_. True)"
  unfolding delete_pending_transactions_def by (rule pres quiet repo_quiet_find quiet_cancel_each TrueI)+

lemma quiet_validate_rpc: "preserves J (validate_rpc E) (\<lambda>_. True)"
  unfolding validate_rpc_def by (rule pres quiet TrueI)+

lemma quiet_validate_min_balance: "preserves J (validate_min_balance E r) (\<lambda>_. True)"
  unfolding validate_min_balance_def by (rule pres_map_err, rule pres_conseq [OF pres_call]) simp

lemma quiet_check_health: "preserves J (check_health E r) (\<lambda>_. True)"
  unfolding check_health_def Let_def
  by (rule pres quiet_sync_nonce quiet_validate_rpc quiet_validate_min_balance TrueI)+

end

end
