(* ===== verification/Tx_Idempotency.thy ===== *)
theory Tx_Idempotency
  imports Evm_Relayer
begin

text \<open>
  Idempotent creation of transactions (\<open>api/controllers/idempotency.rs\<close>) and the errors of
  the HTTP API it answers with (\<open>models/error/api.rs\<close>). The fingerprint of the request
  body, a SHA-256 digest, is an argument. The detached task that runs the creation when the
  client has gone is the same computation.
\<close>

section \<open>Errors of the API\<close>

datatype api_error =
    ApInternalEyreError string | ApInternalError string | ApNotFound string | ApBadRequest string
  | ApUnauthorized string | ApNotSupported string | ApForbiddenError string | ApConflict string
  | ApUnprocessableEntity string

definition http_status :: "api_error \<Rightarrow> nat" where
  "http_status e = (case e of
     ApInternalError _ \<Rightarrow> 500 | ApNotFound _ \<Rightarrow> 404 | ApBadRequest _ \<Rightarrow> 400 | ApUnauthorized _ \<Rightarrow> 401
   | ApNotSupported _ \<Rightarrow> 501 | ApInternalEyreError _ \<Rightarrow> 500 | ApForbiddenError _ \<Rightarrow> 403
   | ApConflict _ \<Rightarrow> 409 | ApUnprocessableEntity _ \<Rightarrow> 422)"

definition api_error_of_repository_error :: "repository_error \<Rightarrow> api_error" where
  "api_error_of_repository_error e = (case e of
     NotFound msg \<Rightarrow> ApNotFound msg
   | UnknownError msg \<Rightarrow> ApInternalError msg
   | _ \<Rightarrow> ApInternalError ''An unknown error occurred'')"

definition api_error_of_relayer_error :: "relayer_error \<Rightarrow> api_error" where
  "api_error_of_relayer_error e = (case e of
     RlNetworkConfiguration msg \<Rightarrow> ApInternalError msg
   | RlProviderError msg \<Rightarrow> ApInternalError msg
   | RlQueueError msg \<Rightarrow> ApInternalError msg
   | RlSignerError msg \<Rightarrow> ApInternalError msg
   | RlSignerFactoryError msg \<Rightarrow> ApInternalError msg
   | RlNotSupported msg \<Rightarrow> ApBadRequest msg
   | RlRelayerDisabled \<Rightarrow> ApForbiddenError ''Relayer disabled''
   | RlRelayerPaused \<Rightarrow> ApForbiddenError ''Relayer paused''
   | RlTransactionSequenceError c \<Rightarrow> ApInternalError (show_counter_error c)
   | RlInsufficientBalanceError msg \<Rightarrow> ApBadRequest msg
   | RlInsufficientRelayerBalance msg \<Rightarrow> ApBadRequest msg
   | RlUnderlyingProvider p \<Rightarrow> ApInternalError (show_provider_error p)
   | RlUnderlyingSolanaProvider p \<Rightarrow> ApInternalError (show_solana_provider_error p)
   | RlPolicyConfigurationError msg \<Rightarrow> ApInternalError msg
   | RlInvalidDexName msg \<Rightarrow> ApInternalError msg
   | RlDexError msg \<Rightarrow> ApInternalError msg
   | RlValidationError msg \<Rightarrow> ApBadRequest msg
   | RlInternal msg \<Rightarrow> ApInternalError msg)"

section \<open>Keys and windows\<close>

definition IDEMPOTENCY_KEY_MAX_LEN :: nat where "IDEMPOTENCY_KEY_MAX_LEN = 255"
definition MIN_IN_FLIGHT_WINDOW_SECONDS :: int where "MIN_IN_FLIGHT_WINDOW_SECONDS = 60"
definition IN_FLIGHT_WINDOW_MARGIN_SECONDS :: int where "IN_FLIGHT_WINDOW_MARGIN_SECONDS = 10"
definition INVALID_IDEMPOTENCY_KEY_MESSAGE :: string where
  "INVALID_IDEMPOTENCY_KEY_MESSAGE = ''Invalid Idempotency-Key header''"
definition IN_PROGRESS_MESSAGE :: string where
  "IN_PROGRESS_MESSAGE = ''A request with this Idempotency-Key is already in progress''"
definition PAYLOAD_MISMATCH_MESSAGE :: string where
  "PAYLOAD_MISMATCH_MESSAGE = ''Idempotency-Key reused with a different request payload''"
definition TRANSACTION_GONE_MESSAGE :: string where
  "TRANSACTION_GONE_MESSAGE = ''No transaction found for this Idempotency-Key. It may have completed and been removed from storage. Confirm whether the original request was processed before you send it again with a new key''"

text \<open>\<open>str::trim\<close> on the visible ASCII a header value consists of.\<close>

definition trim :: "string \<Rightarrow> string" where
  "trim s = (let ws = (\<lambda>c. c \<in> {CHR '' '', CHR 0x09, CHR 0x0A, CHR 0x0B, CHR 0x0C, CHR 0x0D})
     in rev (dropWhile ws (rev (dropWhile ws s))))"

definition normalize_idempotency_key :: "string \<Rightarrow> api_error + string" where
  "normalize_idempotency_key key =
     (let trimmed = trim key
      in if trimmed = [] \<or> length trimmed > IDEMPOTENCY_KEY_MAX_LEN
         then Inl (ApBadRequest INVALID_IDEMPOTENCY_KEY_MESSAGE) else Inr trimmed)"

definition in_flight_window_seconds :: "u64 \<Rightarrow> int" where
  "in_flight_window_seconds request_timeout_seconds =
     (let timeout = (if uint request_timeout_seconds \<le> 2 ^ 63 - 1 then uint request_timeout_seconds
                     else (2 ^ 63 - 1) div 2)
      in max MIN_IN_FLIGHT_WINDOW_SECONDS (min (2 ^ 63 - 1) (timeout + IN_FLIGHT_WINDOW_MARGIN_SECONDS)))"

definition effective_ttl_seconds :: "u64 \<Rightarrow> int \<Rightarrow> u64" where
  "effective_ttl_seconds configured_seconds window_seconds =
     (let window = (if window_seconds \<ge> 0 then of_int window_seconds else 0)
      in if configured_seconds < window then window else configured_seconds)"

text \<open>\<open>num_seconds\<close> of a duration in nanoseconds rounds towards zero.\<close>

definition num_seconds :: "int \<Rightarrow> int" where
  "num_seconds d = (if d \<ge> 0 then d div 1000000000 else - ((- d) div 1000000000))"

definition is_in_flight :: "'e clock_env_scheme \<Rightarrow> int \<Rightarrow> string \<Rightarrow> int \<Rightarrow> bool" where
  "is_in_flight C now created window_seconds = (case parse_rfc3339 C created of
     Some t \<Rightarrow> num_seconds (now - t) < window_seconds | None \<Rightarrow> True)"

section \<open>Creating at most once\<close>

type_synonym 'a api_op = "(world, api_error, 'a) eff"

definition replay :: "evm_env \<Rightarrow> string \<Rightarrow> string \<Rightarrow> string \<Rightarrow> int \<Rightarrow> transaction_repo_model api_op" where
  "replay E rid key fp window_seconds =
     bindM (askM (e_instant E)) (\<lambda>t.
     bindM (map_errM api_error_of_repository_error (repoM E (get_idempotency_record t rid key))) (\<lambda>record.
       case record of
         None \<Rightarrow> throwM (ApConflict IN_PROGRESS_MESSAGE)
       | Some existing \<Rightarrow>
           (if fingerprint existing \<noteq> fp then throwM (ApUnprocessableEntity PAYLOAD_MISMATCH_MESSAGE)
            else bindM (attemptM (repoM E (get_by_id (idem_tx_id existing)))) (\<lambda>answer. case answer of
                   Inr tx \<Rightarrow> returnM tx
                 | Inl (NotFound _) \<Rightarrow>
                     bindM (askM (e_now E)) (\<lambda>now.
                       if is_in_flight E now (idem_created_at existing) window_seconds
                       then throwM (ApConflict IN_PROGRESS_MESSAGE)
                       else throwM (ApNotFound TRANSACTION_GONE_MESSAGE))
                 | Inl e \<Rightarrow> throwM (api_error_of_repository_error e)))))"

definition create_idempotent ::
  "evm_env \<Rightarrow> u64 \<Rightarrow> string \<Rightarrow> string \<Rightarrow> string \<Rightarrow> u64 \<Rightarrow> (string \<Rightarrow> transaction_repo_model relayer_op) \<Rightarrow>
   transaction_repo_model api_op" where
  "create_idempotent E request_timeout rid key fp ttl create_op =
     (let window = in_flight_window_seconds request_timeout;
          ttl_seconds = effective_ttl_seconds ttl window
      in bindM (askM (e_uuid E)) (\<lambda>i.
         bindM (now_rfc3339 E) (\<lambda>created.
         bindM (askM (e_instant E)) (\<lambda>t0.
         bindM (askM (e_instant E)) (\<lambda>t1.
         bindM (map_errM api_error_of_repository_error (repoM E (reserve_idempotency_key t0 t1 rid key
                  \<lparr> fingerprint = fp, idem_tx_id = i, idem_created_at = created \<rparr> ttl_seconds))) (\<lambda>reserved.
           if \<not> reserved then replay E rid key fp window
           else bindM (attemptM (create_op i)) (\<lambda>result. case result of
                  Inr tx \<Rightarrow> returnM tx
                | Inl e \<Rightarrow>
                    thenM (ignoreM (repoM E (release_idempotency_key_if_unused rid key i)))
                      (throwM (api_error_of_relayer_error e)))))))))"

section \<open>A taken key never creates\<close>

text \<open>The record of a key, and that no clock reading during a call from \<open>w\<close> reaches its expiry.\<close>

definition key_record :: "string \<Rightarrow> string \<Rightarrow> world \<Rightarrow> (idempotency_record \<times> int) option" where
  "key_record rid key w = map_of (idempotency (w_repo w)) (idempotency_map_key rid key)"

definition unexpired :: "evm_env \<Rightarrow> world \<Rightarrow> int \<Rightarrow> bool" where
  "unexpired E w e \<longleftrightarrow> (\<forall>k \<le> 5. e_instant E (w_tick w + k) < e)"

lemma reserve_taken_run:
  assumes "e_storage_fault E = (\<lambda>_. None)" "repo_wf (w_repo w)" "key_record rid key w = Some (held, e)" "t < e"
  shows "\<exists>w1. map_errM f (repoM E (reserve_idempotency_key t t' rid key held' ttl)) w = (Inr False, w1)
    \<and> store (w_repo w1) = store (w_repo w) \<and> w_jobs w1 = w_jobs w \<and> w_tick w1 = Suc (w_tick w)
    \<and> repo_wf (w_repo w1) \<and> key_record rid key w1 = Some (held, e)"
proof -
  obtain R where R: "reserve_idempotency_key t t' rid key held' ttl (w_repo w) = (Inr False, R)" "repo_wf R"
    "map_of (idempotency R) (idempotency_map_key rid key) = Some (held, e)"
    using reserve_taken [OF assms(2) assms(3) [unfolded key_record_def] assms(4)] by blast
  moreover from R(1) have "store R = store (w_repo w)"
    by (auto simp: reserve_idempotency_key_def Let_def split: if_splits)
  ultimately show ?thesis
    using assms(1) by (simp add: map_errM_def repoM_def key_record_def)
qed

lemma get_record_run:
  assumes "e_storage_fault E = (\<lambda>_. None)" "repo_wf (w_repo w)" "key_record rid key w = Some (held, e)" "t < e"
  shows "\<exists>w1. map_errM f (repoM E (get_idempotency_record t rid key)) w = (Inr (Some held), w1)
    \<and> store (w_repo w1) = store (w_repo w) \<and> w_jobs w1 = w_jobs w"
proof -
  have "distinct (map fst (idempotency (w_repo w)))"
    using assms(2) by (simp add: repo_wf_def)
  then have "map_of (purge_expired_idempotency t (idempotency (w_repo w))) (idempotency_map_key rid key) = Some (held, e)"
    using assms(3,4) by (simp add: map_of_purge key_record_def)
  then show ?thesis
    using assms(1) by (simp add: map_errM_def repoM_def get_idempotency_record_def Let_def)
qed

lemma replay_run:
  assumes "e_storage_fault E = (\<lambda>_. None)" "repo_wf (w_repo w)" "key_record rid key w = Some (held, e)"
    "e_instant E (w_tick w) < e"
  shows "\<exists>w1. store (w_repo w1) = store (w_repo w) \<and> w_jobs w1 = w_jobs w
    \<and> (fingerprint held \<noteq> fp \<longrightarrow> replay E rid key fp window w = (Inl (ApUnprocessableEntity PAYLOAD_MISMATCH_MESSAGE), w1))
    \<and> (\<forall>tx. fingerprint held = fp \<and> tx_lookup (w_repo w) (idem_tx_id held) = Some tx \<longrightarrow>
         replay E rid key fp window w = (Inr tx, w1))"
proof -
  let ?w = "w\<lparr> w_tick := Suc (w_tick w) \<rparr>"
  obtain w1 where g: "map_errM api_error_of_repository_error (repoM E (get_idempotency_record (e_instant E (w_tick w)) rid key)) ?w
      = (Inr (Some held), w1)" "store (w_repo w1) = store (w_repo w)" "w_jobs w1 = w_jobs w"
    using get_record_run [of E ?w rid key held e "e_instant E (w_tick w)" api_error_of_repository_error] assms
    by (auto simp: key_record_def)
  have ask: "askM (e_instant E) w = (Inr (e_instant E (w_tick w)) :: api_error + _, ?w)"
    by (simp add: askM_def)
  have step: "replay E rid key fp window w =
    (if fingerprint held \<noteq> fp then throwM (ApUnprocessableEntity PAYLOAD_MISMATCH_MESSAGE)
            else bindM (attemptM (repoM E (get_by_id (idem_tx_id held)))) (\<lambda>answer. case answer of
                   Inr tx \<Rightarrow> returnM tx
                 | Inl (NotFound _) \<Rightarrow>
                     bindM (askM (e_now E)) (\<lambda>now.
                       if is_in_flight E now (idem_created_at held) window
                       then throwM (ApConflict IN_PROGRESS_MESSAGE)
                       else throwM (ApNotFound TRANSACTION_GONE_MESSAGE))
                 | Inl e \<Rightarrow> throwM (api_error_of_repository_error e))) w1"
    unfolding replay_def bindM_run [where m = "askM (e_instant E)", OF ask] bindM_run [where m = "map_errM _ _", OF g(1)]
      option.case by (rule refl)
  show ?thesis
  proof (cases "fingerprint held = fp")
    case False
    then show ?thesis
      using step g by (intro exI [of _ w1]) (simp add: throwM_def)
  next
    case True
    then show ?thesis
      using step g assms(1)
      by (intro exI [of _ "w1\<lparr> w_tick := Suc (w_tick w1) \<rparr>"])
        (simp add: bindM_def attemptM_def repoM_def get_by_id_def returnM_def )
  qed
qed

lemma create_idempotent_reserves:
  fixes E w defines "w4 \<equiv> w\<lparr> w_tick := w_tick w + 4 \<rparr>"
  shows "create_idempotent E T rid key fp ttl op w =
    (let window = in_flight_window_seconds T; i = e_uuid E (w_tick w)
     in bindM (map_errM api_error_of_repository_error (repoM E (reserve_idempotency_key
              (e_instant E (w_tick w + 2)) (e_instant E (w_tick w + 3)) rid key
              \<lparr> fingerprint = fp, idem_tx_id = i, idem_created_at = to_rfc3339 E (e_now E (w_tick w + 1)) \<rparr>
              (effective_ttl_seconds ttl window)))) (\<lambda>reserved.
           if \<not> reserved then replay E rid key fp window
           else bindM (attemptM (op i)) (\<lambda>result. case result of
                  Inr tx \<Rightarrow> returnM tx
                | Inl e \<Rightarrow>
                    thenM (ignoreM (repoM E (release_idempotency_key_if_unused rid key i)))
                      (throwM (api_error_of_relayer_error e))))) w4"
proof -
  have ask: "bindM (askM f) k w = k (f (w_tick w)) (w\<lparr> w_tick := Suc (w_tick w) \<rparr>)"
    for f :: "nat \<Rightarrow> 'a" and k :: "'a \<Rightarrow> transaction_repo_model api_op" and w
    by (simp add: bindM_def askM_def)
  have now: "bindM (now_rfc3339 E) k w = k (to_rfc3339 E (e_now E (w_tick w))) (w\<lparr> w_tick := Suc (w_tick w) \<rparr>)"
    for k :: "string \<Rightarrow> transaction_repo_model api_op" and w
    by (simp add: now_rfc3339_def bindM_def askM_def returnM_def)
  show ?thesis
    unfolding create_idempotent_def Let_def ask now w4_def by (simp add: numeral_eq_Suc)
qed

lemma taken_key_replays:
  assumes "e_storage_fault E = (\<lambda>_. None)" "repo_wf (w_repo w)" "key_record rid key w = Some (held, e)" "unexpired E w e"
  shows "\<exists>w1. store (w_repo w1) = store (w_repo w) \<and> w_jobs w1 = w_jobs w
    \<and> (fingerprint held \<noteq> fp \<longrightarrow>
         create_idempotent E T rid key fp ttl op w = (Inl (ApUnprocessableEntity PAYLOAD_MISMATCH_MESSAGE), w1))
    \<and> (\<forall>tx. fingerprint held = fp \<and> tx_lookup (w_repo w) (idem_tx_id held) = Some tx \<longrightarrow>
         create_idempotent E T rid key fp ttl op w = (Inr tx, w1))"
proof -
  let ?w = "w\<lparr> w_tick := w_tick w + 4 \<rparr>" and ?t = "e_instant E (w_tick w + 2)"
  have t: "?t < e" "e_instant E (w_tick w + 5) < e"
    using assms(4) [unfolded unexpired_def, rule_format, of 2] assms(4) [unfolded unexpired_def, rule_format, of 5] by simp_all
  have w: "repo_wf (w_repo ?w)" "key_record rid key ?w = Some (held, e)"
    using assms(2,3) by (simp_all add: key_record_def)
  obtain w1 where r: "map_errM api_error_of_repository_error (repoM E (reserve_idempotency_key
              ?t (e_instant E (w_tick w + 3)) rid key
              \<lparr> fingerprint = fp, idem_tx_id = e_uuid E (w_tick w), idem_created_at = to_rfc3339 E (e_now E (w_tick w + 1)) \<rparr>
              (effective_ttl_seconds ttl (in_flight_window_seconds T)))) ?w = (Inr False, w1)"
    and w1: "store (w_repo w1) = store (w_repo ?w)" "w_jobs w1 = w_jobs ?w" "w_tick w1 = Suc (w_tick ?w)"
      "repo_wf (w_repo w1)" "key_record rid key w1 = Some (held, e)"
    using reserve_taken_run [OF assms(1) w t(1)] by blast
  have "create_idempotent E T rid key fp ttl op w = replay E rid key fp (in_flight_window_seconds T) w1"
    unfolding create_idempotent_reserves Let_def bindM_run [where m = "map_errM _ _", OF r] by simp
  then show ?thesis
    using replay_run [OF assms(1) w1(4,5), of fp "in_flight_window_seconds T"] t(2) w1 by (auto simp: add.commute)
qed

section \<open>A request is carried out once\<close>

lemma fresh_key_reserved:
  assumes "create_idempotent E T rid key fp ttl op w = (Inr tx, w')" "repo_wf (w_repo w)" "key_record rid key w = None"
  shows "\<exists>w1 created. op (e_uuid E (w_tick w)) w1 = (Inr tx, w') \<and> store (w_repo w1) = store (w_repo w) \<and> w_jobs w1 = w_jobs w
    \<and> repo_wf (w_repo w1)
    \<and> key_record rid key w1 = Some (\<lparr> fingerprint = fp, idem_tx_id = e_uuid E (w_tick w), idem_created_at = created \<rparr>,
         e_instant E (w_tick w + 3) + secs (uint (effective_ttl_seconds ttl (in_flight_window_seconds T))))"
proof -
  let ?w = "w\<lparr> w_tick := w_tick w + 4 \<rparr>" and ?i = "e_uuid E (w_tick w)"
  let ?held = "\<lparr> fingerprint = fp, idem_tx_id = ?i, idem_created_at = to_rfc3339 E (e_now E (w_tick w + 1)) \<rparr>"
  let ?reserve = "reserve_idempotency_key (e_instant E (w_tick w + 2)) (e_instant E (w_tick w + 3)) rid key ?held
              (effective_ttl_seconds ttl (in_flight_window_seconds T))"
  have d: "distinct (map fst (idempotency (w_repo w)))"
    using assms(2) by (simp add: repo_wf_def)
  obtain R where R: "?reserve (w_repo w) = (Inr True, R)" "store R = store (w_repo w)"
    "map_of (idempotency R) (idempotency_map_key rid key) = Some (?held, e_instant E (w_tick w + 3)
        + secs (uint (effective_ttl_seconds ttl (in_flight_window_seconds T))))"
    using assms(3) by (simp add: reserve_idempotency_key_def Let_def map_of_purge [OF d] key_record_def map_of_alist_update)
  obtain reserved w1 where r: "map_errM api_error_of_repository_error (repoM E ?reserve) ?w = (Inr reserved, w1)"
    and rest: "(if \<not> reserved then replay E rid key fp (in_flight_window_seconds T)
           else bindM (attemptM (op ?i)) (\<lambda>result. case result of
                  Inr tx \<Rightarrow> returnM tx
                | Inl e \<Rightarrow>
                    thenM (ignoreM (repoM E (release_idempotency_key_if_unused rid key ?i)))
                      (throwM (api_error_of_relayer_error e)))) w1 = (Inr tx, w')"
    using assms(1) unfolding create_idempotent_reserves Let_def by (elim bindM_okE) blast
  have w1: "reserved" "w_repo w1 = R" "w_jobs w1 = w_jobs w"
    using r R(1) by (auto simp: map_errM_def repoM_def split: option.splits)
  have "op ?i w1 = (Inr tx, w')"
    using rest w1(1)
    by (cases "op ?i w1"; cases "fst (op ?i w1)")
      (auto simp: bindM_def attemptM_def returnM_def thenM_def ignoreM_def throwM_def split: prod.splits)
  moreover have "repo_wf R"
    using repo_step_wf [OF step_reserve assms(2)] R(1) by (metis snd_conv)
  ultimately show ?thesis
    using R w1 by (auto simp: key_record_def)
qed

lemma idempotent_first_call:
  assumes "repo_wf (w_repo w)" and "key_record rid key w = None"
    and "create_idempotent E T rid key fp ttl (process_transaction_request_with_id E net r req) w = (Inr tx, w1)"
  shows "tx_lookup (w_repo w1) = (tx_lookup (w_repo w))(tx_id tx \<mapsto> tx)
    \<and> (\<exists>at. w_jobs w1 = w_jobs w @ [check_of net tx at, request_of tx])
    \<and> (\<exists>created. key_record rid key w1 = Some (\<lparr> fingerprint = fp, idem_tx_id = tx_id tx, idem_created_at = created \<rparr>,
          e_instant E (w_tick w + 3) + secs (uint (effective_ttl_seconds ttl (in_flight_window_seconds T)))))"
proof -
  obtain v created where p: "process_transaction_request_with_id E net r req (e_uuid E (w_tick w)) v = (Inr tx, w1)"
    and v: "store (w_repo v) = store (w_repo w)" "w_jobs v = w_jobs w"
      "key_record rid key v = Some (\<lparr> fingerprint = fp, idem_tx_id = e_uuid E (w_tick w), idem_created_at = created \<rparr>,
         e_instant E (w_tick w + 3) + secs (uint (effective_ttl_seconds ttl (in_flight_window_seconds T))))"
    using fresh_key_reserved [OF assms(3,1,2)] by blast
  obtain tx' v1 where s: "tx_id tx' = e_uuid E (w_tick w)"
      "tx_lookup (w_repo v1) = (tx_lookup (w_repo v))(e_uuid E (w_tick w) \<mapsto> tx')"
      "w_jobs v1 = w_jobs v" "idempotency (w_repo v1) = idempotency (w_repo v)"
      "queue_new_transaction E net tx' v1 = (Inr tx, w1)"
    using process_request_stages [OF p] by blast
  obtain at where q: "tx = tx'" "w_repo w1 = w_repo v1" "w_jobs w1 = w_jobs v1 @ [check_of net tx' at, request_of tx']"
    using queue_new_result [OF s(5)] by blast
  show ?thesis
    using v s q by (auto simp: key_record_def)
qed

text \<open>
  C7: A request with an idempotency key is carried out once. When a key is free, the call
  that creates a transaction stores just that transaction and queues its two jobs. Any
  later call with the key, before the record expires and while the transaction is still
  stored, creates nothing, changes no transaction and queues no job: it returns the
  transaction in its present state, or refuses with a payload mismatch when the request
  differs.
\<close>

theorem idempotent_request_once:
  assumes "e_storage_fault E = (\<lambda>_. None)" and "repo_wf (w_repo w)" and "key_record rid key w = None"
    and "create_idempotent E T rid key fp ttl (process_transaction_request_with_id E net r req) w = (Inr tx, w1)"
    and "repo_wf (w_repo w2)" and "key_record rid key w2 = key_record rid key w1"
    and "tx_lookup (w_repo w2) (tx_id tx) = Some tx2"
    and "unexpired E w2 (e_instant E (w_tick w + 3)
           + secs (uint (effective_ttl_seconds ttl (in_flight_window_seconds T))))"
  shows "tx_lookup (w_repo w1) = (tx_lookup (w_repo w))(tx_id tx \<mapsto> tx)
    \<and> (\<exists>at. w_jobs w1 = w_jobs w @ [check_of net tx at, request_of tx])
    \<and> (\<exists>w3. create_idempotent E T' rid key fp' ttl' op w2 =
             (if fp' = fp then Inr tx2 else Inl (ApUnprocessableEntity PAYLOAD_MISMATCH_MESSAGE), w3)
           \<and> store (w_repo w3) = store (w_repo w2) \<and> w_jobs w3 = w_jobs w2)"
proof -
  obtain created where "key_record rid key w2 = Some (\<lparr> fingerprint = fp, idem_tx_id = tx_id tx, idem_created_at = created \<rparr>,
      e_instant E (w_tick w + 3) + secs (uint (effective_ttl_seconds ttl (in_flight_window_seconds T))))"
    using idempotent_first_call [OF assms(2,3,4)] assms(6) by auto
  from taken_key_replays [OF assms(1,5) this assms(8), of fp' T' ttl' op] show ?thesis
    using idempotent_first_call [OF assms(2,3,4)] assms(7) by auto
qed

lemma ex_process_accepts:
  assumes "tx_lookup (w_repo w) i = None"
  shows "\<exists>tx w'. process_transaction_request_with_id ex_env ex_network ex_relayer ex_request i w = (Inr tx, w')"
  using assms by (simp add: process_transaction_request_with_id_def relayer_network_def queue_new_transaction_def eff_defs
      ex_env_no_fault ex_env_calls Let_def now_rfc3339_def repoM_def create_def schedule_initial_status_check_def
      produceM_def)

lemma ex_idempotent_created:
  "\<exists>tx w1. create_idempotent ex_env 30 ''relayer'' ''k'' ''f'' 60
     (process_transaction_request_with_id ex_env ex_network ex_relayer ex_request) (ex_world ex_tx) = (Inr tx, w1)
     \<and> repo_wf (w_repo w1)"
proof -
  let ?op = "process_transaction_request_with_id ex_env ex_network ex_relayer ex_request"
  let ?reserve = "\<lambda>t t' held ttl. map_errM api_error_of_repository_error
      (repoM ex_env (reserve_idempotency_key t t' ''relayer'' ''k'' held ttl))"
  have u: "e_uuid ex_env t = ''uuid''" for t by (simp add: ex_env_def)
  have r: "\<exists>w1. ?reserve t t' held ttl ((ex_world ex_tx)\<lparr> w_tick := k \<rparr>) = (Inr True, w1) \<and> repo_wf (w_repo w1)
      \<and> tx_lookup (w_repo w1) ''uuid'' = None" for t t' held ttl k
    using repo_step_wf [OF step_reserve ex_world_wf, of t t' "''relayer''" "''k''" held ttl ex_tx]
    by (simp add: map_errM_def repoM_def ex_env_no_fault reserve_idempotency_key_def purge_expired_idempotency_def ex_tx_sel)
  have "\<exists>tx w'. bindM (attemptM (?op ''uuid'')) (\<lambda>result. case result of
                  Inr tx \<Rightarrow> returnM tx
                | Inl e \<Rightarrow>
                    thenM (ignoreM (repoM ex_env (release_idempotency_key_if_unused ''relayer'' ''k'' ''uuid'')))
                      (throwM (api_error_of_relayer_error e))) w1 = (Inr tx, w') \<and> repo_wf (w_repo w')"
    if "tx_lookup (w_repo w1) ''uuid'' = None" "repo_wf (w_repo w1)" for w1
    using ex_process_accepts [OF that(1)] pres_snd [OF wf_inv.quiet_process_request that(2), of ex_env ex_network ex_relayer ex_request "''uuid''"]
    by (auto simp: bindM_def attemptM_def returnM_def)
  moreover obtain w1 where w1: "?reserve (e_instant ex_env (w_tick (ex_world ex_tx) + 2)) (e_instant ex_env (w_tick (ex_world ex_tx) + 3))
      \<lparr> fingerprint = ''f'', idem_tx_id = ''uuid'', idem_created_at = to_rfc3339 ex_env (e_now ex_env (w_tick (ex_world ex_tx) + 1)) \<rparr>
      (effective_ttl_seconds 60 (in_flight_window_seconds 30))
      ((ex_world ex_tx)\<lparr> w_tick := w_tick (ex_world ex_tx) + 4 \<rparr>) = (Inr True, w1)"
      "repo_wf (w_repo w1)" "tx_lookup (w_repo w1) ''uuid'' = None"
    using r by blast
  ultimately show ?thesis
    unfolding create_idempotent_reserves Let_def u bindM_run [where m = "map_errM _ _", OF w1(1)] by simp
qed

theorem idempotent_request_once_witness:
  "\<exists>tx w1 w3. create_idempotent ex_env 30 ''relayer'' ''k'' ''f'' 60
        (process_transaction_request_with_id ex_env ex_network ex_relayer ex_request) (ex_world ex_tx) = (Inr tx, w1)
     \<and> create_idempotent ex_env 30 ''relayer'' ''k'' ''f'' 60
        (process_transaction_request_with_id ex_env ex_network ex_relayer ex_request) w1 = (Inr tx, w3)
     \<and> w_jobs w3 = w_jobs w1"
proof -
  let ?op = "process_transaction_request_with_id ex_env ex_network ex_relayer ex_request"
  obtain tx w1 where first: "create_idempotent ex_env 30 ''relayer'' ''k'' ''f'' 60 ?op (ex_world ex_tx) = (Inr tx, w1)"
    and wf: "repo_wf (w_repo w1)"
    using ex_idempotent_created by blast
  have up: "e_storage_fault ex_env = (\<lambda>_. None)" "key_record ''relayer'' ''k'' (ex_world ex_tx) = None"
    by (auto simp: ex_env_no_fault key_record_def)
  have time: "unexpired ex_env w1 (e_instant ex_env (w_tick (ex_world ex_tx) + 3)
      + secs (uint (effective_ttl_seconds 60 (in_flight_window_seconds 30))))"
    by (simp add: unexpired_def ex_env_def effective_ttl_seconds_def in_flight_window_seconds_def
        MIN_IN_FLIGHT_WINDOW_SECONDS_def IN_FLIGHT_WINDOW_MARGIN_SECONDS_def secs_def)
  have "tx_lookup (w_repo w1) (tx_id tx) = Some tx"
    using idempotent_first_call [OF ex_world_wf up(2) first] by simp
  from idempotent_request_once [OF up(1) ex_world_wf up(2) first wf refl this time, of 30 "''f''" 60 ?op]
  show ?thesis using first by auto
qed

end
