(* ===== verification/Job_Handlers.thy ===== *)
theory Job_Handlers
  imports Tx_Idempotency
begin

text \<open>
  The workers of the job queues (\<open>jobs/handlers\<close>), the retry delays of
  \<open>queues/retry_config.rs\<close>, and the construction of the network services they call
  (\<open>domain/transaction/util.rs\<close>, \<open>domain/relayer/util.rs\<close>). Solana and Stellar services are
  parameters; metrics and logging are left out.
\<close>

section \<open>Errors and their texts\<close>

definition show_solana_validation_error :: "solana_validation_error \<Rightarrow> string" where
  "show_solana_validation_error e = (case e of
     SvDecodeError m \<Rightarrow> ''Failed to decode transaction: '' @ m
   | SvDeserializeError m \<Rightarrow> ''Failed to deserialize transaction: '' @ m
   | SvSigningError m \<Rightarrow> ''Validation error: '' @ m
   | SvPolicyViolation m \<Rightarrow> ''Policy violation: '' @ m
   | SvExpiredBlockhash m \<Rightarrow> ''Blockhash '' @ m @ '' is expired''
   | SvValidationError m \<Rightarrow> ''Validation error: '' @ m
   | SvFeePayer m \<Rightarrow> ''Fee payer error: '' @ m
   | SvInsufficientFunds m \<Rightarrow> ''Insufficient funds: '' @ m
   | SvInsufficientBalance m \<Rightarrow> ''Insufficient balance: '' @ m
   | SvUnderlyingSolanaProvider p \<Rightarrow> ''Underlying Solana provider error: '' @ show_solana_provider_error p)"

definition show_stellar_validation_error :: "stellar_validation_error \<Rightarrow> string" where
  "show_stellar_validation_error e = (case e of
     StValidationError m \<Rightarrow> ''Validation error: '' @ m
   | StPolicyViolation m \<Rightarrow> ''Policy violation: '' @ m
   | StInvalidAssetIdentifier m \<Rightarrow> ''Invalid asset identifier: '' @ m
   | StTokenNotAllowed m \<Rightarrow> ''Token not allowed: '' @ m
   | StInsufficientTokenPayment a b \<Rightarrow> ''Insufficient token payment: expected '' @ show_nat a @ '', got '' @ show_nat b
   | StMaxFeeExceeded f \<Rightarrow> ''Max fee exceeded: '' @ show_nat f)"

definition show_transaction_error :: "transaction_error \<Rightarrow> string" where
  "show_transaction_error e = (case e of
     ValidationError m \<Rightarrow> ''Transaction validation error: '' @ m
   | SolanaValidation v \<Rightarrow> ''Solana transaction validation error: '' @ show_solana_validation_error v
   | NetworkConfiguration m \<Rightarrow> ''Network configuration error: '' @ m
   | JobProducerError m \<Rightarrow> ''Job producer error: '' @ show_job_producer_error m
   | InvalidType m \<Rightarrow> ''Invalid transaction type: '' @ m
   | UnderlyingProvider p \<Rightarrow> ''Underlying provider error: '' @ show_provider_error p
   | UnderlyingSolanaProvider p \<Rightarrow> ''Underlying Solana provider error: '' @ show_solana_provider_error p
   | StellarTransactionValidationError v \<Rightarrow> ''Stellar validation error: '' @ show_stellar_validation_error v
   | UnexpectedError m \<Rightarrow> ''Unexpected error: '' @ m
   | ConcurrentUpdateConflict m \<Rightarrow> ''Concurrent update conflict: '' @ m
   | NotSupported m \<Rightarrow> ''Not supported: '' @ m
   | SignerError m \<Rightarrow> ''Signer error: '' @ m
   | InsufficientBalance m \<Rightarrow> ''Insufficient balance: '' @ m
   | SimulationFailed m \<Rightarrow> ''Stellar transaction simulation failed: '' @ m
   | Panicked m \<Rightarrow> m)"

definition api_error_of_transaction_error :: "transaction_error \<Rightarrow> api_error" where
  "api_error_of_transaction_error e = (case e of
     ValidationError m \<Rightarrow> ApBadRequest m
   | StellarTransactionValidationError v \<Rightarrow> ApBadRequest (show_stellar_validation_error v)
   | SolanaValidation v \<Rightarrow> ApBadRequest (show_solana_validation_error v)
   | NetworkConfiguration m \<Rightarrow> ApInternalError m
   | JobProducerError m \<Rightarrow> ApInternalError (show_job_producer_error m)
   | InvalidType m \<Rightarrow> ApInternalError m
   | UnderlyingProvider p \<Rightarrow> ApInternalError (show_provider_error p)
   | UnderlyingSolanaProvider p \<Rightarrow> ApInternalError (show_solana_provider_error p)
   | NotSupported m \<Rightarrow> ApBadRequest m
   | UnexpectedError m \<Rightarrow> ApInternalError m
   | ConcurrentUpdateConflict m \<Rightarrow> ApInternalError m
   | SignerError m \<Rightarrow> ApInternalError m
   | InsufficientBalance m \<Rightarrow> ApBadRequest m
   | SimulationFailed m \<Rightarrow> ApBadRequest m
   | Panicked m \<Rightarrow> ApInternalError m)"

definition show_api_error :: "api_error \<Rightarrow> string" where
  "show_api_error e = (case e of
     ApInternalEyreError m \<Rightarrow> ''Internal Server Error: '' @ m
   | ApInternalError m \<Rightarrow> ''Internal Server Error: '' @ m
   | ApNotFound m \<Rightarrow> ''Not Found: '' @ m
   | ApBadRequest m \<Rightarrow> ''Bad Request: '' @ m
   | ApUnauthorized m \<Rightarrow> ''Unauthorized: '' @ m
   | ApNotSupported m \<Rightarrow> ''Not Supported: '' @ m
   | ApForbiddenError m \<Rightarrow> ''Forbidden: '' @ m
   | ApConflict m \<Rightarrow> ''Conflict: '' @ m
   | ApUnprocessableEntity m \<Rightarrow> ''Unprocessable Entity: '' @ m)"

text \<open>An \<open>eyre::Report\<close> keeps the error it was made from, which the handlers look up again.\<close>

datatype report = ReportApi api_error | ReportRepo repository_error | ReportTx transaction_error | ReportText string

definition show_report :: "report \<Rightarrow> string" where
  "show_report e = (case e of
     ReportApi a \<Rightarrow> show_api_error a | ReportRepo r \<Rightarrow> show_repository_error r
   | ReportTx t \<Rightarrow> show_transaction_error t | ReportText m \<Rightarrow> m)"

section \<open>Retries of a job\<close>

datatype handler_error = Retry string | NotYetFinal transaction_status | Abort string

definition WORKER_DEFAULT_MAXIMUM_RETRIES :: nat where "WORKER_DEFAULT_MAXIMUM_RETRIES = 5"
definition WORKER_TRANSACTION_REQUEST_RETRIES :: nat where "WORKER_TRANSACTION_REQUEST_RETRIES = 5"
definition WORKER_TRANSACTION_SUBMIT_RETRIES :: nat where "WORKER_TRANSACTION_SUBMIT_RETRIES = 0"
definition WORKER_TRANSACTION_RESUBMIT_RETRIES :: nat where "WORKER_TRANSACTION_RESUBMIT_RETRIES = 0"
definition WORKER_TRANSACTION_CANCEL_RETRIES :: nat where "WORKER_TRANSACTION_CANCEL_RETRIES = 0"
definition WORKER_TRANSACTION_RESEND_RETRIES :: nat where "WORKER_TRANSACTION_RESEND_RETRIES = 0"
definition WORKER_TRANSACTION_STATUS_CHECKER_RETRIES :: nat where
  "WORKER_TRANSACTION_STATUS_CHECKER_RETRIES = 2 ^ 64 - 1"
definition WORKER_NOTIFICATION_SENDER_RETRIES :: nat where "WORKER_NOTIFICATION_SENDER_RETRIES = 5"
definition WORKER_TOKEN_SWAP_REQUEST_RETRIES :: nat where "WORKER_TOKEN_SWAP_REQUEST_RETRIES = 0"
definition WORKER_RELAYER_HEALTH_CHECK_RETRIES :: nat where "WORKER_RELAYER_HEALTH_CHECK_RETRIES = 2"

definition is_terminal_error :: "report \<Rightarrow> bool" where
  "is_terminal_error e = (case e of
     ReportApi (ApNotFound _) \<Rightarrow> True | ReportRepo (NotFound _) \<Rightarrow> True | _ \<Rightarrow> False)"

definition handle_result :: "report + unit \<Rightarrow> nat \<Rightarrow> nat \<Rightarrow> handler_error + unit" where
  "handle_result result attempt max_attempts = (case result of
     Inr _ \<Rightarrow> Inr ()
   | Inl e \<Rightarrow>
       (if is_terminal_error e then Inl (Abort ''Terminal error: target entity not found, not retryable'')
        else if attempt \<ge> max_attempts then Inl (Abort ''Failed to handle request'')
        else Inl (Retry ''Failed to handle request. Retrying'')))"

definition get_max_retries :: "transaction_command \<Rightarrow> nat" where
  "get_max_retries c = (case c of
     Submit \<Rightarrow> WORKER_TRANSACTION_SUBMIT_RETRIES
   | Resubmit \<Rightarrow> WORKER_TRANSACTION_RESUBMIT_RETRIES
   | Cancel _ \<Rightarrow> WORKER_TRANSACTION_CANCEL_RETRIES
   | Resend \<Rightarrow> WORKER_TRANSACTION_RESEND_RETRIES)"

section \<open>Retry delays\<close>

type_synonym i32 = "32 word"

text \<open>The jitter, a factor of the worker's own policy, is left out.\<close>

record retry_backoff_config =
  initial_ms :: u64
  max_ms :: u64

definition TX_REQUEST_BACKOFF :: retry_backoff_config where
  "TX_REQUEST_BACKOFF = \<lparr> initial_ms = 500, max_ms = 5000 \<rparr>"
definition TX_SUBMISSION_BACKOFF :: retry_backoff_config where
  "TX_SUBMISSION_BACKOFF = \<lparr> initial_ms = 500, max_ms = 2000 \<rparr>"
definition STATUS_GENERIC_BACKOFF :: retry_backoff_config where
  "STATUS_GENERIC_BACKOFF = \<lparr> initial_ms = 5000, max_ms = 8000 \<rparr>"
definition STATUS_STELLAR_BACKOFF :: retry_backoff_config where
  "STATUS_STELLAR_BACKOFF = \<lparr> initial_ms = 2000, max_ms = 3000 \<rparr>"
definition NOTIFICATION_BACKOFF :: retry_backoff_config where
  "NOTIFICATION_BACKOFF = \<lparr> initial_ms = 2000, max_ms = 8000 \<rparr>"
definition TOKEN_SWAP_REQUEST_BACKOFF :: retry_backoff_config where
  "TOKEN_SWAP_REQUEST_BACKOFF = \<lparr> initial_ms = 5000, max_ms = 20000 \<rparr>"
definition TX_CLEANUP_BACKOFF :: retry_backoff_config where
  "TX_CLEANUP_BACKOFF = \<lparr> initial_ms = 5000, max_ms = 20000 \<rparr>"
definition SYSTEM_CLEANUP_BACKOFF :: retry_backoff_config where
  "SYSTEM_CLEANUP_BACKOFF = \<lparr> initial_ms = 5000, max_ms = 20000 \<rparr>"
definition RELAYER_HEALTH_BACKOFF :: retry_backoff_config where
  "RELAYER_HEALTH_BACKOFF = \<lparr> initial_ms = 2000, max_ms = 10000 \<rparr>"
definition TOKEN_SWAP_CRON_BACKOFF :: retry_backoff_config where
  "TOKEN_SWAP_CRON_BACKOFF = \<lparr> initial_ms = 2000, max_ms = 5000 \<rparr>"

definition evm_status_check_backoff :: "u64 \<Rightarrow> retry_backoff_config" where
  "evm_status_check_backoff retry_delay_seconds =
     (let initial = saturating_mul retry_delay_seconds 1000
      in \<lparr> initial_ms = initial, max_ms = saturating_mul initial 3 div 2 \<rparr>)"

definition STATUS_EVM_BACKOFF :: retry_backoff_config where
  "STATUS_EVM_BACKOFF = evm_status_check_backoff DEFAULT_EVM_STATUS_CHECK_RETRY_DELAY_SECONDS"

text \<open>The environment may override the Stellar profile; the two values are arguments.\<close>

definition stellar_status_backoff_config :: "u64 \<Rightarrow> u64 \<Rightarrow> retry_backoff_config" where
  "stellar_status_backoff_config configured_initial configured_max =
     \<lparr> initial_ms = configured_initial, max_ms = configured_max \<rparr>"

definition status_backoff_config :: "u64 \<Rightarrow> u64 \<Rightarrow> network_type option \<Rightarrow> retry_backoff_config" where
  "status_backoff_config configured_initial configured_max t = (case t of
     Some NtEvm \<Rightarrow> STATUS_EVM_BACKOFF
   | Some NtStellar \<Rightarrow> stellar_status_backoff_config configured_initial configured_max
   | _ \<Rightarrow> STATUS_GENERIC_BACKOFF)"

text \<open>\<open>saturating_pow\<close> of two does not saturate below 64; the last conversion truncates.\<close>

definition retry_delay_secs :: "retry_backoff_config \<Rightarrow> nat \<Rightarrow> i32" where
  "retry_delay_secs config attempt =
     (let factor = (2 :: u64) ^ min attempt 16;
          delay_ms = min (saturating_mul (initial_ms config) factor) (max_ms config)
      in of_nat ((unat delay_ms + 999) div 1000))"

definition status_check_retry_delay_secs :: "u64 \<Rightarrow> u64 \<Rightarrow> network_type option \<Rightarrow> nat \<Rightarrow> i32" where
  "status_check_retry_delay_secs configured_initial configured_max t attempt =
     retry_delay_secs (status_backoff_config configured_initial configured_max t) attempt"

datatype queue_type =
    QTransactionRequest | QTransactionSubmission | QStatusCheck | QStatusCheckEvm | QStatusCheckStellar
  | QNotification | QTokenSwapRequest | QRelayerHealthCheck

definition queue_name :: "queue_type \<Rightarrow> string" where
  "queue_name q = (case q of
     QTransactionRequest \<Rightarrow> ''transaction-request'' | QTransactionSubmission \<Rightarrow> ''transaction-submission''
   | QStatusCheck \<Rightarrow> ''status-check'' | QStatusCheckEvm \<Rightarrow> ''status-check-evm''
   | QStatusCheckStellar \<Rightarrow> ''status-check-stellar'' | QNotification \<Rightarrow> ''notification''
   | QTokenSwapRequest \<Rightarrow> ''token-swap-request'' | QRelayerHealthCheck \<Rightarrow> ''relayer-health-check'')"

definition redis_namespace :: "queue_type \<Rightarrow> string" where
  "redis_namespace q = (case q of
     QTransactionRequest \<Rightarrow> ''relayer:transaction_request''
   | QTransactionSubmission \<Rightarrow> ''relayer:transaction_submission''
   | QStatusCheck \<Rightarrow> ''relayer:transaction_status'' | QStatusCheckEvm \<Rightarrow> ''relayer:transaction_status_evm''
   | QStatusCheckStellar \<Rightarrow> ''relayer:transaction_status_stellar'' | QNotification \<Rightarrow> ''relayer:notification''
   | QTokenSwapRequest \<Rightarrow> ''relayer:token_swap_request''
   | QRelayerHealthCheck \<Rightarrow> ''relayer:relayer_health_check'')"

definition queue_max_retries :: "queue_type \<Rightarrow> nat" where
  "queue_max_retries q = (case q of
     QTransactionRequest \<Rightarrow> WORKER_TRANSACTION_REQUEST_RETRIES
   | QTransactionSubmission \<Rightarrow> WORKER_TRANSACTION_SUBMIT_RETRIES
   | QNotification \<Rightarrow> WORKER_NOTIFICATION_SENDER_RETRIES
   | QTokenSwapRequest \<Rightarrow> WORKER_TOKEN_SWAP_REQUEST_RETRIES
   | QRelayerHealthCheck \<Rightarrow> WORKER_RELAYER_HEALTH_CHECK_RETRIES
   | _ \<Rightarrow> WORKER_TRANSACTION_STATUS_CHECKER_RETRIES)"

definition visibility_timeout_secs :: "queue_type \<Rightarrow> nat" where
  "visibility_timeout_secs q = (case q of
     QTransactionRequest \<Rightarrow> 30 | QTransactionSubmission \<Rightarrow> 30 | QStatusCheck \<Rightarrow> 30 | QStatusCheckEvm \<Rightarrow> 30
   | QStatusCheckStellar \<Rightarrow> 20 | QNotification \<Rightarrow> 60 | QTokenSwapRequest \<Rightarrow> 60 | QRelayerHealthCheck \<Rightarrow> 60)"

definition default_wait_time_secs :: "queue_type \<Rightarrow> nat" where
  "default_wait_time_secs q = (case q of
     QTransactionRequest \<Rightarrow> 15 | QTransactionSubmission \<Rightarrow> 15 | QStatusCheck \<Rightarrow> 5 | QStatusCheckEvm \<Rightarrow> 5
   | QStatusCheckStellar \<Rightarrow> 3 | QNotification \<Rightarrow> 20 | QTokenSwapRequest \<Rightarrow> 20 | QRelayerHealthCheck \<Rightarrow> 20)"

definition is_status_check :: "queue_type \<Rightarrow> bool" where
  "is_status_check q \<longleftrightarrow> q = QStatusCheck \<or> q = QStatusCheckEvm \<or> q = QStatusCheckStellar"

definition backoff_config_for_queue :: "queue_type \<Rightarrow> retry_backoff_config" where
  "backoff_config_for_queue q = (case q of
     QTransactionRequest \<Rightarrow> TX_REQUEST_BACKOFF
   | QTransactionSubmission \<Rightarrow> TX_SUBMISSION_BACKOFF
   | QNotification \<Rightarrow> NOTIFICATION_BACKOFF
   | QTokenSwapRequest \<Rightarrow> TOKEN_SWAP_REQUEST_BACKOFF
   | QRelayerHealthCheck \<Rightarrow> RELAYER_HEALTH_BACKOFF
   | _ \<Rightarrow> STATUS_GENERIC_BACKOFF)"

section \<open>Services\<close>

text \<open>
  The operations of a \<open>NetworkTransaction\<close> and of a \<open>NetworkRelayer\<close>, which dispatch on the
  network. \<open>sv_signer\<close> answers for the signer repository, \<open>sv_connect\<close> for the provider and
  the signer service of a relayer.
\<close>

record network_transaction =
  nt_prepare :: "transaction_repo_model \<Rightarrow> transaction_repo_model handler"
  nt_submit :: "transaction_repo_model \<Rightarrow> transaction_repo_model handler"
  nt_resubmit :: "transaction_repo_model \<Rightarrow> transaction_repo_model handler"
  nt_handle_status :: "transaction_repo_model \<Rightarrow> status_check_context option \<Rightarrow> transaction_repo_model handler"
  nt_cancel :: "transaction_repo_model \<Rightarrow> transaction_repo_model handler"
  nt_replace :: "transaction_repo_model \<Rightarrow> network_transaction_request \<Rightarrow> transaction_repo_model handler"

record network_relayer =
  nr_process_with_id :: "network_transaction_request \<Rightarrow> string \<Rightarrow> transaction_repo_model relayer_op"
  nr_delete_pending :: "delete_pending_response relayer_op"
  nr_check_health :: "(world, health_check_failure list, unit) eff"
  nr_handle_health_action :: "job_metadata \<Rightarrow> bool relayer_op"

record services =
  sv_env :: evm_env
  sv_locks :: health_locks
  sv_signer :: "nat \<Rightarrow> string \<Rightarrow> repository_error + unit"
  sv_connect :: "nat \<Rightarrow> relayer_repo_model \<Rightarrow> transaction_error + unit"
  sv_connect_relayer :: "nat \<Rightarrow> relayer_repo_model \<Rightarrow> relayer_error + unit"
  sv_other_transaction :: "nat \<Rightarrow> relayer_repo_model \<Rightarrow> transaction_error + network_transaction"
  sv_other_request :: "relayer_repo_model \<Rightarrow> network_transaction_request \<Rightarrow> string \<Rightarrow> transaction_repo_model relayer_op"
  sv_other_relayer :: "nat \<Rightarrow> relayer_repo_model \<Rightarrow> relayer_error + network_relayer"

type_synonym 'a app_op = "(app, api_error, 'a) eff"

definition evm_transaction :: "evm_env \<Rightarrow> relayer_repo_model \<Rightarrow> network_transaction" where
  "evm_transaction E r = \<lparr> nt_prepare = prepare_transaction E r, nt_submit = submit_transaction E r,
     nt_resubmit = resubmit_transaction E r, nt_handle_status = handle_status_impl E r,
     nt_cancel = cancel_transaction E r, nt_replace = replace_transaction E r \<rparr>"

text \<open>
  A request is parsed for the network of its relayer, so that the EVM relayer only gets EVM
  requests; what it does with others is the parameter \<open>sv_other_request\<close>.
\<close>

definition evm_relayer :: "services \<Rightarrow> evm_network \<Rightarrow> relayer_repo_model \<Rightarrow> network_relayer" where
  "evm_relayer S net r = \<lparr>
     nr_process_with_id = (\<lambda>req i. case req of
         RequestEvm q \<Rightarrow> process_transaction_request_with_id (sv_env S) net r q i
       | _ \<Rightarrow> sv_other_request S r req i),
     nr_delete_pending = delete_pending_transactions (sv_env S) r,
     nr_check_health = check_health (sv_env S) r,
     nr_handle_health_action = handle_health_action (sv_env S) (sv_locks S) r \<rparr>"

definition get_relayer_by_id :: "services \<Rightarrow> string \<Rightarrow> relayer_repo_model app_op" where
  "get_relayer_by_id S i = map_errM api_error_of_repository_error (relayersM (sv_env S) (relayer_get_by_id i))"

definition get_transaction_by_id :: "services \<Rightarrow> string \<Rightarrow> transaction_repo_model app_op" where
  "get_transaction_by_id S i = map_errM api_error_of_repository_error (inW (repoM (sv_env S) (get_by_id i)))"

definition create_transaction :: "services \<Rightarrow> relayer_repo_model \<Rightarrow> (world, transaction_error, network_transaction) eff" where
  "create_transaction S r = (case r_network_type r of
     NtEvm \<Rightarrow>
       bindM (attemptM (callM (\<lambda>t. e_network_by_name (sv_env S) t (r_network r)))) (\<lambda>found. case found of
         Inr (Some (Inr network)) \<Rightarrow>
           thenM (callM (\<lambda>t. sv_connect S t r)) (returnM (evm_transaction (sv_env S) r))
       | Inr (Some (Inl e)) \<Rightarrow> throwM (NetworkConfiguration e)
       | _ \<Rightarrow> throwM (NetworkConfiguration (''Network '' @ r_network r @ '' not found'')))
   | _ \<Rightarrow> callM (\<lambda>t. sv_other_transaction S t r))"

definition get_relayer_transaction_by_model :: "services \<Rightarrow> relayer_repo_model \<Rightarrow> network_transaction app_op" where
  "get_relayer_transaction_by_model S r =
     thenM (map_errM api_error_of_repository_error (inW (callM (\<lambda>t. sv_signer S t (r_signer_id r)))))
       (map_errM api_error_of_transaction_error (inW (create_transaction S r)))"

definition get_relayer_transaction :: "services \<Rightarrow> string \<Rightarrow> network_transaction app_op" where
  "get_relayer_transaction S i = bindM (get_relayer_by_id S i) (get_relayer_transaction_by_model S)"

definition create_relayer :: "services \<Rightarrow> relayer_repo_model \<Rightarrow> (world, relayer_error, network_relayer) eff" where
  "create_relayer S r = (case r_network_type r of
     NtEvm \<Rightarrow>
       bindM (attemptM (callM (\<lambda>t. e_network_by_name (sv_env S) t (r_network r)))) (\<lambda>found. case found of
         Inr (Some (Inr network)) \<Rightarrow>
           thenM (callM (\<lambda>t. sv_connect_relayer S t r)) (returnM (evm_relayer S network r))
       | Inr (Some (Inl e)) \<Rightarrow> throwM (RlNetworkConfiguration e)
       | _ \<Rightarrow> throwM (RlNetworkConfiguration (''Network '' @ r_network r @ '' not found'')))
   | _ \<Rightarrow> callM (\<lambda>t. sv_other_relayer S t r))"

definition get_network_relayer_by_model :: "services \<Rightarrow> relayer_repo_model \<Rightarrow> network_relayer app_op" where
  "get_network_relayer_by_model S r =
     thenM (map_errM api_error_of_repository_error (inW (callM (\<lambda>t. sv_signer S t (r_signer_id r)))))
       (map_errM api_error_of_relayer_error (inW (create_relayer S r)))"

definition get_network_relayer :: "services \<Rightarrow> string \<Rightarrow> network_relayer app_op" where
  "get_network_relayer S i = bindM (get_relayer_by_id S i) (get_network_relayer_by_model S)"

section \<open>Transaction jobs\<close>

type_synonym 'a job_op = "(app, report, 'a) eff"

text \<open>A worker runs the job and turns its result into the answer for the queue.\<close>

definition worker :: "unit job_op \<Rightarrow> nat \<Rightarrow> nat \<Rightarrow> (app, handler_error, unit) eff" where
  "worker m attempt max_attempts =
     bindM (attemptM m) (\<lambda>result. liftR (handle_result result attempt max_attempts))"

definition handle_transaction_request :: "services \<Rightarrow> transaction_request_job \<Rightarrow> unit job_op" where
  "handle_transaction_request S request =
     bindM (map_errM ReportApi (get_relayer_transaction S (trq_relayer_id request))) (\<lambda>relayer_transaction.
     bindM (map_errM ReportApi (get_transaction_by_id S (trq_transaction_id request))) (\<lambda>transaction.
     bindM (map_errM ReportTx (inW (nt_prepare relayer_transaction transaction))) (\<lambda>prepared.
       returnM ())))"

definition transaction_request_handler ::
  "services \<Rightarrow> transaction_request_job \<Rightarrow> nat \<Rightarrow> (app, handler_error, unit) eff" where
  "transaction_request_handler S job attempt =
     worker (handle_transaction_request S job) attempt WORKER_TRANSACTION_REQUEST_RETRIES"

definition run_command ::
  "network_transaction \<Rightarrow> transaction_command \<Rightarrow> transaction_repo_model \<Rightarrow> transaction_repo_model handler" where
  "run_command relayer_transaction command transaction = (case command of
     Submit \<Rightarrow> nt_submit relayer_transaction transaction
   | Cancel reason \<Rightarrow> nt_submit relayer_transaction transaction
   | Resubmit \<Rightarrow> nt_resubmit relayer_transaction transaction
   | Resend \<Rightarrow> nt_submit relayer_transaction transaction)"

definition handle_transaction_send :: "services \<Rightarrow> transaction_send \<Rightarrow> unit job_op" where
  "handle_transaction_send S request =
     bindM (map_errM ReportApi (get_relayer_transaction S (ts_relayer_id request))) (\<lambda>relayer_transaction.
     bindM (map_errM ReportApi (get_transaction_by_id S (ts_transaction_id request))) (\<lambda>transaction.
     thenM (map_errM ReportTx (inW (run_command relayer_transaction (ts_command request) transaction)))
       (returnM ())))"

definition transaction_submission_handler ::
  "services \<Rightarrow> transaction_send \<Rightarrow> nat \<Rightarrow> (app, handler_error, unit) eff" where
  "transaction_submission_handler S job attempt =
     worker (handle_transaction_send S job) attempt (get_max_retries (ts_command job))"

section \<open>Status checks\<close>

definition get_max_consecutive_status_failures :: "network_type \<Rightarrow> u32" where
  "get_max_consecutive_status_failures t = (case t of NtEvm \<Rightarrow> 25 | NtStellar \<Rightarrow> 100 | NtSolana \<Rightarrow> 38)"

definition get_max_total_status_failures :: "network_type \<Rightarrow> u32" where
  "get_max_total_status_failures t = (case t of NtEvm \<Rightarrow> 75 | NtStellar \<Rightarrow> 300 | NtSolana \<Rightarrow> 115)"

record handle_request_result =
  hr_result :: "report + transaction_repo_model"
  hr_metadata :: "transaction_metadata option"
  hr_should_retry_on_error :: bool

definition status_context ::
  "transaction_repo_model \<Rightarrow> transaction_metadata \<Rightarrow> nat \<Rightarrow> job_metadata option \<Rightarrow> status_check_context" where
  "status_context tx meta attempt job_meta = \<lparr> sc_consecutive_failures = consecutive_failures meta,
     sc_total_failures = total_failures meta, sc_total_retries = of_nat attempt,
     sc_max_consecutive_failures = get_max_consecutive_status_failures (tx_network_type tx),
     sc_max_total_failures = get_max_total_status_failures (tx_network_type tx),
     sc_network_type = tx_network_type tx, sc_job_metadata = job_meta \<rparr>"

definition handle_status_request ::
  "services \<Rightarrow> transaction_status_check \<Rightarrow> nat \<Rightarrow> (app, handler_error, handle_request_result) eff" where
  "handle_status_request S request attempt =
     bindM (attemptM (get_transaction_by_id S (tsc_transaction_id request))) (\<lambda>found. case found of
       Inl (ApNotFound msg) \<Rightarrow> returnM \<lparr> hr_result = Inl (ReportText (''Transaction not found: '' @ msg)),
         hr_metadata = None, hr_should_retry_on_error = False \<rparr>
     | Inl e \<Rightarrow> returnM \<lparr> hr_result = Inl (ReportApi e), hr_metadata = None, hr_should_retry_on_error = True \<rparr>
     | Inr transaction \<Rightarrow>
         (let meta = (case metadata transaction of Some m \<Rightarrow> m | None \<Rightarrow> default_metadata);
              context = status_context transaction meta attempt (tsc_metadata request)
          in bindM (attemptM (get_relayer_transaction S (tsc_relayer_id request))) (\<lambda>service. case service of
               Inl (ApNotFound msg) \<Rightarrow> returnM \<lparr> hr_result = Inl (ReportText (''Relayer or signer not found: '' @ msg)),
                 hr_metadata = Some meta, hr_should_retry_on_error = False \<rparr>
             | Inl e \<Rightarrow> returnM \<lparr> hr_result = Inl (ReportApi e), hr_metadata = Some meta,
                 hr_should_retry_on_error = True \<rparr>
             | Inr relayer_transaction \<Rightarrow>
                 bindM (attemptM (inW (map_errM ReportTx
                          (nt_handle_status relayer_transaction transaction (Some context))))) (\<lambda>result.
                   returnM \<lparr> hr_result = result, hr_metadata = Some meta, hr_should_retry_on_error = True \<rparr>))))"

definition handle_status_result ::
  "services \<Rightarrow> string \<Rightarrow> handle_request_result \<Rightarrow> (app, handler_error, unit) eff" where
  "handle_status_result S i outcome = (case hr_result outcome of
     Inr tx \<Rightarrow>
       (if is_final_state (status tx) then returnM ()
        else let fresh_meta = (case metadata tx of Some m \<Rightarrow> Some m | None \<Rightarrow> hr_metadata outcome)
             in thenM (whenM (case fresh_meta of Some m \<Rightarrow> consecutive_failures m > 0 | None \<Rightarrow> False)
                        (ignoreM (inW (repoM (sv_env S) (reset_status_check_consecutive_failures i)))))
                  (throwM (NotYetFinal (status tx))))
   | Inl e \<Rightarrow>
       (if (case e of ReportTx t \<Rightarrow> is_concurrent_update_conflict t | _ \<Rightarrow> False) then returnM ()
        else if \<not> hr_should_retry_on_error outcome then returnM ()
        else thenM (whenM (hr_metadata outcome \<noteq> None)
                     (ignoreM (inW (repoM (sv_env S) (increment_status_check_failures i)))))
               (throwM (Retry (show_report e)))))"

definition transaction_status_handler ::
  "services \<Rightarrow> transaction_status_check \<Rightarrow> nat \<Rightarrow> (app, handler_error, unit) eff" where
  "transaction_status_handler S job attempt =
     bindM (handle_status_request S job attempt) (handle_status_result S (tsc_transaction_id job))"

section \<open>Relayer health checks\<close>

definition calculate_backoff_delay :: "u32 \<Rightarrow> int" where
  "calculate_backoff_delay retry_count =
     (if retry_count = 0 then 10 else if retry_count = 1 then 20 else if retry_count = 2 then 30
      else if retry_count = 3 then 45 else 60)"

definition recheck_health :: "services \<Rightarrow> relayer_health_check \<Rightarrow> unit job_op" where
  "recheck_health S data =
     (let E = sv_env S; i = rhc_relayer_id data
      in bindM (map_errM (\<lambda>e. ReportText (''Failed to get relayer: '' @ show_repository_error e))
                  (relayersM E (relayer_get_by_id i))) (\<lambda>relayer.
         if \<not> r_system_disabled relayer then returnM ()
         else bindM (map_errM (\<lambda>e. ReportText (''Failed to get relayer: '' @ show_api_error e))
                       (get_network_relayer S i)) (\<lambda>relayer_service.
              bindM (attemptM (inW (nr_check_health relayer_service))) (\<lambda>health. case health of
                Inr _ \<Rightarrow>
                  bindM (map_errM (\<lambda>e. ReportText (''Failed to enable relayer: '' @ show_repository_error e))
                           (relayersM E (enable_relayer i))) (\<lambda>enabled_relayer.
                    case r_notification_id enabled_relayer of
                      Some nid \<Rightarrow> map_errM (\<lambda>e. ReportText (''Failed to send notification: '' @ show_job_producer_error e))
                        (inW (produceM E (JRelayerEnabled nid enabled_relayer (rhc_retry_count data))))
                    | None \<Rightarrow> returnM ())
              | Inl failures \<Rightarrow>
                  (let reason = disabling_reason failures;
                       should_update = (case r_disabled_reason relayer of
                         Some old_reason \<Rightarrow> \<not> same_variant old_reason reason | None \<Rightarrow> True)
                   in thenM (whenM should_update
                              (bindM (map_errM (\<lambda>e. ReportText (''Failed to update disabled reason: '' @ show_repository_error e))
                                 (relayersM E (disable_relayer i reason))) (\<lambda>_. returnM ())))
                      (bindM (inW (askM (e_now E))) (\<lambda>now.
                         map_errM (\<lambda>e. ReportText (''Failed to schedule retry: '' @ show_job_producer_error e))
                           (inW (produceM E (JHealthCheck (new_health_check i (rhc_retry_count data + 1))
                              (Some (calculate_scheduled_timestamp now
                                 (calculate_backoff_delay (rhc_retry_count data)))))))))))))) "

definition check_and_reenable_relayer :: "services \<Rightarrow> relayer_health_check \<Rightarrow> unit job_op" where
  "check_and_reenable_relayer S data = (case rhc_metadata data of
     None \<Rightarrow> recheck_health S data
   | Some m \<Rightarrow>
       bindM (map_errM (\<lambda>e. ReportText (''Failed to get relayer for targeted action: '' @ show_api_error e))
                (get_network_relayer S (rhc_relayer_id data))) (\<lambda>relayer_service.
       bindM (map_errM (\<lambda>e. ReportText (''Targeted health action failed: '' @ show_relayer_error e))
                (inW (nr_handle_health_action relayer_service m))) (\<lambda>handled.
         if handled then returnM () else recheck_health S data)))"

definition relayer_health_check_handler ::
  "services \<Rightarrow> relayer_health_check \<Rightarrow> nat \<Rightarrow> (app, handler_error, unit) eff" where
  "relayer_health_check_handler S job attempt =
     worker (check_and_reenable_relayer S job) attempt WORKER_DEFAULT_MAXIMUM_RETRIES"

section \<open>Retry delays are exact\<close>

text \<open>
  C36: Retry delays. For a profile whose largest delay fits the signed 32 bit result, the delay
  before an attempt is the initial delay doubled with each attempt, sixteen times at most,
  bounded by the largest delay and rounded up to full seconds, without wrap-around; it never
  falls from one attempt to a later one, and it is at least a second if the delays are positive.
\<close>

theorem retry_delay_exact:
  assumes "unat (max_ms c) \<le> 1000 * (2 ^ 31 - 1)"
  shows "unat (retry_delay_secs c a) = (min (unat (initial_ms c) * 2 ^ min a 16) (unat (max_ms c)) + 999) div 1000
    \<and> (a \<le> b \<longrightarrow> retry_delay_secs c a \<le> retry_delay_secs c b)
    \<and> 0 \<le> sint (retry_delay_secs c a) \<and> (0 < initial_ms c \<and> 0 < max_ms c \<longrightarrow> 0 < retry_delay_secs c a)"
proof -
  define d where "d = (\<lambda>a. (min (unat (initial_ms c) * 2 ^ min a 16) (unat (max_ms c)) + 999) div 1000)"
  have two: "unat ((2 :: u64) ^ m) = 2 ^ m" if "m \<le> 16" for m
  proof -
    have "(2 :: nat) ^ m \<le> 2 ^ 16"
      by (rule power_increasing [OF that]) simp
    then show ?thesis
      using unat_of_nat [of "2 ^ m", where 'a = 64] by simp
  qed
  have top: "min (min m 18446744073709551615) (unat (max_ms c)) = min m (unat (max_ms c))" for m
    using unsigned_less [of "max_ms c", where 'a = nat] by (simp add: min_def)
  have small: "d a \<le> 2 ^ 31 - 1" for a
    unfolding d_def using assms by simp
  have exact: "unat (retry_delay_secs c a) = d a" for a
    using small [of a] unfolding retry_delay_secs_def Let_def d_def
    by (simp add: unat_of_nat unat_min unat_saturating_mul two top)
  have "d a \<le> d b" if "a \<le> b"
  proof -
    have "(2 :: nat) ^ min a 16 \<le> 2 ^ min b 16"
      using that by (intro power_increasing) simp_all
    then show ?thesis
      unfolding d_def by (intro div_le_mono add_right_mono min.mono mult_left_mono) simp_all
  qed
  moreover have "0 < d a" if "0 < initial_ms c" "0 < max_ms c"
  proof -
    have "1000 \<le> min (unat (initial_ms c) * 2 ^ min a 16) (unat (max_ms c)) + 999"
      using that by (simp add: word_less_nat_alt Suc_le_eq)
    then show ?thesis
      unfolding d_def by (simp add: div_greater_zero_iff)
  qed
  moreover have "0 \<le> sint (retry_delay_secs c a)"
    using small [of a] exact [of a] by (simp add: sint_uint uint_nat signed_take_bit_int_eq_self)
  ultimately show ?thesis
    using exact by (simp add: word_le_nat_alt word_less_nat_alt) (simp add: d_def)
qed

theorem retry_delay_exact_witness:
  "unat (retry_delay_secs STATUS_EVM_BACKOFF 0) = 8 \<and> unat (retry_delay_secs STATUS_EVM_BACKOFF 5) = 12
   \<and> retry_delay_secs STATUS_EVM_BACKOFF 0 \<le> retry_delay_secs STATUS_EVM_BACKOFF 5"
proof -
  have c: "initial_ms STATUS_EVM_BACKOFF = 8000" "max_ms STATUS_EVM_BACKOFF = 12000"
    by (simp_all add: STATUS_EVM_BACKOFF_def evm_status_check_backoff_def
        DEFAULT_EVM_STATUS_CHECK_RETRY_DELAY_SECONDS_def saturating_mul_def Let_def)
  have "unat (max_ms STATUS_EVM_BACKOFF) \<le> 1000 * (2 ^ 31 - 1)"
    by (simp add: c)
  note exact = retry_delay_exact [OF this]
  show ?thesis
    using exact [of 0 5] exact [of 5 5] by (simp add: c)
qed

section \<open>Status checks end only with the transaction\<close>

definition check_done :: "handle_request_result \<Rightarrow> bool" where
  "check_done outcome = (case hr_result outcome of
     Inr tx \<Rightarrow> is_final_state (status tx)
   | Inl e \<Rightarrow> (case e of ReportTx t \<Rightarrow> is_concurrent_update_conflict t | _ \<Rightarrow> False) \<or> \<not> hr_should_retry_on_error outcome)"

lemma status_request_returns: "\<exists>outcome s'. handle_status_request S job attempt s = (Inr outcome, s')"
  unfolding handle_status_request_def Let_def
  by (simp add: bindM_def attemptM_def returnM_def split: prod.splits sum.splits api_error.splits)

lemma ignored_run: "\<exists>s'. ignoreM m s = (Inr (), s')"
  by (simp add: ignoreM_def)

lemma status_result_cases:
  "fst (handle_status_result S i outcome s) = (if check_done outcome then Inr () else case hr_result outcome of
     Inr tx \<Rightarrow> Inl (NotYetFinal (status tx)) | Inl e \<Rightarrow> Inl (Retry (show_report e)))"
  unfolding handle_status_result_def check_done_def Let_def
  by (simp add: thenM_def bindM_def whenM_def ignoreM_def returnM_def throwM_def split: prod.splits sum.splits)


section \<open>Sample values\<close>

definition ex_services :: services where
  "ex_services = \<lparr> sv_env = ex_env, sv_locks = ex_local_lock, sv_signer = (\<lambda>_ _. Inr ()),
     sv_connect = (\<lambda>_ _. Inr ()), sv_connect_relayer = (\<lambda>_ _. Inr ()),
     sv_other_transaction = (\<lambda>_ _. Inl (NotSupported [])), sv_other_request = (\<lambda>_ _ _. throwM (RlNotSupported [])),
     sv_other_relayer = (\<lambda>_ _. Inl (RlNotSupported [])) \<rparr>"

lemma ex_services_sel:
  "sv_env ex_services = ex_env" "sv_signer ex_services = (\<lambda>_ _. Inr ())" "sv_connect ex_services = (\<lambda>_ _. Inr ())"
  "sv_connect_relayer ex_services = (\<lambda>_ _. Inr ())"
  by (simp_all add: ex_services_def)

definition ex_failed_check :: handle_request_result where
  "ex_failed_check = \<lparr> hr_result = Inl (ReportText []), hr_metadata = Some default_metadata, hr_should_retry_on_error = True \<rparr>"

section \<open>Failing checks trip the circuit breaker\<close>

lemma failing_check_counts:
  assumes "\<not> check_done outcome" "hr_result outcome = Inl e" "hr_metadata outcome \<noteq> None"
    and "\<And>k. e_storage_fault (sv_env S) k = None"
    and "tx_lookup (w_repo (app_world s)) i = Some t" "\<not> mem_is_final_state (status t)"
  shows "tx_lookup (w_repo (app_world (snd (handle_status_result S i outcome s)))) i
    = Some (t\<lparr> metadata := Some ((metadata_or_default t)\<lparr>
        consecutive_failures := saturating_add (consecutive_failures (metadata_or_default t)) 1,
        total_failures := saturating_add (total_failures (metadata_or_default t)) 1 \<rparr>) \<rparr>)"
  using assms
  by (simp add: handle_status_result_def check_done_def thenM_def bindM_def whenM_def ignoreM_def throwM_def inW_def
      repoM_def increment_status_check_failures_def update_unless_final_def update_conv' Let_def)

lemma failing_checks_count:
  assumes "\<not> check_done outcome" "hr_result outcome = Inl e" "hr_metadata outcome \<noteq> None"
    and "\<And>k. e_storage_fault (sv_env S) k = None"
    and "tx_lookup (w_repo (app_world s)) i = Some t" "\<not> mem_is_final_state (status t)"
  shows "\<exists>t'. tx_lookup (w_repo (app_world (((\<lambda>s. snd (handle_status_result S i outcome s)) ^^ n) s))) i = Some t'
    \<and> status t' = status t \<and> tx_network_type t' = tx_network_type t
    \<and> unat (consecutive_failures (metadata_or_default t'))
        = min (unat (consecutive_failures (metadata_or_default t)) + n) (2 ^ 32 - 1)"
proof (induction n)
  case 0
  show ?case
    using assms(5) unsigned_less [of "consecutive_failures (metadata_or_default t)", where 'a = nat] by simp
next
  case (Suc n)
  then obtain t' where t': "tx_lookup (w_repo (app_world (((\<lambda>s. snd (handle_status_result S i outcome s)) ^^ n) s))) i = Some t'"
    "status t' = status t" "tx_network_type t' = tx_network_type t"
    "unat (consecutive_failures (metadata_or_default t'))
        = min (unat (consecutive_failures (metadata_or_default t)) + n) (2 ^ 32 - 1)"
    by blast
  from failing_check_counts [OF assms(1-4) t'(1)] t' show ?case
    using assms(6) by (auto simp: metadata_or_default_def [of "_\<lparr> metadata := _ \<rparr>"] unat_saturating_add)
qed



section \<open>What a cancel command does\<close>

text \<open>
  C37: A cancel command does not cancel. The worker runs a cancel command, which deleting the
  pending transactions of a relayer enqueues, as a submission: the stored bytes of a sent or
  submitted transaction are handed to the node once more, and a pending transaction is left
  as it is.
\<close>

theorem cancel_command_submits:
  assumes "get_relayer_transaction S rid s = (Inr (evm_transaction (sv_env S) r), s1)"
    and "get_transaction_by_id S i s1 = (Inr tx, s2)"
  shows "transaction_submission_handler S (send_job (Cancel reason) i rid) attempt s
      = transaction_submission_handler S (send_job Submit i rid) attempt s
    \<and> (stored_raw tx raw \<longrightarrow>
        w_broadcasts (app_world (snd (transaction_submission_handler S (send_job (Cancel reason) i rid) attempt s)))
        = w_broadcasts (app_world s2) @ [raw])
    \<and> (status tx = Pending \<longrightarrow>
        transaction_submission_handler S (send_job (Cancel reason) i rid) attempt s = (Inr (), s2))"
proof -
  let ?run = "transaction_submission_handler S (send_job (Cancel reason) i rid) attempt s"
  let ?sent = "submit_transaction (sv_env S) r tx (app_world s2)"
  have run: "?run = (case ?sent of (x, w) \<Rightarrow> (handle_result (case x of Inl e \<Rightarrow> Inl (ReportTx e) | Inr _ \<Rightarrow> Inr ()) attempt 0, s2\<lparr> app_world := w \<rparr>))"
    by (auto simp: transaction_submission_handler_def worker_def handle_transaction_send_def send_job_def run_command_def
        get_max_retries_def WORKER_TRANSACTION_CANCEL_RETRIES_def evm_transaction_def eff_defs inW_def assms
        split: prod.splits sum.splits)
  have "?run = transaction_submission_handler S (send_job Submit i rid) attempt s"
    by (simp add: transaction_submission_handler_def handle_transaction_send_def send_job_def run_command_def
        get_max_retries_def WORKER_TRANSACTION_CANCEL_RETRIES_def WORKER_TRANSACTION_SUBMIT_RETRIES_def)
  moreover have "w_broadcasts (app_world (snd ?run)) = w_broadcasts (app_world s2) @ [raw]" if "stored_raw tx raw"
    using valid_snd [OF submit_sends_stored [OF that, of "w_broadcasts (app_world s2)" "sv_env S" r] refl]
    by (simp add: run case_prod_unfold)
  moreover have "?run = (Inr (), s2)" if "status tx = Pending"
    unfolding run using that
    by (simp add: submit_transaction_def ensure_status_one_of_def returnM_def handle_result_def)
  ultimately show ?thesis by blast
qed

lemma ex_network_found: "e_network_by_name ex_env t n = Inr (Some (Inr ex_network))"
  by (simp add: ex_env_def)

lemma ex_service:
  assumes "map_of (app_relayers s) i = Some r" "r_network_type r = NtEvm"
  shows "get_relayer_transaction ex_services i s
    = (Inr (evm_transaction ex_env r), s\<lparr> app_world := (app_world s)\<lparr> w_tick := w_tick (app_world s) + 4 \<rparr> \<rparr>)"
  using assms
  by (simp add: get_relayer_transaction_def get_relayer_by_id_def get_relayer_transaction_by_model_def
      create_transaction_def relayersM_def relayer_get_by_id_def ex_services_sel ex_env_no_fault eff_defs inW_def
      callM_def ex_network_found Let_def)

lemma ex_fetch:
  "tx_lookup (w_repo (app_world s)) i = Some t \<Longrightarrow>
   get_transaction_by_id ex_services i s = (Inr t, s\<lparr> app_world := (app_world s)\<lparr> w_tick := Suc (w_tick (app_world s)) \<rparr> \<rparr>)"
  by (simp add: get_transaction_by_id_def ex_services_sel ex_env_no_fault map_errM_def inW_def repoM_def get_by_id_def)

theorem cancel_command_submits_witness:
  "w_broadcasts (app_world (snd (transaction_submission_handler ex_services
     (send_job (Cancel ''Cancelled via delete_pending_transactions'') ''tx-1'' ''relayer'') 0 ex_app))) = [[1, 2, 3]]"
proof -
  let ?s = "ex_app\<lparr> app_world := (app_world ex_app)\<lparr> w_tick := w_tick (app_world ex_app) + 4 \<rparr> \<rparr>"
  have service: "get_relayer_transaction ex_services ''relayer'' ex_app = (Inr (evm_transaction (sv_env ex_services) ex_relayer), ?s)"
    by (subst ex_service) (simp_all add: ex_app_def ex_relayer_def ex_services_sel)
  have tx: "tx_lookup (w_repo (app_world ?s)) ''tx-1'' = Some ex_tx"
    by (simp add: ex_app_def ex_tx_sel)
  have raw: "stored_raw ex_tx [1, 2, 3]"
    by (simp add: stored_raw_def ex_tx_sel)
  have "w_broadcasts (app_world (snd (transaction_submission_handler ex_services
     (send_job (Cancel ''Cancelled via delete_pending_transactions'') ''tx-1'' ''relayer'') 0 ex_app)))
     = w_broadcasts (app_world ?s) @ [[1, 2, 3]]"
    using cancel_command_submits [OF service ex_fetch [OF tx], THEN conjunct2, THEN conjunct1, THEN mp, OF raw] by simp
  then show ?thesis
    by (simp add: ex_app_def)
qed

end
