(* ===== verification/Relayer_Api.thy ===== *)
theory Relayer_Api
  imports Job_Handlers
begin

text \<open>
  The controllers of \<open>api/controllers/relayer.rs\<close> that act on relayers and their
  transactions, and the validation of EVM requests (\<open>models/transaction/request/evm.rs\<close>).
  Parsing of JSON, the request fingerprint and the requests of other networks are
  parameters. A controller returns the value it would serialise.
\<close>

section \<open>Validation of EVM requests\<close>

definition ZERO_ADDRESS :: string where
  "ZERO_ADDRESS = ''0x0000000000000000000000000000000000000000''"

definition validate_target_address :: "evm_transaction_request \<Rightarrow> relayer_repo_model \<Rightarrow> api_error + unit" where
  "validate_target_address request r = (case r_policies r of
     PolicyEvm evm_policy \<Rightarrow> (case whitelist_receivers evm_policy of
       Some whitelist \<Rightarrow>
         (let target_address = to_lowercase (case req_to request of Some a \<Rightarrow> a | None \<Rightarrow> []);
              allowed_addresses = map to_lowercase whitelist @ [ZERO_ADDRESS, to_lowercase (r_address r)]
          in if target_address \<notin> set allowed_addresses
             then Inl (ApBadRequest ''Transaction target address is not whitelisted'') else Inr ())
     | None \<Rightarrow> Inr ())
   | _ \<Rightarrow> Inr ())"

definition gas_limit_missing :: "evm_transaction_request \<Rightarrow> relayer_repo_model \<Rightarrow> bool" where
  "gas_limit_missing request r = (case r_policies r of
     PolicyEvm evm_policy \<Rightarrow> gas_limit_estimation evm_policy = Some False \<and> req_gas_limit request = None
   | _ \<Rightarrow> False)"

text \<open>The clock is read only when the request has an end of validity.\<close>

definition validate_valid_until :: "evm_env \<Rightarrow> evm_transaction_request \<Rightarrow> (world, api_error, unit) eff" where
  "validate_valid_until E request = (case req_valid_until request of
     None \<Rightarrow> returnM ()
   | Some until \<Rightarrow> (case parse_rfc3339 E until of
       None \<Rightarrow> throwM (ApBadRequest ''Invalid validUntil datetime format'')
     | Some valid_until_dt \<Rightarrow>
         bindM (askM (e_now E)) (\<lambda>now.
           if valid_until_dt < now then throwM (ApBadRequest ''The validUntil time cannot be in the past'')
           else returnM ())))"

definition validate_evm_transaction_request ::
  "evm_env \<Rightarrow> evm_transaction_request \<Rightarrow> relayer_repo_model \<Rightarrow> (world, api_error, unit) eff" where
  "validate_evm_transaction_request E request r =
     (if req_to request = None \<and> req_data request = None
      then throwM (ApBadRequest ''Both txs `to` and `data` fields are missing. At least one of them has to be set.'')
      else if gas_limit_missing request r
      then throwM (ApBadRequest ''gas_limit is required when gas_limit_estimation policy is disabled'')
      else case req_gas_limit request of
             Some limit \<Rightarrow>
               (let intrinsic_gas = calculate_intrinsic_gas (e_hex_decode E) request
                in if limit < intrinsic_gas
                   then throwM (ApBadRequest (''gas_limit is too low, intrinsic gas is '' @ show_nat (unat intrinsic_gas)
                          @ '' and gas_limit is '' @ show_nat (unat limit)))
                   else validate_valid_until E request)
           | None \<Rightarrow> validate_valid_until E request)"

definition above_price_cap :: "evm_transaction_request \<Rightarrow> relayer_repo_model \<Rightarrow> bool" where
  "above_price_cap request r = (case r_policies r of
     PolicyEvm evm_policy \<Rightarrow> (case gas_price_cap evm_policy of
       Some cap \<Rightarrow> (case req_gas_price request of Some p \<Rightarrow> p | None \<Rightarrow> 0) > cap
     | None \<Rightarrow> False)
   | _ \<Rightarrow> False)"

definition validate_price_params :: "evm_transaction_request \<Rightarrow> relayer_repo_model \<Rightarrow> api_error + unit" where
  "validate_price_params request r =
     (let is_eip1559 = (req_max_fee_per_gas request \<noteq> None \<or> req_max_priority_fee_per_gas request \<noteq> None);
          is_legacy = (req_gas_price request \<noteq> None);
          is_speed = (req_speed request \<noteq> None);
          transaction_types = length (filter id [is_eip1559, is_legacy, is_speed]);
          legacy = (if is_legacy \<and> above_price_cap request r then Inl (ApBadRequest ''Gas price is too high'') else Inr ())
      in if transaction_types = 0
         then Inl (ApBadRequest ''Transaction must specify either gasPrice, speed, or EIP1559 parameters'')
         else if transaction_types > 1
         then Inl (ApBadRequest ''Cannot mix different transaction types. Use either gasPrice, speed, or EIP1559 parameters'')
         else if is_eip1559
         then (case (req_max_fee_per_gas request, req_max_priority_fee_per_gas request) of
                 (Some max_fee, Some max_priority_fee) \<Rightarrow>
                   (if max_fee < max_priority_fee
                    then Inl (ApBadRequest ''maxFeePerGas must be greater than or equal to maxPriorityFeePerGas'')
                    else legacy)
               | _ \<Rightarrow> Inl (ApBadRequest ''EIP1559 transactions require both maxFeePerGas and maxPriorityFeePerGas''))
         else legacy)"

definition validate_evm_request ::
  "evm_env \<Rightarrow> evm_transaction_request \<Rightarrow> relayer_repo_model \<Rightarrow> (world, api_error, unit) eff" where
  "validate_evm_request E request r =
     thenM (liftR (validate_target_address request r))
     (thenM (validate_evm_transaction_request E request r)
       (liftR (validate_price_params request r)))"

section \<open>Controllers\<close>

record api_env =
  ae_services :: services
  ae_parse_evm :: "string \<Rightarrow> string + evm_transaction_request"
  ae_parse_other :: "network_type \<Rightarrow> string \<Rightarrow> string + network_transaction_request"
  ae_validate_other :: "relayer_repo_model \<Rightarrow> network_transaction_request \<Rightarrow> api_error + unit"
  ae_fingerprint :: "string \<Rightarrow> api_error + string"
  ae_request_timeout_seconds :: u64
  ae_idempotency_key_ttl_seconds :: u64

abbreviation ae_env :: "api_env \<Rightarrow> evm_env" where
  "ae_env A \<equiv> sv_env (ae_services A)"

definition from_json :: "api_env \<Rightarrow> network_type \<Rightarrow> string \<Rightarrow> api_error + network_transaction_request" where
  "from_json A nt json = (case nt of
     NtEvm \<Rightarrow> (case ae_parse_evm A json of Inr q \<Rightarrow> Inr (RequestEvm q) | Inl e \<Rightarrow> Inl (ApBadRequest e))
   | _ \<Rightarrow> (case ae_parse_other A nt json of Inr q \<Rightarrow> Inr q | Inl e \<Rightarrow> Inl (ApBadRequest e)))"

definition validate_active_state :: "relayer_repo_model \<Rightarrow> relayer_error + unit" where
  "validate_active_state r =
     (if r_paused r then Inl RlRelayerPaused else if r_system_disabled r then Inl RlRelayerDisabled else Inr ())"

definition validate_request ::
  "api_env \<Rightarrow> network_transaction_request \<Rightarrow> relayer_repo_model \<Rightarrow> unit app_op" where
  "validate_request A request r = (case request of
     RequestEvm q \<Rightarrow> inW (validate_evm_request (ae_env A) q r)
   | _ \<Rightarrow> liftR (ae_validate_other A r request))"

definition active_relayer :: "services \<Rightarrow> string \<Rightarrow> relayer_repo_model app_op" where
  "active_relayer S i =
     bindM (get_relayer_by_id S i) (\<lambda>r.
     thenM (map_errM api_error_of_relayer_error (liftR (validate_active_state r))) (returnM r))"

definition send_transaction :: "api_env \<Rightarrow> string \<Rightarrow> string \<Rightarrow> string option \<Rightarrow> transaction_repo_model app_op" where
  "send_transaction A rid request idempotency_key =
     bindM (active_relayer (ae_services A) rid) (\<lambda>r.
     bindM (get_network_relayer (ae_services A) (r_id r)) (\<lambda>relayer.
     bindM (liftR (from_json A (r_network_type r) request)) (\<lambda>tx_request.
     thenM (validate_request A tx_request r)
       (case idempotency_key of
          None \<Rightarrow>
            bindM (inW (askM (e_uuid (ae_env A)))) (\<lambda>i.
              map_errM api_error_of_relayer_error (inW (nr_process_with_id relayer tx_request i)))
        | Some raw_key \<Rightarrow>
            bindM (liftR (normalize_idempotency_key raw_key)) (\<lambda>key.
            bindM (liftR (ae_fingerprint A request)) (\<lambda>fp.
              inW (create_idempotent (ae_env A) (ae_request_timeout_seconds A) (r_id r) key fp
                     (ae_idempotency_key_ttl_seconds A) (nr_process_with_id relayer tx_request))))))))"

definition api_delete_pending_transactions :: "api_env \<Rightarrow> string \<Rightarrow> delete_pending_response app_op" where
  "api_delete_pending_transactions A rid =
     bindM (active_relayer (ae_services A) rid) (\<lambda>r.
     bindM (get_network_relayer_by_model (ae_services A) r) (\<lambda>relayer.
       map_errM api_error_of_relayer_error (inW (nr_delete_pending relayer))))"

definition api_cancel_transaction :: "api_env \<Rightarrow> string \<Rightarrow> string \<Rightarrow> transaction_repo_model app_op" where
  "api_cancel_transaction A rid i =
     bindM (active_relayer (ae_services A) rid) (\<lambda>r.
     bindM (get_relayer_transaction_by_model (ae_services A) r) (\<lambda>relayer_transaction.
     bindM (get_transaction_by_id (ae_services A) i) (\<lambda>transaction_to_cancel.
       map_errM api_error_of_transaction_error (inW (nt_cancel relayer_transaction transaction_to_cancel)))))"

definition api_replace_transaction :: "api_env \<Rightarrow> string \<Rightarrow> string \<Rightarrow> string \<Rightarrow> transaction_repo_model app_op" where
  "api_replace_transaction A rid i request =
     bindM (active_relayer (ae_services A) rid) (\<lambda>r.
     bindM (liftR (from_json A (r_network_type r) request)) (\<lambda>new_tx_request.
     thenM (validate_request A new_tx_request r)
     (bindM (get_transaction_by_id (ae_services A) i) (\<lambda>transaction_to_replace.
      bindM (get_relayer_transaction_by_model (ae_services A) r) (\<lambda>relayer_transaction.
        map_errM api_error_of_transaction_error
          (inW (nt_replace relayer_transaction transaction_to_replace new_tx_request)))))))"

definition api_get_transaction_by_id :: "api_env \<Rightarrow> string \<Rightarrow> string \<Rightarrow> transaction_repo_model option app_op" where
  "api_get_transaction_by_id A rid i =
     (if rid = [] \<or> i = [] then returnM None
      else bindM (get_relayer_by_id (ae_services A) rid) (\<lambda>_.
           bindM (get_transaction_by_id (ae_services A) i) (\<lambda>tx. returnM (Some tx))))"

definition api_get_transaction_by_nonce :: "api_env \<Rightarrow> string \<Rightarrow> u64 \<Rightarrow> transaction_repo_model app_op" where
  "api_get_transaction_by_nonce A rid n =
     bindM (get_relayer_by_id (ae_services A) rid) (\<lambda>r.
       if r_network_type r \<noteq> NtEvm then throwM (ApNotSupported ''Nonce lookup only supported for EVM networks'')
       else bindM (map_errM api_error_of_repository_error
                     (inW (repoM (ae_env A) (find_by_nonce (e_values_order (ae_env A)) rid n)))) (\<lambda>found.
              case found of
                Some tx \<Rightarrow> returnM tx
              | None \<Rightarrow> throwM (ApNotFound (''Transaction with nonce '' @ show_nat (unat n) @ '' not found''))))"

definition list_transactions ::
  "api_env \<Rightarrow> string \<Rightarrow> pagination_query \<Rightarrow> transaction_status option \<Rightarrow>
   transaction_repo_model paginated_result app_op" where
  "list_transactions A rid q filter_status =
     bindM (get_relayer_by_id (ae_services A) rid) (\<lambda>_.
       map_errM api_error_of_repository_error (inW (repoM (ae_env A) (case filter_status of
         Some s \<Rightarrow> find_by_status_paginated_filtered (e_values_order (ae_env A)) rid [s] q False (\<not> is_final_state s)
       | None \<Rightarrow> find_by_relayer_id (e_values_order (ae_env A)) rid q))))"

definition delete_relayer :: "api_env \<Rightarrow> string \<Rightarrow> unit app_op" where
  "delete_relayer A rid =
     bindM (get_relayer_by_id (ae_services A) rid) (\<lambda>_.
     bindM (map_errM api_error_of_repository_error
              (inW (repoM (ae_env A) (count_by_status (e_values_order (ae_env A)) rid [Pending, Sent, Submitted]))))
       (\<lambda>active_transaction_count.
       if active_transaction_count > 0
       then throwM (ApBadRequest (''Cannot delete relayer '' @ [CHR 0x27] @ rid @ [CHR 0x27] @ '' because it has ''
              @ show_nat (unat active_transaction_count)
              @ '' transaction(s). Please wait for all transactions to complete or cancel them before deleting the relayer.''))
       else map_errM api_error_of_repository_error (relayersM (ae_env A) (relayer_delete_by_id rid))))"

section \<open>Requests to inactive relayers\<close>

lemma inactive_refused:
  assumes "e_storage_fault (sv_env S) (w_tick (app_world s)) = None" "map_of (app_relayers s) i = Some r"
    and "r_paused r \<or> r_system_disabled r"
  shows "active_relayer S i s = (Inl (ApForbiddenError (if r_paused r then ''Relayer paused'' else ''Relayer disabled'')),
    s\<lparr> app_world := (app_world s)\<lparr> w_tick := Suc (w_tick (app_world s)) \<rparr> \<rparr>)"
  using assms by (auto simp: active_relayer_def get_relayer_by_id_def relayersM_def relayer_get_by_id_def
      validate_active_state_def api_error_of_relayer_error_def eff_defs Let_def)

text \<open>
  C23: An inactive relayer accepts nothing. Sending, cancelling and replacing a transaction and
  deleting the pending transactions of a relayer that is paused or disabled are refused as
  forbidden, with the reason, before anything is parsed, stored, enqueued or sent.
\<close>

theorem inactive_relayer_refuses:
  assumes "e_storage_fault (ae_env A) (w_tick (app_world s)) = None" and "map_of (app_relayers s) rid = Some r"
    and "r_paused r \<or> r_system_disabled r"
    and "e = ApForbiddenError (if r_paused r then ''Relayer paused'' else ''Relayer disabled'')"
    and "s' = s\<lparr> app_world := (app_world s)\<lparr> w_tick := Suc (w_tick (app_world s)) \<rparr> \<rparr>"
  shows "send_transaction A rid request key s = (Inl e, s') \<and> api_cancel_transaction A rid i s = (Inl e, s')
    \<and> api_replace_transaction A rid i request s = (Inl e, s')
    \<and> api_delete_pending_transactions A rid s = (Inl e, s') \<and> http_status e = 403"
  using inactive_refused [OF assms(1-3)]
  by (simp add: send_transaction_def api_cancel_transaction_def api_replace_transaction_def
      api_delete_pending_transactions_def bindM_def assms(4,5) http_status_def)

definition ex_api :: api_env where
  "ex_api = \<lparr> ae_services = ex_services, ae_parse_evm = (\<lambda>_. Inl []), ae_parse_other = (\<lambda>_ _. Inl []),
     ae_validate_other = (\<lambda>_ _. Inr ()), ae_fingerprint = Inr, ae_request_timeout_seconds = 30,
     ae_idempotency_key_ttl_seconds = 3600 \<rparr>"

lemma ex_api_sel: "ae_services ex_api = ex_services"
  by (simp add: ex_api_def)

theorem inactive_relayer_refuses_witness:
  "fst (send_transaction ex_api ''relayer'' [] None (ex_app\<lparr> app_relayers := [(''relayer'', ex_relayer\<lparr> r_paused := True \<rparr>)] \<rparr>))
     = Inl (ApForbiddenError ''Relayer paused'')"
  using inactive_relayer_refuses [of ex_api "ex_app\<lparr> app_relayers := [(''relayer'', ex_relayer\<lparr> r_paused := True \<rparr>)] \<rparr>"
      "''relayer''" "ex_relayer\<lparr> r_paused := True \<rparr>", OF _ _ _ refl refl]
  by (simp add: ex_api_sel ex_services_sel ex_env_no_fault)

section \<open>Accepted EVM requests\<close>

text \<open>The pricing of an acceptable request: exactly one of a speed, a gas price and the two EIP-1559 fees.\<close>

definition priced_by_speed :: "evm_transaction_request \<Rightarrow> bool" where
  "priced_by_speed q \<longleftrightarrow> req_speed q \<noteq> None \<and> req_gas_price q = None
     \<and> req_max_fee_per_gas q = None \<and> req_max_priority_fee_per_gas q = None"

definition priced_by_gas_price :: "evm_transaction_request \<Rightarrow> relayer_repo_model \<Rightarrow> bool" where
  "priced_by_gas_price q r \<longleftrightarrow> req_speed q = None \<and> req_max_fee_per_gas q = None \<and> req_max_priority_fee_per_gas q = None
     \<and> (\<exists>p. req_gas_price q = Some p \<and>
          (\<forall>policy cap. r_policies r = PolicyEvm policy \<longrightarrow> gas_price_cap policy = Some cap \<longrightarrow> p \<le> cap))"

definition priced_by_fees :: "evm_transaction_request \<Rightarrow> bool" where
  "priced_by_fees q \<longleftrightarrow> req_speed q = None \<and> req_gas_price q = None
     \<and> (\<exists>m p. req_max_fee_per_gas q = Some m \<and> req_max_priority_fee_per_gas q = Some p \<and> p \<le> m)"

lemma price_params_exact:
  "validate_price_params q r = Inr () \<longleftrightarrow> priced_by_speed q \<or> priced_by_gas_price q r \<or> priced_by_fees q"
  by (cases "req_speed q"; cases "req_gas_price q"; cases "req_max_fee_per_gas q"; cases "req_max_priority_fee_per_gas q")
    (auto simp: validate_price_params_def priced_by_speed_def priced_by_gas_price_def priced_by_fees_def above_price_cap_def
      Let_def not_less split: relayer_network_policy.splits option.splits)

lemma target_exact:
  "validate_target_address q r = Inr () \<longleftrightarrow> (\<forall>policy whitelist. r_policies r = PolicyEvm policy \<longrightarrow>
     whitelist_receivers policy = Some whitelist \<longrightarrow>
     to_lowercase (case req_to q of Some a \<Rightarrow> a | None \<Rightarrow> []) \<in>
       set (map to_lowercase whitelist) \<union> {ZERO_ADDRESS, to_lowercase (r_address r)})"
  by (auto simp: validate_target_address_def Let_def split: relayer_network_policy.splits option.splits)

lemma valid_until_exact:
  "fst (validate_valid_until E q w) = Inr () \<longleftrightarrow>
    (\<forall>u. req_valid_until q = Some u \<longrightarrow> (\<exists>t. parse_rfc3339 E u = Some t \<and> e_now E (w_tick w) \<le> t))"
  by (auto simp: validate_valid_until_def eff_defs askM_def not_less split: option.splits)

lemma evm_tx_request_exact:
  "fst (validate_evm_transaction_request E q r w) = Inr () \<longleftrightarrow> (req_to q \<noteq> None \<or> req_data q \<noteq> None) \<and> \<not> gas_limit_missing q r
    \<and> (\<forall>l. req_gas_limit q = Some l \<longrightarrow> calculate_intrinsic_gas (e_hex_decode E) q \<le> l)
    \<and> fst (validate_valid_until E q w) = Inr ()"
  by (auto simp: validate_evm_transaction_request_def throwM_def Let_def not_less split: option.splits)

lemma evm_request_stages:
  "fst (validate_evm_request E q r w) = Inr () \<longleftrightarrow> validate_target_address q r = Inr ()
    \<and> fst (validate_evm_transaction_request E q r w) = Inr () \<and> validate_price_params q r = Inr ()"
  by (auto simp: validate_evm_request_def eff_defs split: prod.splits sum.splits)

lemma evm_stage_errors:
  "validate_target_address q r = Inl e \<Longrightarrow> http_status e = 400"
  "validate_price_params q r = Inl e \<Longrightarrow> http_status e = 400"
  "fst (validate_valid_until E q w) = Inl e \<Longrightarrow> http_status e = 400"
    apply (auto simp: validate_target_address_def Let_def http_status_def split: relayer_network_policy.splits option.splits if_splits)[1]
   apply (auto simp: validate_price_params_def Let_def http_status_def split: option.splits if_splits)[1]
  by (auto simp: validate_valid_until_def eff_defs askM_def http_status_def split: option.splits if_splits)

lemma evm_tx_request_errors: "fst (validate_evm_transaction_request E q r w) = Inl e \<Longrightarrow> http_status e = 400"
  by (auto simp: validate_evm_transaction_request_def throwM_def Let_def http_status_def dest: evm_stage_errors(3)
      split: option.splits if_splits)

lemma evm_request_errors: "fst (validate_evm_request E q r w) = Inl e \<Longrightarrow> http_status e = 400"
  using evm_tx_request_errors [of E q r w] evm_stage_errors(1,2) [of q r]
  by (auto simp: validate_evm_request_def thenM_def bindM_def liftR_def split: prod.splits sum.splits)

text \<open>
  C22: Exactly the acceptable EVM requests pass. A request passes validation if and only if its
  target is allowed by the whitelist of the relayer (where it has one), it has a target or
  data, it gives a gas limit where the relayer does not estimate, the limit covers the
  intrinsic gas, its end of validity parses and is not past, and it is priced in exactly one
  way, with a gas price within the cap or with a fee that covers its priority fee. Every
  refusal is a bad request.
\<close>

theorem evm_request_validation_exact:
  "(fst (validate_evm_request E q r w) = Inr () \<longleftrightarrow>
     (\<forall>policy whitelist. r_policies r = PolicyEvm policy \<longrightarrow> whitelist_receivers policy = Some whitelist \<longrightarrow>
       to_lowercase (case req_to q of Some a \<Rightarrow> a | None \<Rightarrow> []) \<in>
         set (map to_lowercase whitelist) \<union> {ZERO_ADDRESS, to_lowercase (r_address r)})
     \<and> (req_to q \<noteq> None \<or> req_data q \<noteq> None) \<and> \<not> gas_limit_missing q r
     \<and> (\<forall>l. req_gas_limit q = Some l \<longrightarrow> calculate_intrinsic_gas (e_hex_decode E) q \<le> l)
     \<and> (\<forall>u. req_valid_until q = Some u \<longrightarrow> (\<exists>t. parse_rfc3339 E u = Some t \<and> e_now E (w_tick w) \<le> t))
     \<and> (priced_by_speed q \<or> priced_by_gas_price q r \<or> priced_by_fees q))
   \<and> (\<forall>e. fst (validate_evm_request E q r w) = Inl e \<longrightarrow> http_status e = 400)"
  unfolding evm_request_stages evm_tx_request_exact valid_until_exact target_exact price_params_exact
  using evm_request_errors by blast

theorem evm_request_validation_exact_witness:
  "fst (validate_evm_request ex_env ex_request ex_relayer (ex_world ex_tx)) = Inr ()
   \<and> fst (validate_evm_request ex_env (ex_request\<lparr> req_gas_price := Some 1 \<rparr>) ex_relayer (ex_world ex_tx)) \<noteq> Inr ()"
proof
  have gas: "calculate_intrinsic_gas (e_hex_decode ex_env) ex_request \<le> 21000"
    by (simp add: calculate_intrinsic_gas_def ex_request_def DEFAULT_GAS_LIMIT_def)
  have cap: "\<not> gas_limit_missing ex_request ex_relayer"
    by (simp add: gas_limit_missing_def ex_relayer_def ex_request_def)
  show "fst (validate_evm_request ex_env ex_request ex_relayer (ex_world ex_tx)) = Inr ()"
    using evm_request_validation_exact [of ex_env ex_request ex_relayer "ex_world ex_tx"] gas cap
    by (simp add: priced_by_speed_def ex_request_def ex_relayer_def ex_policy_def default_evm_policy_def)
  show "fst (validate_evm_request ex_env (ex_request\<lparr> req_gas_price := Some 1 \<rparr>) ex_relayer (ex_world ex_tx)) \<noteq> Inr ()"
    using evm_request_validation_exact [of ex_env "ex_request\<lparr> req_gas_price := Some 1 \<rparr>" ex_relayer "ex_world ex_tx"]
    by (simp add: priced_by_speed_def priced_by_gas_price_def priced_by_fees_def ex_request_def)
qed

section \<open>Deleting a relayer\<close>

lemma relayer_gone:
  assumes "\<And>k. e_storage_fault (sv_env S) k = None" "map_of (app_relayers s) i = None"
  shows "get_relayer_transaction S i s = (Inl (ApNotFound (''Relayer with ID '' @ i @ '' not found'')),
    s\<lparr> app_world := (app_world s)\<lparr> w_tick := Suc (w_tick (app_world s)) \<rparr> \<rparr>)"
  using assms by (simp add: get_relayer_transaction_def get_relayer_by_id_def relayersM_def relayer_get_by_id_def
      relayer_not_found_def api_error_of_repository_error_def eff_defs Let_def)

lemma check_without_relayer:
  assumes "\<And>k. e_storage_fault (sv_env S) k = None" "tx_lookup (w_repo (app_world s)) i = Some t" "map_of (app_relayers s) rid = None"
  shows "\<exists>s'. transaction_status_handler S (status_check_job i rid nt) attempt s = (Inr (), s')
    \<and> tx_lookup (w_repo (app_world s')) i = Some t"
proof -
  define s1 where "s1 = s\<lparr> app_world := (app_world s)\<lparr> w_tick := Suc (w_tick (app_world s)) \<rparr> \<rparr>"
  have fetch: "get_transaction_by_id S i s = (Inr t, s1)"
    using assms(1,2) by (simp add: get_transaction_by_id_def get_by_id_def repoM_def inW_def map_errM_def s1_def)
  obtain e s2 where gone: "get_relayer_transaction S rid s1 = (Inl (ApNotFound e), s2)" "w_repo (app_world s2) = w_repo (app_world s)"
    using relayer_gone [OF assms(1), of s1 rid] assms(3) by (simp add: s1_def)
  have "transaction_status_handler S (status_check_job i rid nt) attempt s = (Inr (), s2)"
    by (simp add: transaction_status_handler_def handle_status_request_def status_check_job_def handle_status_result_def
        bindM_def attemptM_def returnM_def fetch gone Let_def)
  then show ?thesis
    using gone(2) assms(2) by simp
qed

lemma count_active_none:
  assumes "\<And>xs. mset (order xs) = mset xs" "\<And>t. t \<in> set (map snd (store R)) \<Longrightarrow> relayer_id t = rid \<Longrightarrow> status t \<notin> set sts"
  shows "count_by_status order rid sts R = (Inr 0, R)"
proof -
  have "set (store_values order R) = set (map snd (store R))"
    unfolding store_values_def using assms(1) by (metis set_mset_mset)
  then show ?thesis
    using assms(2) by (auto simp: count_by_status_def filter_empty_conv)
qed

text \<open>
  C39: Deleting a relayer abandons its mined transactions. A relayer whose transactions are all
  mined or final is deleted, although a mined transaction is still waiting for its
  confirmations; the status check of such a transaction then completes without retry, and the
  transaction stays mined.
\<close>

theorem deleted_relayer_abandons_mined:
  assumes "\<And>k. e_storage_fault (ae_env A) k = None" and "\<And>xs. mset (e_values_order (ae_env A) xs) = mset xs"
    and "map_of (app_relayers s) rid = Some r"
    and "tx_lookup (w_repo (app_world s)) i = Some t" and "status t = Mined"
    and "\<And>t. t \<in> set (map snd (store (w_repo (app_world s)))) \<Longrightarrow> relayer_id t = rid \<Longrightarrow> status t \<notin> {Pending, Sent, Submitted}"
  shows "\<exists>s1 s2. delete_relayer A rid s = (Inr (), s1) \<and> map_of (app_relayers s1) rid = None
    \<and> transaction_status_handler (ae_services A) (status_check_job i rid NtEvm) attempt s1 = (Inr (), s2)
    \<and> tx_lookup (w_repo (app_world s2)) i = Some t \<and> \<not> is_final_state (status t)"
proof -
  have final: "\<not> is_final_state (status t)"
    by (simp add: assms(5))
  let ?s = "\<lambda>k. s\<lparr> app_world := (app_world s)\<lparr> w_tick := k \<rparr>, app_relayers := AList.delete rid (app_relayers s) \<rparr>"
  have count: "count_by_status (e_values_order (ae_env A)) rid [Pending, Sent, Submitted] (w_repo (app_world s)) = (Inr 0, w_repo (app_world s))"
    using count_active_none [OF assms(2)] assms(6) by auto
  have deleted: "delete_relayer A rid s = (Inr (), ?s (w_tick (app_world s) + 3))"
    using assms(1,3) count
    by (simp add: delete_relayer_def get_relayer_by_id_def relayersM_def relayer_get_by_id_def relayer_delete_by_id_def
        repoM_def inW_def eff_defs Let_def)
  have gone: "map_of (app_relayers (?s (w_tick (app_world s) + 3))) rid = None"
    by (simp add: delete_conv')
  have "tx_lookup (w_repo (app_world (?s (w_tick (app_world s) + 3)))) i = Some t"
    using assms(4) by simp
  from check_without_relayer [OF assms(1) this gone] obtain s2 where
    "transaction_status_handler (ae_services A) (status_check_job i rid NtEvm) attempt (?s (w_tick (app_world s) + 3)) = (Inr (), s2)"
    "tx_lookup (w_repo (app_world s2)) i = Some t"
    by blast
  then show ?thesis
    using deleted gone final by (intro exI conjI)
qed

theorem deleted_relayer_abandons_mined_witness:
  "\<exists>s1. delete_relayer ex_api ''relayer'' (ex_app\<lparr> app_world := ex_world (ex_tx\<lparr> status := Mined \<rparr>) \<rparr>) = (Inr (), s1)
     \<and> map_of (app_relayers s1) ''relayer'' = None"
proof -
  let ?s = "ex_app\<lparr> app_world := ex_world (ex_tx\<lparr> status := Mined \<rparr>) \<rparr>"
  have active: "t = ex_tx\<lparr> status := Mined \<rparr> \<Longrightarrow> status t \<notin> {Pending, Sent, Submitted}" for t
    by simp
  have "map_of (app_relayers ?s) ''relayer'' = Some ex_relayer"
    by (simp add: ex_app_def)
  moreover have "tx_lookup (w_repo (app_world ?s)) ''tx-1'' = Some (ex_tx\<lparr> status := Mined \<rparr>)"
    by (simp add: ex_tx_sel)
  moreover have "e_storage_fault (ae_env ex_api) k = None" "mset (e_values_order (ae_env ex_api) xs) = mset xs" for k xs
    by (simp_all add: ex_api_sel ex_services_sel ex_env_no_fault ex_env_order)
  ultimately show ?thesis
    using deleted_relayer_abandons_mined [of ex_api ?s "''relayer''" ex_relayer "''tx-1''" "ex_tx\<lparr> status := Mined \<rparr>" 0]
    by (simp add: active) blast
qed

section \<open>Cancelling for another relayer\<close>

lemma cancelled_pending:
  assumes "\<And>k. e_storage_fault E k = None" "tx_lookup (w_repo w) (tx_id tx) = Some tx" "status tx = Pending"
  shows "\<exists>tx' w'. cancel_transaction E r tx w = (Inr tx', w') \<and> status tx' = Canceled \<and> relayer_id tx' = relayer_id tx
    \<and> tx_lookup (w_repo w') (tx_id tx) = Some tx'"
proof -
  define tx' where "tx' = apply_partial_update E (e_now E (w_tick w))
    (default_update\<lparr> up_status := Some Canceled, up_confirmed_at := None, up_status_reason := Some ''Transaction canceled by user'' \<rparr>) tx"
  have fields: "status tx' = Canceled" "relayer_id tx' = relayer_id tx"
    by (simp_all add: tx'_def apply_partial_update_def default_update_def set_opt_def update_delete_at_if_final_status_def Let_def)
  define w1 where "w1 = w\<lparr> w_repo := (w_repo w)\<lparr> store := AList.update (tx_id tx) tx' (store (w_repo w)) \<rparr>, w_tick := w_tick w + 2 \<rparr>"
  have update: "partial_updateM E (tx_id tx)
      (default_update\<lparr> up_status := Some Canceled, up_confirmed_at := None, up_status_reason := Some ''Transaction canceled by user'' \<rparr>) w
    = (Inr tx', w1)"
    using assms(1,2) by (simp add: partial_updateM_def bindM_def map_errM_def askM_def repoM_def partial_update_def w1_def tx'_def Let_def)
  have "w_repo (snd (send_transaction_update_notification E r tx' w1)) = w_repo w1"
    by (simp add: send_transaction_update_notification_def produceM_def returnM_def split: option.splits)
  then obtain w2 where notified: "(ignoreM (send_transaction_update_notification E r tx') :: unit handler) w1 = (Inr (), w2)" "w_repo w2 = w_repo w1"
    by (simp add: ignoreM_def)
  have "cancel_transaction E r tx w = (Inr tx', w2)"
    using assms(3) notified(1) update
    by (simp add: cancel_transaction_def ensure_status_one_of_def update_transaction_status_def confirmed_at_of_def
        thenM_def bindM_def liftR_def returnM_def)
  then show ?thesis
    using fields notified(2) by (simp add: w1_def update_conv')
qed

text \<open>
  C40: Cancelling does not look at the owner. With an active relayer and a storage that answers,
  cancelling a pending transaction by its id succeeds and stores it as canceled, whichever
  relayer the transaction belongs to: the path of the request names a relayer, but only the
  existence of the transaction is checked.
\<close>

theorem cancel_ignores_owner:
  assumes "active_relayer (ae_services A) rid s = (Inr r, s1)"
    and "get_relayer_transaction_by_model (ae_services A) r s1 = (Inr (evm_transaction (ae_env A) r), s2)"
    and "\<And>k. e_storage_fault (ae_env A) k = None"
    and "tx_lookup (w_repo (app_world s2)) (tx_id tx) = Some tx" and "status tx = Pending"
  shows "\<exists>tx' s'. api_cancel_transaction A rid (tx_id tx) s = (Inr tx', s') \<and> status tx' = Canceled
    \<and> relayer_id tx' = relayer_id tx \<and> tx_lookup (w_repo (app_world s')) (tx_id tx) = Some tx'"
proof -
  define s3 where "s3 = s2\<lparr> app_world := (app_world s2)\<lparr> w_tick := Suc (w_tick (app_world s2)) \<rparr> \<rparr>"
  have fetch: "get_transaction_by_id (ae_services A) (tx_id tx) s2 = (Inr tx, s3)"
    using assms(3,4) by (simp add: get_transaction_by_id_def get_by_id_def repoM_def inW_def map_errM_def s3_def)
  have "tx_lookup (w_repo (app_world s3)) (tx_id tx) = Some tx"
    using assms(4) by (simp add: s3_def)
  from cancelled_pending [OF assms(3) this assms(5)] obtain tx' w' where
    "cancel_transaction (ae_env A) r tx (app_world s3) = (Inr tx', w')" "status tx' = Canceled" "relayer_id tx' = relayer_id tx"
    "tx_lookup (w_repo w') (tx_id tx) = Some tx'"
    by blast
  then show ?thesis
    by (simp add: api_cancel_transaction_def bindM_def assms(1,2) fetch map_errM_def inW_def evm_transaction_def)
qed

theorem cancel_ignores_owner_witness:
  "\<exists>tx' s'. api_cancel_transaction ex_api ''other'' ''tx-1''
       \<lparr> app_world = ex_world (ex_tx\<lparr> status := Pending \<rparr>), app_relayers = [(''other'', ex_relayer\<lparr> r_id := ''other'' \<rparr>)] \<rparr>
     = (Inr tx', s') \<and> status tx' = Canceled \<and> relayer_id tx' = ''relayer''"
proof -
  let ?r = "ex_relayer\<lparr> r_id := ''other'' \<rparr>" and ?tx = "ex_tx\<lparr> status := Pending \<rparr>"
  let ?s = "\<lambda>k. \<lparr> app_world = (ex_world ?tx)\<lparr> w_tick := k \<rparr>, app_relayers = [(''other'', ?r)] \<rparr>"
  have start: "?s 0 = \<lparr> app_world = ex_world ?tx, app_relayers = [(''other'', ?r)] \<rparr>"
    by (simp add: ex_world_def)
  have active: "active_relayer (ae_services ex_api) ''other'' (?s 0) = (Inr ?r, ?s 1)"
    by (simp add: active_relayer_def get_relayer_by_id_def relayersM_def relayer_get_by_id_def validate_active_state_def
        ex_api_sel ex_services_sel ex_env_no_fault ex_relayer_def eff_defs Let_def)
  have service: "get_relayer_transaction_by_model (ae_services ex_api) ?r (?s 1) = (Inr (evm_transaction (ae_env ex_api) ?r), ?s 4)"
    by (simp add: get_relayer_transaction_by_model_def create_transaction_def ex_api_sel ex_services_sel ex_network_found
        ex_relayer_def callM_def inW_def eff_defs)
  have storage: "e_storage_fault (ae_env ex_api) k = None" for k
    by (simp add: ex_api_sel ex_services_sel ex_env_no_fault)
  have stored: "tx_lookup (w_repo (app_world (?s 4))) (tx_id ?tx) = Some ?tx" "status ?tx = Pending"
    by simp_all
  have owner: "relayer_id ?tx = ''relayer''" "tx_id ?tx = ''tx-1''"
    by (simp_all add: ex_tx_sel)
  show ?thesis
    using cancel_ignores_owner [OF active service storage stored] unfolding start owner by blast
qed

end
