(* ===== verification/Evm_Lifecycle.thy ===== *)
theory Evm_Lifecycle
  imports Relayer_Api
begin

text \<open>
  The EVM side of the relayer as a transition system. A step is one run of a domain
  operation, with any answers of the node, the storage and the queue, on a transaction as it
  is stored when the run starts; jobs are run in any order and any number of times. The
  theory shows what every sequence of steps keeps of the transactions, of the nonces and of
  the log of broadcasts, and that the workers and the controllers only make such steps.
\<close>

section \<open>Steps\<close>

definition current :: "world \<Rightarrow> transaction_repo_model \<Rightarrow> bool" where
  "current w tx \<longleftrightarrow> tx_lookup (w_repo w) (tx_id tx) = Some tx"

text \<open>
  \<open>Ids\<close> are the identifiers and addresses of the relayers. The flag says whether nonce health
  actions take part. A nonce is never allocated when the counter is at the last value of the
  64 bit range, which no chain accepts as a nonce.
\<close>

inductive evm_step :: "bool \<Rightarrow> evm_env \<Rightarrow> (string \<times> string) set \<Rightarrow> world \<Rightarrow> world \<Rightarrow> bool"
  for H E Ids where
  step_tick: "evm_step H E Ids w (w\<lparr> w_tick := k \<rparr>)"
| step_produce: "evm_step H E Ids w (w\<lparr> w_jobs := w_jobs w @ [j] \<rparr>)"
| step_prepare: "evm_step H E Ids w (snd (prepare_transaction E r tx w))"
    if "current w tx" "relayer_id tx = r_id r" "(r_id r, r_address r) \<in> Ids" "next_counter r w \<noteq> - 1"
| step_submit: "evm_step H E Ids w (snd (submit_transaction E r tx w))" if "current w tx"
| step_resubmit: "evm_step H E Ids w (snd (resubmit_transaction E r tx w))" if "current w tx"
| step_cancel: "evm_step H E Ids w (snd (cancel_transaction E r tx w))" if "current w tx"
| step_replace: "evm_step H E Ids w (snd (replace_transaction E r tx req w))" if "current w tx"
| step_status: "evm_step H E Ids w (snd (handle_status_impl E r tx ctx w))" if "current w tx"
| step_count_failure:
    "evm_step H E Ids w (w\<lparr> w_repo := snd (increment_status_check_failures i (w_repo w)) \<rparr>)"
| step_reset_failures:
    "evm_step H E Ids w (w\<lparr> w_repo := snd (reset_status_check_consecutive_failures i (w_repo w)) \<rparr>)"
| step_accept: "evm_step H E Ids w (snd (process_transaction_request_with_id E net r q i w))"
| step_accept_once:
    "evm_step H E Ids w (snd (create_idempotent E T rid key fp ttl (process_transaction_request_with_id E net r q) w))"
| step_delete_pending: "evm_step H E Ids w (snd (delete_pending_transactions E r w))"
| step_check_health: "evm_step H E Ids w (snd (check_health E r w))"
| step_health_action: "evm_step H E Ids w (snd (handle_health_action E L r m w))" if "H"

section \<open>Effects on the stored transactions\<close>

definition status_reach :: "transaction_status \<Rightarrow> transaction_status \<Rightarrow> bool" where
  "status_reach = (\<lambda>s s'. s' \<in> set (status_next s))\<^sup>*\<^sup>*"

definition progresses :: "transaction_repo_model \<Rightarrow> transaction_repo_model \<Rightarrow> bool" where
  "progresses t t' \<longleftrightarrow> evolves t t' \<and> status_reach (status t) (status t')"

lemma progresses_refl [simp]: "progresses t t"
  by (simp add: progresses_def status_reach_def)

lemma progresses_trans: "progresses t t' \<Longrightarrow> progresses t' t'' \<Longrightarrow> progresses t t''"
  by (auto simp: progresses_def status_reach_def intro: evolves_trans)

lemma moves_progresses: "moves t t' \<Longrightarrow> progresses t t'"
  by (auto simp: moves_def progresses_def status_reach_def)

text \<open>Every stored transaction is still stored, and has progressed.\<close>

definition advances :: "world \<Rightarrow> world \<Rightarrow> bool" where
  "advances w w' \<longleftrightarrow> (\<forall>i t. tx_lookup (w_repo w) i = Some t \<longrightarrow>
     (\<exists>t'. tx_lookup (w_repo w') i = Some t' \<and> progresses t t'))"

lemma advances_refl: "tx_lookup (w_repo w') = tx_lookup (w_repo w) \<Longrightarrow> advances w w'"
  by (simp add: advances_def)

lemma advances_trans: "advances w w' \<Longrightarrow> advances w' w'' \<Longrightarrow> advances w w''"
  unfolding advances_def by (meson progresses_trans)

lemma advances_keeps:
  "(\<And>i t. tx_lookup (w_repo w) i = Some t \<Longrightarrow> tx_lookup (w_repo w') i = Some t) \<Longrightarrow> advances w w'"
  by (auto simp: advances_def)

lemma touched_advances: "touched w tx w' \<Longrightarrow> current w tx \<Longrightarrow> advances w w'"
  unfolding advances_def touched_def current_def by (metis moves_progresses option.inject progresses_refl)

lemma allocated_advances: "allocated_one r w tx w' \<Longrightarrow> current w tx \<Longrightarrow> advances w w'"
  unfolding advances_def allocated_one_def current_def by (metis moves_progresses option.inject progresses_refl)

lemma run_touched:
  assumes "preserves (touched w tx) m V" "current w tx"
  shows "touched w tx (snd (m w))"
  using pres_snd [OF assms(1) touched_start] assms(2) by (simp add: current_def)

lemmas steps_touch = run_touched [OF pres_submit] run_touched [OF pres_resubmit] run_touched [OF pres_cancel]
  run_touched [OF pres_replace] run_touched [OF pres_handle_status]

lemma prepare_not_pending:
  assumes "status tx \<noteq> Pending"
  shows "snd (prepare_transaction E r tx w) = w"
  using assms by (auto simp: prepare_transaction_def ensure_status_def throwM_def returnM_def split: sum.splits)

lemma prepare_prepared:
  assumes "current w tx"
  shows "prepared r w tx (snd (prepare_transaction E r tx w))"
proof (cases "status tx = Pending")
  case True
  have "valid (same_store w) (prepare_transaction E r tx) (\<lambda>_. prepared r w tx) (\<lambda>_. prepared r w tx)"
    using assms True
    by (intro valid_conseq [OF valid_prepare]) (auto simp: current_def prepare_result_def prepared_def)
  then show ?thesis
    by (rule valid_snd) (simp add: same_store_def)
next
  case False
  then show ?thesis
    using touched_start assms by (simp add: prepare_not_pending prepared_def current_def)
qed

lemma count_touched:
  assumes "repo_wf (w_repo w)" "\<And>t. tx_id (f t) = tx_id t \<and> relayer_id (f t) = relayer_id t \<and> created_at (f t) = created_at t
      \<and> status (f t) = status t \<and> network_data (f t) = network_data t \<and> hashes (f t) = hashes t"
    and "w' = w\<lparr> w_repo := snd (update_unless_final i f (w_repo w)) \<rparr>"
  shows "w' = w \<or> (\<exists>tx. current w tx \<and> touched w tx w')"
proof (cases "tx_lookup (w_repo w) i")
  case None
  then show ?thesis using assms(3) by (simp add: update_unless_final_def)
next
  case (Some tx)
  then have i: "tx_id tx = i" by (rule repo_wf_lookup_id [OF assms(1)])
  show ?thesis
  proof (cases "mem_is_final_state (status tx)")
    case True
    then show ?thesis using assms(3) Some by (simp add: update_unless_final_def)
  next
    case False
    then have "\<not> is_final_state (status tx)" by (cases "status tx") (simp_all add: mem_is_final_state_def is_final_state_iff)
    then have "moves tx (f tx)" "tx_nonce (f tx) = tx_nonce tx"
      using assms(2) [of tx] by (auto simp: moves_def evolves_def tx_nonce_def)
    then have "touched w tx w'"
      using assms(3) Some False i by (auto simp: update_unless_final_def touched_def update_conv')
    then show ?thesis using Some i by (auto simp: current_def)
  qed
qed

subsection \<open>Accepting a request\<close>

text \<open>At most one transaction is added, without a nonce; no counter changes.\<close>

definition stored_new :: "world \<Rightarrow> string \<Rightarrow> world \<Rightarrow> bool" where
  "stored_new w0 i w \<longleftrightarrow> w_counter w = w_counter w0 \<and> tx_lookup (w_repo w0) i = None
     \<and> (\<exists>t. tx_nonce t = None \<and> tx_lookup (w_repo w) = (tx_lookup (w_repo w0))(i \<mapsto> t))"

definition added_one :: "world \<Rightarrow> world \<Rightarrow> bool" where
  "added_one w0 w \<longleftrightarrow> same_txs w0 w \<or> (\<exists>i. stored_new w0 i w)"

interpretation stored_new_inv: world_inv "stored_new w0 i" for w0 i
  by unfold_locales (auto simp: stored_new_def)

lemma added_prefix:
  assumes "preserves (same_txs w0) m V"
  shows "valid (same_txs w0) m (\<lambda>x w. same_txs w0 w \<and> V x) (\<lambda>_. added_one w0)"
  by (rule valid_conseq [OF assms [unfolded preserves_def]]) (auto simp: added_one_def)

lemma stored_new_step:
  assumes "stored_new w0 i w" "partial_update C now i u (w_repo w) = (res, R)" "up_network_data u = None"
  shows "stored_new w0 i (w\<lparr> w_repo := R, w_tick := k \<rparr>)"
proof -
  obtain t where t: "tx_nonce t = None" "tx_lookup (w_repo w) = (tx_lookup (w_repo w0))(i \<mapsto> t)"
    and f: "w_counter w = w_counter w0" "tx_lookup (w_repo w0) i = None"
    using assms(1) by (auto simp: stored_new_def)
  have "R = w_repo w \<or> R = (w_repo w)\<lparr> store := AList.update i (apply_partial_update C now u t) (store (w_repo w)) \<rparr>"
    using assms(2) t(2) by (auto simp: partial_update_def Let_def split: if_splits)
  moreover have "tx_nonce (apply_partial_update C now u t) = None"
    using t(1) assms(3) by (simp add: tx_nonce_def)
  ultimately show ?thesis
    using t f by (auto simp: stored_new_def map_of_alist_update)
qed

lemma stored_new_update:
  assumes "up_network_data u = None"
  shows "preserves (stored_new w0 i) (partial_updateM E i u) (\<lambda>_. True)"
  unfolding partial_updateM_def
proof (rule pres_bind [OF stored_new_inv.pres_ask], rule pres_map_err)
  fix now
  show "preserves (stored_new w0 i) (repoM E (partial_update E now i u)) (\<lambda>_. True)"
    by (auto simp: preserves_def valid_def repoM_def stored_new_inv.tick_stable
        split: option.splits prod.splits sum.splits dest: stored_new_step [OF _ _ assms])
qed

lemma queue_new_stored: "preserves (stored_new w0 (tx_id t)) (queue_new_transaction E net t) (\<lambda>_. True)"
  unfolding queue_new_transaction_def schedule_initial_status_check_def
  by (rule pres stored_new_inv.pres_env stored_new_update TrueI | simp)+

lemma create_new_stored:
  assumes "tx_nonce t = None"
  shows "valid (same_txs w0) (map_errM f (repoM E (create t))) (\<lambda>_. stored_new w0 (tx_id t)) (\<lambda>_. added_one w0)"
  using assms by (auto simp: valid_def map_errM_def repoM_def create_def same_txs_def stored_new_def added_one_def
      map_of_alist_update split: option.splits prod.splits sum.splits if_splits)

lemma accept_adds:
  "valid (same_txs w0) (process_transaction_request_with_id E net r q i) (\<lambda>_. added_one w0) (\<lambda>_. added_one w0)"
  unfolding process_transaction_request_with_id_def Let_def thenM_def
  apply (rule valid_bind [OF added_prefix [OF same_txs_network]], rule valid_fact)
  apply (rule valid_bind [OF added_prefix [OF same_txs_inv.pres_now]], rule valid_fact)
  apply (rule valid_bind [OF added_prefix [OF same_txs_inv.pres_ask]], rule valid_fact)
  subgoal for network now uuid
    by (rule valid_bind [OF create_new_stored])
      (simp add: evm_tx_of_request_def tx_nonce_def,
       rule valid_conseq [OF queue_new_stored [unfolded preserves_def]], auto simp: added_one_def)
  done

lemma same_txs_idempotency: "same_txs w0 w \<Longrightarrow> same_txs w0 (w\<lparr> w_repo := (w_repo w)\<lparr> idempotency := m \<rparr>, w_tick := k \<rparr>)"
  by (simp add: same_txs_def)

lemma added_one_idempotency:
  "added_one w0 w \<Longrightarrow> added_one w0 (w\<lparr> w_repo := (w_repo w)\<lparr> idempotency := m \<rparr>, w_tick := k \<rparr>)"
  by (auto simp: added_one_def same_txs_def stored_new_def)

lemma same_txs_refl: "same_txs w w"
  by (simp add: same_txs_def)

lemma same_txs_reserve: "preserves (same_txs w0) (repoM E (reserve_idempotency_key t t' rid key held ttl)) (\<lambda>_. True)"
  by (auto simp: preserves_def valid_def repoM_def reserve_idempotency_key_def Let_def same_txs_def split: option.splits)

lemma same_txs_get_record: "preserves (same_txs w0) (repoM E (get_idempotency_record t rid key)) (\<lambda>_. True)"
  by (auto simp: preserves_def valid_def repoM_def get_idempotency_record_def Let_def same_txs_def split: option.splits)

lemma same_txs_get: "preserves (same_txs w0) (repoM E (get_by_id i)) (\<lambda>_. True)"
  by (auto simp: preserves_def valid_def repoM_def get_by_id_def same_txs_def split: option.splits)

lemma same_txs_replay: "preserves (same_txs w0) (replay E rid key fp window) (\<lambda>_. True)"
  unfolding replay_def
  by (rule pres same_txs_inv.pres_env same_txs_get_record same_txs_get TrueI |
      split repository_error.split, intro conjI allI impI)+

lemma added_one_release:
  "preserves (added_one w0) (repoM E (release_idempotency_key_if_unused rid key i)) (\<lambda>_. True)"
  by (auto simp: preserves_def valid_def repoM_def release_idempotency_key_if_unused_def Let_def added_one_def
      same_txs_def stored_new_def split: option.splits)

lemma accept_once_adds:
  "valid (same_txs w0) (create_idempotent E T rid key fp ttl (process_transaction_request_with_id E net r q))
     (\<lambda>_. added_one w0) (\<lambda>_. added_one w0)"
proof -
  have run: "valid (same_txs w0) (attemptM (process_transaction_request_with_id E net r q i)) (\<lambda>_. added_one w0) (\<lambda>_. added_one w0)"
    for i
    using accept_adds [of w0 E net r q i] by (auto simp: valid_def attemptM_def split: prod.splits sum.splits)
  have tail: "valid (added_one w0) (case result of
                  Inr tx \<Rightarrow> returnM tx
                | Inl e \<Rightarrow>
                    thenM (ignoreM (repoM E (release_idempotency_key_if_unused rid key i)))
                      (throwM (api_error_of_relayer_error e))) (\<lambda>_. added_one w0) (\<lambda>_. added_one w0)"
    for result :: "relayer_error + transaction_repo_model" and i
  proof (rule valid_conseq [OF _ _ _ _])
    show "valid (added_one w0) (case result of
                  Inr tx \<Rightarrow> returnM tx
                | Inl e \<Rightarrow>
                    thenM (ignoreM (repoM E (release_idempotency_key_if_unused rid key i)))
                      (throwM (api_error_of_relayer_error e))) (\<lambda>x w. added_one w0 w \<and> True) (\<lambda>_. added_one w0)"
      unfolding preserves_def [symmetric] by (rule pres added_one_release TrueI)+
  qed auto
  show ?thesis
    unfolding create_idempotent_def Let_def
    apply (rule valid_bind [OF added_prefix [OF same_txs_inv.pres_ask]], rule valid_fact)
    apply (rule valid_bind [OF added_prefix [OF same_txs_inv.pres_now]], rule valid_fact)
    apply (rule valid_bind [OF added_prefix [OF same_txs_inv.pres_ask]], rule valid_fact)
    apply (rule valid_bind [OF added_prefix [OF same_txs_inv.pres_ask]], rule valid_fact)
    apply (rule valid_bind [OF added_prefix [OF pres_map_err [OF same_txs_reserve]]], rule valid_fact)
    apply (rule valid_if)
     apply (rule valid_conseq [OF same_txs_replay [unfolded preserves_def]]; auto simp: added_one_def)
    apply (rule valid_bind [OF run tail])
    done
qed

lemma added_advances: "added_one w w' \<Longrightarrow> advances w w'"
  by (auto simp: added_one_def same_txs_def stored_new_def intro!: advances_keeps)

subsection \<open>Operations that add nothing\<close>

lemma same_txs_find: "preserves (same_txs w0) (repoM E (find_by_status order rid sts)) (\<lambda>_. True)"
  by (auto simp: preserves_def valid_def repoM_def find_by_status_def Let_def same_txs_def split: option.splits)

lemma same_txs_cancel_each: "preserves (same_txs w0) (cancel_each E txs cs ns) (\<lambda>_. True)"
proof (induction txs arbitrary: cs ns)
  case (Cons t txs)
  show ?case
    unfolding cancel_each.simps cancel_transaction_via_job_def by (rule pres same_txs_inv.pres_env Cons.IH TrueI)+
qed (simp add: pres_return)

lemma same_txs_delete_pending: "preserves (same_txs w0) (delete_pending_transactions E r) (\<lambda>_. True)"
  unfolding delete_pending_transactions_def by (rule pres same_txs_find same_txs_cancel_each TrueI)+

text \<open>A health check reads the repository not at all and only raises counters.\<close>

definition counter_at :: "world \<Rightarrow> string \<times> string \<Rightarrow> u64" where
  "counter_at w k = (case w_counter w k of Some c \<Rightarrow> c | None \<Rightarrow> 0)"

definition raised :: "world \<Rightarrow> world \<Rightarrow> bool" where
  "raised w0 w \<longleftrightarrow> w_repo w = w_repo w0 \<and> (\<forall>k. counter_at w0 k \<le> counter_at w k)"

interpretation raised_inv: world_inv "raised w0" for w0
  by unfold_locales (auto simp: raised_def counter_at_def)

lemma raised_sync: "preserves (raised w0) (serviceM E r (\<lambda>i a. counter_sync_floor i a f)) (\<lambda>_. True)"
proof -
  have "raised w0 (w\<lparr> w_counter := snd (counter_sync_floor i a f (w_counter w)), w_tick := k \<rparr>)" if "raised w0 w" for w i a k
  proof -
    have up: "counter_at w k' \<le> counter_at (w\<lparr> w_counter := snd (counter_sync_floor i a f (w_counter w)), w_tick := k \<rparr>) k'" for k'
      by (cases "w_counter w (i, a)") (auto simp: counter_at_def counter_sync_floor_def Let_def)
    show ?thesis
      using that order_trans [OF _ up] by (simp add: raised_def)
  qed
  then show ?thesis
    by (auto simp: preserves_def valid_def serviceM_def map_errM_def counterM_def raised_inv.tick_stable
        split: option.splits prod.splits sum.splits) (metis snd_conv)+
qed

lemma raised_sync_nonce: "preserves (raised w0) (sync_nonce E r) (\<lambda>_. True)"
  unfolding sync_nonce_def get_on_chain_nonce_def by (rule pres raised_inv.pres_env raised_sync TrueI)+

lemma raised_validate_rpc: "preserves (raised w0) (validate_rpc E) (\<lambda>_. True)"
  unfolding validate_rpc_def by (rule pres raised_inv.pres_env TrueI)+

lemma raised_validate_min_balance: "preserves (raised w0) (validate_min_balance E r) (\<lambda>_. True)"
  unfolding validate_min_balance_def by (rule pres_map_err, rule pres_conseq [OF raised_inv.pres_call]) simp

lemma raised_check_health: "preserves (raised w0) (check_health E r) (\<lambda>_. True)"
  unfolding check_health_def Let_def
  by (rule pres raised_sync_nonce raised_validate_rpc raised_validate_min_balance TrueI)+

subsection \<open>Nonce health\<close>

interpretation repo_kept: world_inv "\<lambda>w. w_repo w = R" for R
  by unfold_locales auto

lemma kept_service: "preserves (\<lambda>w. w_repo w = R) (serviceM E r c) (\<lambda>_. True)"
  by (auto simp: preserves_def valid_def serviceM_def map_errM_def counterM_def split: option.splits prod.splits sum.splits)

lemma kept_read: "(\<And>R. snd (m R) = R) \<Longrightarrow> preserves (\<lambda>w. w_repo w = R) (internalM E m) (\<lambda>_. True)"
  by (auto simp: preserves_def valid_def internalM_def map_errM_def repoM_def split: option.splits prod.splits sum.splits)
    (metis snd_conv)+

lemma reads:
  "snd (get_nonce_occupancy order rid a b R) = R" "snd (find_by_nonce order rid n R) = R"
  by (auto simp: get_nonce_occupancy_def occupancy_loop_eq find_by_nonce_def)

lemmas kept = kept_service kept_read [OF reads(1)] kept_read [OF reads(2)]

lemma kept_on_chain: "preserves (\<lambda>w. w_repo w = R) (get_on_chain_nonce E r) (\<lambda>_. True)"
  unfolding get_on_chain_nonce_def by (rule pres_map_err, rule pres_conseq [OF repo_kept.pres_call]) simp

lemma kept_detect: "preserves (\<lambda>w. w_repo w = R) (detect_nonce_gaps E r on_chain hint) (\<lambda>_. True)"
  unfolding detect_nonce_gaps_def by (rule pres kept kept_on_chain TrueI)+

lemma kept_rewind_scan: "preserves (\<lambda>w. w_repo w = R) (rewind_scan E r lo hi) (\<lambda>_. True)"
proof (induction E r lo hi rule: rewind_scan.induct)
  case (1 E r lo hi)
  show ?case
    by (subst rewind_scan.simps) (rule pres kept "1.IH" TrueI | assumption)+
qed

lemma kept_rewind: "preserves (\<lambda>w. w_repo w = R) (try_rewind_counter E r on_chain observed) (\<lambda>_. True)"
  unfolding try_rewind_counter_def by (rule pres kept kept_rewind_scan TrueI)+

lemma kept_cover_hint: "preserves (\<lambda>w. w_repo w = R) (cover_hint E r hint) (\<lambda>_. True)"
  unfolding cover_hint_def by (rule pres kept TrueI)+

definition keeps_all :: "world \<Rightarrow> world \<Rightarrow> bool" where
  "keeps_all w0 w \<longleftrightarrow> (\<forall>i t. tx_lookup (w_repo w0) i = Some t \<longrightarrow> tx_lookup (w_repo w) i = Some t)"

lemma kept_prefix:
  assumes "preserves (\<lambda>w. w_repo w = w_repo w0) m V"
  shows "valid (\<lambda>w. w_repo w = w_repo w0) m (\<lambda>x w. w_repo w = w_repo w0 \<and> V x) (\<lambda>_. keeps_all w0)"
  by (rule valid_conseq [OF assms [unfolded preserves_def]]) (auto simp: keeps_all_def)

lemma resolve_keeps:
  "valid (\<lambda>w. w_repo w = w_repo w0) (resolve_nonce_gaps E r hint) (\<lambda>_. keeps_all w0) (\<lambda>_. keeps_all w0)"
  unfolding resolve_nonce_gaps_def Let_def thenM_def
  apply (rule valid_bind [OF kept_prefix [OF kept_service]], rule valid_fact)
  apply (rule valid_bind [OF kept_prefix [OF kept_cover_hint]], rule valid_fact)
  apply (rule valid_bind [OF kept_prefix [OF kept_on_chain]], rule valid_fact)
  apply (rule valid_bind [OF kept_prefix [OF kept_service]], rule valid_fact)
  apply (rule valid_bind [OF kept_prefix [OF kept_rewind]], rule valid_fact)
  apply (rule valid_bind [OF kept_prefix [OF kept_detect]], rule valid_fact)
  apply (rule valid_if)
   apply (rule valid_return, simp add: keeps_all_def)
  apply (rule validI; drule fill_gaps_fills; simp add: only_fills_def keeps_all_def)
  done

lemma health_action_keeps: "keeps_all w (snd (handle_health_action E L r m w))"
proof -
  have r: "keeps_all w (snd (resolve_nonce_gaps E r hint w))" for hint
    by (rule valid_snd [OF resolve_keeps]) simp
  have "snd (handle_health_action E L r m w) = w
      \<or> snd (handle_health_action E L r m w) = snd (resolve_nonce_gaps E r (nonce_hint_of m) w)"
    by (auto simp: handle_health_action_def bindM_def returnM_def split: option.splits sum.splits prod.splits)
  then show ?thesis
    using r by (auto simp: keeps_all_def)
qed

subsection \<open>Every step\<close>

lemma count_steps:
  assumes "repo_wf (w_repo w)"
    and "w' = w\<lparr> w_repo := snd (increment_status_check_failures i (w_repo w)) \<rparr>
      \<or> w' = w\<lparr> w_repo := snd (reset_status_check_consecutive_failures i (w_repo w)) \<rparr>"
  shows "w' = w \<or> (\<exists>tx. current w tx \<and> touched w tx w')"
  using assms(2) unfolding increment_status_check_failures_def reset_status_check_consecutive_failures_def
  by (elim disjE; intro count_touched [OF assms(1)]; auto simp: Let_def)

text \<open>What a step does to the stored transactions and to the counters.\<close>

lemma step_effect:
  assumes "evm_step H E Ids w w'" "repo_wf (w_repo w)"
  shows "same_txs w w' \<or> added_one w w' \<or> (\<exists>tx. current w tx \<and> touched w tx w')
    \<or> (\<exists>r tx. current w tx \<and> relayer_id tx = r_id r \<and> (r_id r, r_address r) \<in> Ids \<and> next_counter r w \<noteq> - 1 \<and> allocated_one r w tx w')
    \<or> raised w w' \<or> H \<and> keeps_all w w'"
  using assms(1)
proof cases
  case (step_tick k)
  then show ?thesis by (simp add: same_txs_def)
next
  case (step_produce j)
  then show ?thesis by (simp add: same_txs_def)
next
  case (step_prepare tx r)
  then show ?thesis using prepare_prepared [of w tx r E] by (auto simp: prepared_def)
next
  case (step_count_failure i)
  then have "w' = w \<or> (\<exists>tx. current w tx \<and> touched w tx w')" using count_steps [OF assms(2), of w' i] by blast
  then show ?thesis using same_txs_refl by blast
next
  case (step_reset_failures i)
  then have "w' = w \<or> (\<exists>tx. current w tx \<and> touched w tx w')" using count_steps [OF assms(2), of w' i] by blast
  then show ?thesis using same_txs_refl by blast
next
  case (step_accept net r q i)
  then show ?thesis using valid_snd [OF accept_adds, of w w] by (simp add: same_txs_def)
next
  case (step_accept_once T rid key fp ttl net r q)
  then show ?thesis using valid_snd [OF accept_once_adds, of w w] by (simp add: same_txs_def)
next
  case (step_delete_pending r)
  then show ?thesis using pres_snd [OF same_txs_delete_pending, of w w] by (simp add: same_txs_def)
next
  case (step_check_health r)
  then show ?thesis using pres_snd [OF raised_check_health, of w w] by (simp add: raised_def)
next
  case (step_health_action L r m)
  then show ?thesis using health_action_keeps by simp
qed (rule disjI2, rule disjI2, rule disjI1, rule exI, rule conjI, assumption, simp only: steps_touch)+

lemma step_advances: "evm_step H E Ids w w' \<Longrightarrow> repo_wf (w_repo w) \<Longrightarrow> advances w w'"
  by (drule (1) step_effect)
    (auto simp: same_txs_def raised_def keeps_all_def intro: advances_keeps added_advances touched_advances allocated_advances)

section \<open>Well-formed repositories and the log of broadcasts\<close>

lemma repo_quiet_idempotency:
  "repo_quiet (reserve_idempotency_key t t' rid key held ttl)" "repo_quiet (get_idempotency_record t rid key)"
  "repo_quiet (release_idempotency_key_if_unused rid key i)"
  using step_reserve step_get_record step_release by (auto simp: repo_quiet_def)

context quiet_inv
begin

lemma quiet_replay: "preserves J (replay E rid key fp window) (\<lambda>_. True)"
  unfolding replay_def
  by (rule pres quiet repo_quiet_ops repo_quiet_idempotency TrueI |
      split repository_error.split, intro conjI allI impI)+

lemma quiet_accept_once:
  "preserves J (create_idempotent E T rid key fp ttl (process_transaction_request_with_id E net r q)) (\<lambda>_. True)"
  unfolding create_idempotent_def Let_def
  by (rule pres quiet repo_quiet_idempotency quiet_replay quiet_process_request TrueI)+

end

lemma step_wf:
  assumes "evm_step H E Ids w w'" "repo_wf (w_repo w)"
  shows "repo_wf (w_repo w')"
  using assms(1)
proof cases
  case (step_count_failure i)
  then show ?thesis using repo_step_wf [OF step_incr assms(2)] by simp
next
  case (step_reset_failures i)
  then show ?thesis using repo_step_wf [OF step_reset assms(2)] by simp
qed (simp_all add: assms(2) pres_snd [OF wf_inv.quiet_prepare] pres_snd [OF wf_inv.noisy_submit] pres_snd [OF wf_inv.noisy_resubmit]
  pres_snd [OF wf_inv.quiet_cancel] pres_snd [OF wf_inv.quiet_replace] pres_snd [OF wf_inv.quiet_handle_status]
  pres_snd [OF wf_inv.quiet_process_request] pres_snd [OF wf_inv.quiet_accept_once] pres_snd [OF wf_inv.quiet_delete_pending]
  pres_snd [OF wf_inv.quiet_check_health] pres_snd [OF wf_inv.quiet_health_action])

lemma step_log:
  assumes "evm_step H E Ids w w'"
  shows "w_broadcasts w' = w_broadcasts w
    \<or> (\<exists>raw tx r. w_broadcasts w' = w_broadcasts w @ [raw] \<and> current w tx \<and> (stored_raw tx raw \<or> resigned_raw E r tx raw))"
  using assms
proof cases
  case (step_submit tx r)
  then show ?thesis
    using valid_snd [OF submit_broadcasts [where B = "w_broadcasts w" and E = E and r = r and tx = tx], of w] by (auto simp: broadcast_within_def)
next
  case (step_resubmit tx r)
  then show ?thesis
    using valid_snd [OF resubmit_broadcasts [where B = "w_broadcasts w" and E = E and r = r and tx = tx], of w] by (auto simp: broadcast_within_def)
qed (simp_all add: pres_snd [OF log_inv.quiet_prepare] pres_snd [OF log_inv.quiet_cancel] pres_snd [OF log_inv.quiet_replace]
  pres_snd [OF log_inv.quiet_handle_status] pres_snd [OF log_inv.quiet_process_request] pres_snd [OF log_inv.quiet_accept_once]
  pres_snd [OF log_inv.quiet_delete_pending] pres_snd [OF log_inv.quiet_check_health] pres_snd [OF log_inv.quiet_health_action])

abbreviation evm_run :: "bool \<Rightarrow> evm_env \<Rightarrow> (string \<times> string) set \<Rightarrow> world \<Rightarrow> world \<Rightarrow> bool" where
  "evm_run H E Ids \<equiv> (evm_step H E Ids)\<^sup>*\<^sup>*"

lemma run_advances:
  assumes "evm_run H E Ids w w'" "repo_wf (w_repo w)"
  shows "repo_wf (w_repo w') \<and> advances w w'"
  using assms
proof (induction rule: rtranclp_induct)
  case base
  then show ?case by (simp add: advances_refl)
next
  case (step w1 w2)
  then show ?case
    using step_wf [OF step.hyps(2)] step_advances [OF step.hyps(2)] advances_trans by blast
qed

section \<open>Nonces\<close>

text \<open>The relayer and the nonce of each stored transaction.\<close>

definition assignment :: "world \<Rightarrow> string \<Rightarrow> (string \<times> u64 option) option" where
  "assignment w i = map_option (\<lambda>t. (relayer_id t, tx_nonce t)) (tx_lookup (w_repo w) i)"

text \<open>No two transactions of a relayer have the same nonce, and every nonce is below the relayer's counter.\<close>

definition nonces_safe :: "(string \<times> string) set \<Rightarrow> world \<Rightarrow> bool" where
  "nonces_safe Ids w \<longleftrightarrow> (\<forall>(rid, a) \<in> Ids.
     (\<forall>i n. assignment w i = Some (rid, Some n) \<longrightarrow> n < counter_at w (rid, a)) \<and>
     (\<forall>i j n. assignment w i = Some (rid, Some n) \<and> assignment w j = Some (rid, Some n) \<longrightarrow> i = j))"

lemma nonces_safeD:
  assumes "nonces_safe Ids w" "(rid, a) \<in> Ids" "assignment w i = Some (rid, Some n)"
  shows "n < counter_at w (rid, a)" "assignment w j = Some (rid, Some n) \<Longrightarrow> j = i"
  using assms by (auto simp: nonces_safe_def)

lemma nonces_safe_mono:
  assumes "nonces_safe Ids w" "\<And>k. counter_at w k \<le> counter_at w' k"
    and "\<And>i rid n. assignment w' i = Some (rid, Some n) \<Longrightarrow> assignment w i = Some (rid, Some n)"
  shows "nonces_safe Ids w'"
  using assms unfolding nonces_safe_def by (fastforce intro: less_le_trans)

lemma touched_nonces:
  assumes "touched w tx w'" "current w tx"
  shows "assignment w' = assignment w" "counter_at w' = counter_at w"
proof -
  obtain t where t: "tx_lookup (w_repo w') (tx_id tx) = Some t" "moves tx t" "tx_nonce t = tx_nonce tx"
    using assms(1) by (auto simp: touched_def)
  show "assignment w' = assignment w"
  proof
    fix i show "assignment w' i = assignment w i"
      using assms t by (cases "i = tx_id tx") (auto simp: assignment_def touched_def current_def moves_def evolves_def)
  qed
  show "counter_at w' = counter_at w"
    using assms(1) by (auto simp: touched_def counter_at_def)
qed

lemma added_nonces:
  assumes "added_one w w'"
  shows "counter_at w' = counter_at w" "assignment w' i = Some (rid, Some n) \<Longrightarrow> assignment w i = Some (rid, Some n)"
  using assms by (auto simp: added_one_def same_txs_def stored_new_def assignment_def counter_at_def split: if_splits)

lemma less_plus_one: "x \<noteq> - 1 \<Longrightarrow> x < x + 1" for x :: u64
proof -
  assume "x \<noteq> - 1"
  then have "unat x \<noteq> unat (- 1 :: u64)"
    by (simp only: word_unat_eq_iff [symmetric] not_False_eq_True)
  then have "unat x \<noteq> 2 ^ 64 - 1"
    by (simp only: unat_max_word) simp
  moreover have "unat x < 2 ^ 64"
    using unsigned_less [of x, where 'a = nat] by simp
  ultimately have "unat (x + 1) = Suc (unat x)"
    by (simp add: unat_word_ariths)
  then show "x < x + 1"
    by (simp add: word_less_nat_alt)
qed

lemma allocated_nonces:
  assumes a: "allocated_one r w tx w'" and tx: "current w tx" "relayer_id tx = r_id r"
    and ids: "(r_id r, r_address r) \<in> Ids" "inj_on fst Ids" and max: "next_counter r w \<noteq> - 1"
    and safe: "nonces_safe Ids w"
  shows "nonces_safe Ids w'"
proof -
  let ?k = "(r_id r, r_address r)" and ?c = "next_counter r w"
  have c: "counter_at w ?k = ?c" "?c < ?c + 1"
    using max less_plus_one [of ?c] by (auto simp: counter_at_def next_counter_def)
  have up: "counter_at w' k = (if k = ?k then ?c + 1 else counter_at w k)" for k
    using a by (simp add: allocated_one_def counter_at_def)
  have new: "assignment w' i = Some (rid, Some n) \<Longrightarrow>
      assignment w i = Some (rid, Some n) \<or> i = tx_id tx \<and> rid = r_id r \<and> n = ?c" for i rid n
    using a tx by (cases "i = tx_id tx")
      (auto simp: allocated_one_def assignment_def current_def moves_def evolves_def)
  have old: "assignment w (tx_id tx) = Some (r_id r, None)"
    using a tx by (simp add: allocated_one_def assignment_def current_def)
  have "n < ?c" if "assignment w i = Some (r_id r, Some n)" for i n
    using safe ids(1) that c(1) by (fastforce simp: nonces_safe_def)
  then have fresh: "assignment w i \<noteq> Some (r_id r, Some ?c)" for i
    by (metis less_irrefl)
  show ?thesis
    unfolding nonces_safe_def
  proof (clarify, intro conjI allI impI)
    fix rid a i n assume k: "(rid, a) \<in> Ids" and i: "assignment w' i = Some (rid, Some n)"
    have "a = r_address r" if "rid = r_id r"
      using inj_onD [OF ids(2), of "(rid, a)" ?k] k ids(1) that by simp
    then show "n < counter_at w' (rid, a)"
      using new [OF i] safe k up c by (fastforce simp: nonces_safe_def intro: less_trans)
  next
    fix rid a i j n assume k: "(rid, a) \<in> Ids"
      and "assignment w' i = Some (rid, Some n) \<and> assignment w' j = Some (rid, Some n)"
    then show "i = j"
      using new [of i rid n] new [of j rid n] safe fresh by (auto simp: nonces_safe_def)
  qed
qed

lemma step_nonces:
  assumes "evm_step False E Ids w w'" "repo_wf (w_repo w)" "inj_on fst Ids" "nonces_safe Ids w"
  shows "nonces_safe Ids w'"
  using step_effect [OF assms(1,2)]
proof (elim disjE exE conjE)
  assume "same_txs w w'"
  then have "assignment w' = assignment w" "counter_at w' = counter_at w"
    by (auto simp: same_txs_def assignment_def counter_at_def)
  then show ?thesis using assms(4) by (simp add: nonces_safe_def)
next
  assume "raised w w'"
  then show ?thesis
    by (intro nonces_safe_mono [OF assms(4)]) (auto simp: raised_def assignment_def)
next
  assume "added_one w w'"
  from added_nonces [OF this] show ?thesis
    by (intro nonces_safe_mono [OF assms(4)]) auto
next
  fix tx assume "current w tx" "touched w tx w'"
  then show ?thesis
    using touched_nonces assms(4) by (simp add: nonces_safe_def)
next
  fix r tx assume "current w tx" "relayer_id tx = r_id r" "(r_id r, r_address r) \<in> Ids" "next_counter r w \<noteq> - 1"
    "allocated_one r w tx w'"
  then show ?thesis using allocated_nonces [OF _ _ _ _ assms(3) _ assms(4)] by blast
qed auto

lemma run_nonces:
  assumes "evm_run False E Ids w w'" "repo_wf (w_repo w)" "inj_on fst Ids" "nonces_safe Ids w"
  shows "nonces_safe Ids w'"
  using assms(1)
proof (induction rule: rtranclp_induct)
  case (step w1 w2)
  then show ?case
    using step_nonces [OF step.hyps(2) _ assms(3)] run_advances [OF step.hyps(1) assms(2)] by blast
qed (rule assms(4))

section \<open>Properties\<close>

text \<open>
  C1: Transactions are never lost and final states are final. Along every run of jobs, API
  calls and health actions, whatever the node, the storage and the queue answer, a stored
  transaction stays stored under its id, keeps its relayer, its creation time and, once it
  has one, its nonce, only gains hashes, is never changed again once it is final, and its
  status only follows the edges of the status graph.
\<close>

theorem lifecycle_safe:
  assumes "evm_run H E Ids w w'" and "repo_wf (w_repo w)" and "tx_lookup (w_repo w) i = Some t"
  shows "\<exists>t'. tx_lookup (w_repo w') i = Some t' \<and> evolves t t' \<and> status_reach (status t) (status t')"
  using run_advances [OF assms(1,2)] assms(3) by (auto simp: advances_def progresses_def)

text \<open>
  C2: Nonces are never shared. If the relayers have different ids and, at the start, every
  nonce is below its relayer's counter and no two transactions of a relayer share one, then
  along every run without nonce health actions no two transactions of a relayer ever have
  the same nonce, and every nonce stays below the counter.
\<close>

theorem nonces_never_shared:
  assumes "evm_run False E Ids w w'" and "repo_wf (w_repo w)" and "inj_on fst Ids" and "nonces_safe Ids w"
    and "(rid, a) \<in> Ids"
    and "tx_lookup (w_repo w') i = Some t" and "relayer_id t = rid" and "tx_nonce t = Some n"
  shows "n < counter_at w' (rid, a)
    \<and> (\<forall>j t'. tx_lookup (w_repo w') j = Some t' \<and> relayer_id t' = rid \<and> tx_nonce t' = Some n \<longrightarrow> j = i)"
proof -
  have safe: "nonces_safe Ids w'"
    by (rule run_nonces [OF assms(1-4)])
  have i: "assignment w' i = Some (rid, Some n)"
    using assms(6-8) by (simp add: assignment_def)
  show ?thesis
  proof (intro conjI allI impI)
    show "n < counter_at w' (rid, a)"
      using nonces_safeD(1) [OF safe assms(5) i] .
  next
    fix j t' assume "tx_lookup (w_repo w') j = Some t' \<and> relayer_id t' = rid \<and> tx_nonce t' = Some n"
    then have "assignment w' j = Some (rid, Some n)"
      by (simp add: assignment_def)
    then show "j = i"
      using nonces_safeD(2) [OF safe assms(5)] i by blast
  qed
qed

text \<open>
  C5: Only signed transactions are broadcast. Along every run each broadcast is made for a
  sent or submitted transaction as it is stored at that moment, and its bytes are the ones
  stored with the transaction or the ones the signer returned for its data with a price that
  passed the minimum bump.
\<close>

theorem broadcasts_are_signed:
  assumes "evm_run H E Ids w w'"
  shows "\<exists>B. w_broadcasts w' = w_broadcasts w @ B \<and> (\<forall>raw \<in> set B. \<exists>w1 tx r. evm_run H E Ids w w1 \<and> current w1 tx
    \<and> (stored_raw tx raw \<or> resigned_raw E r tx raw))"
  using assms
proof (induction rule: rtranclp_induct)
  case (step w1 w2)
  then obtain B where B: "w_broadcasts w1 = w_broadcasts w @ B" "\<forall>raw \<in> set B. \<exists>w1 tx r. evm_run H E Ids w w1 \<and> current w1 tx
    \<and> (stored_raw tx raw \<or> resigned_raw E r tx raw)"
    by blast
  from step_log [OF step.hyps(2)] show ?case
  proof (elim disjE exE conjE)
    assume "w_broadcasts w2 = w_broadcasts w1"
    then show ?case using B by auto
  next
    fix raw tx r assume "w_broadcasts w2 = w_broadcasts w1 @ [raw]" "current w1 tx" "stored_raw tx raw"
    then show ?case using B step.hyps(1) by (intro exI [of _ "B @ [raw]"]) auto
  next
    fix raw tx r assume "w_broadcasts w2 = w_broadcasts w1 @ [raw]" "current w1 tx" "resigned_raw E r tx raw"
    then show ?case using B step.hyps(1) by (intro exI [of _ "B @ [raw]"]) auto
  qed
qed simp

section \<open>Witnesses\<close>

lemma ex_current: "current (ex_world ex_tx) ex_tx"
  by (simp add: current_def)

lemma ex_run: "evm_run H ex_env Ids (ex_world ex_tx) (snd (submit_transaction ex_env ex_relayer ex_tx (ex_world ex_tx)))"
  by (rule r_into_rtranclp, rule step_submit, rule ex_current)

theorem lifecycle_safe_witness:
  "\<exists>t'. tx_lookup (w_repo (snd (submit_transaction ex_env ex_relayer ex_tx (ex_world ex_tx)))) ''tx-1'' = Some t' \<and> evolves ex_tx t'"
  using lifecycle_safe [OF ex_run ex_world_wf ex_world_sel(6)] by (auto simp: ex_tx_sel)

theorem nonces_never_shared_witness:
  "\<exists>t. tx_lookup (w_repo (snd (submit_transaction ex_env ex_relayer ex_tx (ex_world ex_tx)))) ''tx-1'' = Some t
     \<and> tx_nonce t = Some 7
     \<and> 7 < counter_at (snd (submit_transaction ex_env ex_relayer ex_tx (ex_world ex_tx))) (''relayer'', ''0xaa'')"
proof -
  let ?w = "snd (submit_transaction ex_env ex_relayer ex_tx (ex_world ex_tx))"
  have n: "tx_nonce ex_tx = Some 7"
    by (simp add: tx_nonce_def ex_tx_sel)
  have safe: "nonces_safe {(''relayer'', ''0xaa'')} (ex_world ex_tx)"
    by (auto simp: nonces_safe_def assignment_def counter_at_def n ex_tx_sel split: if_splits)
  obtain t where t: "tx_lookup (w_repo ?w) ''tx-1'' = Some t" "moves ex_tx t" "tx_nonce t = Some 7"
    using steps_touch(1) [OF ex_current, of ex_env ex_relayer] n by (auto simp: touched_def ex_tx_sel)
  have "relayer_id t = ''relayer''"
    using t(2) by (simp add: moves_def evolves_def ex_tx_sel)
  then show ?thesis
    using nonces_never_shared [OF ex_run ex_world_wf _ safe _ t(1) _ t(3), of "''relayer''" "''0xaa''"] t by auto
qed

theorem broadcasts_are_signed_witness:
  "list_all (\<lambda>raw. \<exists>w1 tx r. evm_run True ex_env {} (ex_world ex_tx) w1 \<and> current w1 tx
       \<and> (stored_raw tx raw \<or> resigned_raw ex_env r tx raw))
     (w_broadcasts (snd (submit_transaction ex_env ex_relayer ex_tx (ex_world ex_tx))))"
  using broadcasts_are_signed [OF ex_run, of True "{}"] by (auto simp: list_all_iff)

end
