(* ===== verification/Job_Refinement.thy ===== *)
theory Job_Refinement
  imports Evm_Lifecycle
begin

text \<open>
  The workers and the controllers run the transition system of \<open>Evm_Lifecycle\<close>: with EVM
  relayers only, each call moves the shared state along a run of the system. The lookups
  before an operation only move the clock, so that the operation starts on the transaction
  as it is stored.
\<close>

section \<open>Lookups\<close>

definition ticked :: "app \<Rightarrow> app \<Rightarrow> bool" where
  "ticked s0 s \<longleftrightarrow> app_relayers s = app_relayers s0 \<and> (\<exists>k. app_world s = (app_world s0)\<lparr> w_tick := k \<rparr>)"

lemma same_tick: "w\<lparr> w_tick := w_tick w \<rparr> = w"
  by (cases w) simp

lemma ticked_refl [simp]: "ticked s s"
  unfolding ticked_def by (intro conjI refl exI [of _ "w_tick (app_world s)"]) (simp only: same_tick)

lemma ticked_call: "preserves (ticked s0) (inW (callM f)) (\<lambda>_. True)"
  by (auto simp: preserves_def valid_def inW_def callM_def ticked_def split: sum.splits)

lemma ticked_ask: "preserves (ticked s0) (inW (askM f)) (\<lambda>_. True)"
  by (auto simp: preserves_def valid_def inW_def askM_def ticked_def split: sum.splits)

lemma ticked_relayer: "preserves (ticked s0) (relayersM E (relayer_get_by_id i)) (\<lambda>r. map_of (app_relayers s0) i = Some r)"
  by (auto simp: preserves_def valid_def relayersM_def relayer_get_by_id_def ticked_def Let_def split: option.splits)

lemma ticked_repo:
  assumes "\<And>R. snd (m R) = R"
  shows "preserves (ticked s0) (inW (repoM E m)) (\<lambda>x. fst (m (w_repo (app_world s0))) = Inr x)"
proof -
  have "fst (inW (repoM E m) s) = Inr x \<Longrightarrow> ticked s0 s \<Longrightarrow> fst (m (w_repo (app_world s0))) = Inr x" for s x
    by (auto simp: inW_def repoM_def ticked_def case_prod_unfold split: option.splits)
  moreover have "ticked s0 (snd (inW (repoM E m) s))" if "ticked s0 s" for s
    using that by (auto simp: inW_def repoM_def ticked_def case_prod_unfold assms split: option.splits)
  ultimately show ?thesis
    unfolding preserves_def by (intro validI) (metis fst_conv snd_conv)+
qed

definition wticked :: "world \<Rightarrow> world \<Rightarrow> bool" where
  "wticked w0 w \<longleftrightarrow> (\<exists>k. w = w0\<lparr> w_tick := k \<rparr>)"

lemma ticked_inW: "preserves (wticked (app_world s0)) m V \<Longrightarrow> preserves (ticked s0) (inW m) V"
  unfolding preserves_def valid_def inW_def ticked_def wticked_def
  by (fastforce split: prod.splits sum.splits)

lemma wticked_call: "preserves (wticked w0) (callM f) (\<lambda>_. True)"
  by (auto simp: preserves_def valid_def callM_def wticked_def split: sum.splits)

lemma wticked_ask: "preserves (wticked w0) (askM f) (\<lambda>_. True)"
  by (auto simp: preserves_def valid_def askM_def wticked_def)

lemma ticked_get_tx:
  "preserves (ticked s0) (get_transaction_by_id S i) (\<lambda>tx. tx_lookup (w_repo (app_world s0)) i = Some tx)"
  unfolding get_transaction_by_id_def
  by (rule pres_map_err, rule pres_conseq [OF ticked_repo]) (auto simp: get_by_id_def split: option.splits)

lemma ticked_get_relayer:
  "preserves (ticked s0) (get_relayer_by_id S i) (\<lambda>r. map_of (app_relayers s0) i = Some r)"
  unfolding get_relayer_by_id_def by (rule pres_map_err, rule ticked_relayer)

lemma wticked_create_transaction:
  assumes "r_network_type r = NtEvm"
  shows "preserves (wticked w0) (create_transaction S r) (\<lambda>nt. nt = evm_transaction (sv_env S) r)"
  unfolding create_transaction_def assms network_type.case
  by (rule pres wticked_call refl | split sum.split option.split, intro conjI allI impI)+

lemma wticked_create_relayer:
  assumes "r_network_type r = NtEvm"
  shows "preserves (wticked w0) (create_relayer S r) (\<lambda>nr. \<exists>net. nr = evm_relayer S net r)"
  unfolding create_relayer_def assms network_type.case
  by (rule pres wticked_call exI refl | split sum.split option.split, intro conjI allI impI)+

lemma ticked_service_by_model:
  assumes "r_network_type r = NtEvm"
  shows "preserves (ticked s0) (get_relayer_transaction_by_model S r) (\<lambda>nt. nt = evm_transaction (sv_env S) r)"
  unfolding get_relayer_transaction_by_model_def
  by (rule pres ticked_inW wticked_call wticked_create_transaction assms)+

lemma ticked_relayer_by_model:
  assumes "r_network_type r = NtEvm"
  shows "preserves (ticked s0) (get_network_relayer_by_model S r) (\<lambda>nr. \<exists>net. nr = evm_relayer S net r)"
  unfolding get_network_relayer_by_model_def
  by (rule pres ticked_inW wticked_call wticked_create_relayer assms)+

text \<open>Every stored relayer is an EVM relayer, stored under its id.\<close>

definition evm_only :: "relayer_store \<Rightarrow> bool" where
  "evm_only R \<longleftrightarrow> relayer_store_wf R \<and> (\<forall>i r. map_of R i = Some r \<longrightarrow> r_network_type r = NtEvm)"

lemma ticked_service:
  assumes "evm_only (app_relayers s0)"
  shows "preserves (ticked s0) (get_relayer_transaction S i)
    (\<lambda>nt. \<exists>r. map_of (app_relayers s0) i = Some r \<and> nt = evm_transaction (sv_env S) r)"
  unfolding get_relayer_transaction_def
  by (rule pres_bind [OF ticked_get_relayer], rule pres_conseq [OF ticked_service_by_model])
    (use assms in \<open>auto simp: evm_only_def\<close>)

lemma ticked_network_relayer:
  assumes "evm_only (app_relayers s0)"
  shows "preserves (ticked s0) (get_network_relayer S i)
    (\<lambda>nr. \<exists>net r. map_of (app_relayers s0) i = Some r \<and> nr = evm_relayer S net r)"
  unfolding get_network_relayer_def
  by (rule pres_bind [OF ticked_get_relayer], rule pres_conseq [OF ticked_relayer_by_model])
    (use assms in \<open>auto simp: evm_only_def\<close>)

section \<open>Runs of the system\<close>

definition relayer_ids :: "relayer_store \<Rightarrow> (string \<times> string) set" where
  "relayer_ids R = {(r_id r, r_address r) | r. r \<in> ran (map_of R)}"

definition running :: "bool \<Rightarrow> services \<Rightarrow> app \<Rightarrow> app \<Rightarrow> bool" where
  "running H S s0 s \<longleftrightarrow> evm_run H (sv_env S) (relayer_ids (app_relayers s0)) (app_world s0) (app_world s)"

definition tracking :: "bool \<Rightarrow> services \<Rightarrow> app \<Rightarrow> app \<Rightarrow> bool" where
  "tracking H S s0 s \<longleftrightarrow> app_relayers s = app_relayers s0 \<and> running H S s0 s"

lemma tracking_refl [simp]: "tracking H S s s" "running H S s s"
  by (simp_all add: tracking_def running_def)

lemma run_tick: "evm_run H E Ids w (w\<lparr> w_tick := k \<rparr>)"
  by (rule r_into_rtranclp, rule step_tick)

lemma ticked_tracking: "ticked s0 s \<Longrightarrow> tracking H S s0 s"
  by (auto simp: ticked_def tracking_def running_def intro: run_tick)

lemma tracking_trans: "tracking H S s0 s \<Longrightarrow> tracking H S s s' \<Longrightarrow> tracking H S s0 s'"
  by (auto simp: tracking_def running_def)

lemma tracking_lookup:
  assumes "\<And>s. app_relayers s = app_relayers s0 \<Longrightarrow> preserves (ticked s) m V"
  shows "preserves (tracking H S s0) m V"
  unfolding preserves_def
proof (rule validI)
  fix s x s' assume t: "tracking H S s0 s" and run: "m s = (Inr x, s')"
  have p: "preserves (ticked s) m V"
    using t by (intro assms) (simp add: tracking_def)
  show "tracking H S s0 s' \<and> V x"
    using pres_Inr [OF p ticked_refl run] t by (blast intro: tracking_trans ticked_tracking)
next
  fix s e s' assume t: "tracking H S s0 s" and run: "m s = (Inl e, s')"
  have p: "preserves (ticked s) m V"
    using t by (intro assms) (simp add: tracking_def)
  show "tracking H S s0 s'"
    using pres_snd [OF p ticked_refl] run t by (metis snd_conv tracking_trans ticked_tracking)
qed

lemma tracking_inW:
  assumes "\<And>w. evm_run H (sv_env S) (relayer_ids (app_relayers s0)) w (snd (m w))"
  shows "preserves (tracking H S s0) (inW m) (\<lambda>_. True)"
proof -
  have "tracking H S s0 (snd (inW m s))" if "tracking H S s0 s" for s
    using that assms [of "app_world s"]
    by (auto simp: tracking_def running_def inW_def case_prod_unfold)
  then show ?thesis
    unfolding preserves_def by (intro validI) (metis snd_conv)+
qed

lemma run_repo:
  assumes "\<And>w. evm_step H E Ids w (w\<lparr> w_repo := snd (m (w_repo w)) \<rparr>)"
  shows "evm_run H E Ids w (snd (repoM E m w))"
proof -
  have "evm_run H E Ids w (w\<lparr> w_repo := snd (m (w_repo w)), w_tick := k \<rparr>)" for k
    using r_into_rtranclp [of "evm_step H E Ids", OF assms] run_tick by (rule rtranclp_trans)
  then show ?thesis
    by (auto simp: repoM_def case_prod_unfold run_tick split: option.splits)
qed

lemma tracking_counts:
  "preserves (tracking H S s0) (inW (repoM (sv_env S) (increment_status_check_failures i))) (\<lambda>_. True)"
  "preserves (tracking H S s0) (inW (repoM (sv_env S) (reset_status_check_consecutive_failures i))) (\<lambda>_. True)"
  by (rule tracking_inW, rule run_repo, rule step_count_failure step_reset_failures)+

text \<open>
  A computation in two phases: the first keeps \<open>P\<close> and gives facts about what it found, the
  second ends in \<open>Q\<close>, which \<open>P\<close> implies.
\<close>

definition ends :: "('s \<Rightarrow> bool) \<Rightarrow> ('s \<Rightarrow> bool) \<Rightarrow> ('s, 'e, 'a) eff \<Rightarrow> bool" where
  "ends P Q m \<longleftrightarrow> valid P m (\<lambda>_. Q) (\<lambda>_. Q)"

locale phases =
  fixes P Q :: "'s \<Rightarrow> bool"
  assumes weaken: "P s \<Longrightarrow> Q s"
begin

lemma ends_first: "preserves P m V \<Longrightarrow> ends P Q m"
  unfolding ends_def preserves_def by (erule valid_conseq) (auto intro: weaken)

lemma ends_bind:
  assumes "preserves P m U" "\<And>x. U x \<Longrightarrow> ends P Q (f x)"
  shows "ends P Q (bindM m f)"
  unfolding ends_def
proof (rule valid_bind)
  show "valid P m (\<lambda>x s. P s \<and> U x) (\<lambda>_. Q)"
    using assms(1) unfolding preserves_def by (rule valid_conseq) (auto intro: weaken)
  show "valid (\<lambda>s. P s \<and> U x) (f x) (\<lambda>_. Q) (\<lambda>_. Q)" for x
    by (rule valid_fact) (use assms(2) [of x] in \<open>simp add: ends_def\<close>)
qed

lemma ends_tail:
  assumes "ends P Q m" "\<And>x. preserves Q (f x) (V x)"
  shows "ends P Q (bindM m f)"
proof -
  have "valid Q (f x) (\<lambda>_. Q) (\<lambda>_. Q)" for x
    using assms(2) [of x] unfolding preserves_def by (rule valid_conseq) auto
  then show ?thesis
    using assms(1) unfolding ends_def by (rule valid_bind [rotated])
qed

lemma ends_then: "ends P Q m \<Longrightarrow> preserves Q n V \<Longrightarrow> ends P Q (thenM m n)"
  unfolding thenM_def by (rule ends_tail)

lemma ends_second: "preserves Q m V \<Longrightarrow> ends P Q m"
  unfolding ends_def preserves_def by (erule valid_conseq) (auto intro: weaken)

lemma ends_map_err: "ends P Q m \<Longrightarrow> ends P Q (map_errM g m)"
  unfolding ends_def by (rule valid_map_err)

lemma ends_attempt: "ends P Q m \<Longrightarrow> ends P Q (attemptM m)"
  unfolding ends_def by (rule valid_attempt)

lemma ends_case_sum:
  "(\<And>e. v = Inl e \<Longrightarrow> ends P Q (g e)) \<Longrightarrow> (\<And>x. v = Inr x \<Longrightarrow> ends P Q (f x)) \<Longrightarrow>
   ends P Q (case v of Inl e \<Rightarrow> g e | Inr x \<Rightarrow> f x)"
  by (cases v) auto

lemma ends_case_option:
  "(v = None \<Longrightarrow> ends P Q m) \<Longrightarrow> (\<And>x. v = Some x \<Longrightarrow> ends P Q (f x)) \<Longrightarrow>
   ends P Q (case v of None \<Rightarrow> m | Some x \<Rightarrow> f x)"
  by (cases v) auto

lemma ends_if: "(b \<Longrightarrow> ends P Q m) \<Longrightarrow> (\<not> b \<Longrightarrow> ends P Q n) \<Longrightarrow> ends P Q (if b then m else n)"
  by simp

lemma ends_worker:
  assumes "ends P Q m"
  shows "ends P Q (bindM (attemptM m) (\<lambda>x. liftR (g x)))"
  by (rule ends_tail [OF ends_attempt [OF assms] pres_lift])

lemma ends_run: "ends P Q m \<Longrightarrow> P s \<Longrightarrow> Q (snd (m s))"
  unfolding ends_def by (rule valid_snd)

end

interpretation looks: phases "ticked s0" "tracking H S s0" for s0 H S
  by unfold_locales (rule ticked_tracking)

interpretation checks: phases "tracking H S s0" "running H S s0" for s0 H S
  by unfold_locales (simp add: tracking_def)

abbreviation follows :: "bool \<Rightarrow> services \<Rightarrow> app \<Rightarrow> (app, 'e, 'a) eff \<Rightarrow> bool" where
  "follows H S s0 \<equiv> ends (ticked s0) (tracking H S s0)"

lemma follows_step:
  assumes "\<And>w. wticked (app_world s0) w \<Longrightarrow> evm_step H (sv_env S) (relayer_ids (app_relayers s0)) w (snd (m w))"
  shows "follows H S s0 (inW m)"
proof -
  have "tracking H S s0 (snd (inW m s))" if "ticked s0 s" for s
    using that assms [of "app_world s"] ticked_tracking [OF that, of H S]
    by (auto simp: ticked_def wticked_def tracking_def running_def inW_def case_prod_unfold
        intro: rtranclp.rtrancl_into_rtrancl)
  then show ?thesis
    unfolding ends_def by (rule valid_sndI)
qed

section \<open>Transaction jobs\<close>

lemma current_ticked: "wticked w0 w \<Longrightarrow> current w tx = current w0 tx" "wticked w0 w \<Longrightarrow> next_counter r w = next_counter r w0"
  by (auto simp: wticked_def current_def next_counter_def)

lemma current_later: "current w0 tx \<Longrightarrow> wticked w0 w \<Longrightarrow> current w tx"
  by (simp add: current_ticked)

lemma lookup_current: "repo_wf (w_repo w) \<Longrightarrow> tx_lookup (w_repo w) i = Some tx \<Longrightarrow> current w tx \<and> tx_id tx = i"
  by (auto simp: current_def repo_wf_def)

lemma stored_relayer:
  assumes "evm_only R" "map_of R i = Some r"
  shows "r_id r = i" "(r_id r, r_address r) \<in> relayer_ids R" "r_network_type r = NtEvm"
proof -
  show "r_id r = i" "r_network_type r = NtEvm"
    using assms by (auto simp: evm_only_def relayer_store_wf_def relayer_entry_ok_def simp del: map_of_eq_Some_iff)
  show "(r_id r, r_address r) \<in> relayer_ids R"
    using ranI [of "map_of R", OF assms(2)] unfolding relayer_ids_def by blast
qed

lemma follows_transaction_request:
  assumes "evm_only (app_relayers s0)" "repo_wf (w_repo (app_world s0))"
    and "\<And>tx. tx_lookup (w_repo (app_world s0)) (trq_transaction_id job) = Some tx \<Longrightarrow> relayer_id tx = trq_relayer_id job"
    and "\<And>i r. map_of (app_relayers s0) i = Some r \<Longrightarrow> next_counter r (app_world s0) \<noteq> - 1"
  shows "follows H S s0 (handle_transaction_request S job)"
  unfolding handle_transaction_request_def
proof (rule looks.ends_bind [OF pres_map_err [OF ticked_service [OF assms(1)]]],
    rule looks.ends_bind [OF pres_map_err [OF ticked_get_tx]], elim exE conjE)
  fix nt tx r
  assume r: "map_of (app_relayers s0) (trq_relayer_id job) = Some r" and nt: "nt = evm_transaction (sv_env S) r"
    and tx: "tx_lookup (w_repo (app_world s0)) (trq_transaction_id job) = Some tx"
  have "evm_step H (sv_env S) (relayer_ids (app_relayers s0)) w (snd (prepare_transaction (sv_env S) r tx w))"
    if "wticked (app_world s0) w" for w
    using lookup_current [OF assms(2) tx] stored_relayer [OF assms(1) r] assms(3) [OF tx] assms(4) [OF r] that
    by (intro step_prepare) (simp_all add: current_ticked)
  then show "follows H S s0 (bindM (map_errM ReportTx (inW (nt_prepare nt tx))) (\<lambda>prepared. returnM ()))"
    unfolding nt evm_transaction_def network_transaction.simps
    by (intro looks.ends_tail looks.ends_map_err follows_step pres_return) auto
qed

lemma step_command:
  assumes "current w tx"
  shows "evm_step H E Ids w (snd (run_command (evm_transaction E r) c tx w))"
  using assms by (cases c) (auto simp: run_command_def evm_transaction_def intro: evm_step.intros)

lemma follows_transaction_send:
  assumes "evm_only (app_relayers s0)" "repo_wf (w_repo (app_world s0))"
  shows "follows H S s0 (handle_transaction_send S job)"
  unfolding handle_transaction_send_def
proof (rule looks.ends_bind [OF pres_map_err [OF ticked_service [OF assms(1)]]],
    rule looks.ends_bind [OF pres_map_err [OF ticked_get_tx]], elim exE conjE)
  fix nt tx r
  assume nt: "nt = evm_transaction (sv_env S) r"
    and tx: "tx_lookup (w_repo (app_world s0)) (ts_transaction_id job) = Some tx"
  show "follows H S s0 (thenM (map_errM ReportTx (inW (run_command nt (ts_command job) tx))) (returnM ()))"
    unfolding nt using lookup_current [OF assms(2) tx]
    by (intro looks.ends_then looks.ends_map_err follows_step pres_return step_command) (auto simp: current_ticked)
qed

section \<open>Status checks\<close>

lemma snd_map_err: "snd (map_errM g m w) = snd (m w)"
  by (simp add: map_errM_def split: prod.splits sum.splits)

lemma follows_return: "follows H S s0 (returnM x)"
  by (rule looks.ends_first, rule pres_return [of "\<lambda>_. True"]) simp

lemma follows_status:
  assumes "current (app_world s0) tx" "\<exists>r. nt = evm_transaction (sv_env S) r"
  shows "follows H S s0 (inW (map_errM ReportTx (nt_handle_status nt tx ctx)))"
proof (rule follows_step)
  fix w assume "wticked (app_world s0) w"
  from current_later [OF assms(1) this] show "evm_step H (sv_env S) (relayer_ids (app_relayers s0)) w
      (snd (map_errM ReportTx (nt_handle_status nt tx ctx) w))"
    using assms(2) by (auto simp: snd_map_err evm_transaction_def step_status)
qed

lemma follows_status_request:
  assumes "evm_only (app_relayers s0)" "repo_wf (w_repo (app_world s0))"
  shows "follows H S s0 (handle_status_request S job attempt)"
  unfolding handle_status_request_def Let_def
  apply (rule looks.ends_bind [OF pres_attempt [OF ticked_get_tx]], rule looks.ends_case_sum)
  subgoal for found e
    by (split api_error.split, intro conjI allI impI follows_return)
  subgoal premises tx for found tx
    apply (rule looks.ends_bind [OF pres_attempt [OF ticked_service [OF assms(1)]]], rule looks.ends_case_sum)
    subgoal for service e
      by (split api_error.split, intro conjI allI impI follows_return)
    subgoal premises nt for service nt
    proof (rule looks.ends_tail [OF looks.ends_attempt [OF follows_status] pres_return])
      show "current (app_world s0) tx"
        using lookup_current [OF assms(2)] tx by simp
      show "\<exists>r. nt = evm_transaction (sv_env S) r"
        using nt by blast
    qed (rule TrueI)
    done
  done

lemma tracking_status_result: "preserves (tracking H S s0) (handle_status_result S i outcome) (\<lambda>_. True)"
  unfolding handle_status_result_def Let_def
  by (rule pres tracking_counts TrueI | split sum.split, intro conjI allI impI)+

lemma follows_status_handler:
  assumes "evm_only (app_relayers s0)" "repo_wf (w_repo (app_world s0))"
  shows "follows H S s0 (transaction_status_handler S job attempt)"
  unfolding transaction_status_handler_def
  by (rule looks.ends_tail [OF follows_status_request [OF assms] tracking_status_result])

section \<open>Health checks\<close>

lemma running_relayers: "preserves (running H S s0) (relayersM (sv_env S) m) (\<lambda>_. True)"
proof -
  have "running H S s0 (snd (relayersM (sv_env S) m s))" if "running H S s0 s" for s
    using that run_tick rtranclp_trans unfolding running_def relayersM_def Let_def
    by (fastforce simp: case_prod_unfold split: option.splits)
  then show ?thesis
    unfolding preserves_def by (intro validI) (metis snd_conv)+
qed

lemma running_inW:
  assumes "\<And>w. evm_run H (sv_env S) (relayer_ids (app_relayers s0)) w (snd (m w))"
  shows "preserves (running H S s0) (inW m) (\<lambda>_. True)"
proof -
  have "running H S s0 (snd (inW m s))" if "running H S s0 s" for s
    using that assms [of "app_world s"] by (auto simp: running_def inW_def case_prod_unfold)
  then show ?thesis
    unfolding preserves_def by (intro validI) (metis snd_conv)+
qed

lemma run_produce: "evm_run H E Ids w (snd (produceM E j w))"
proof -
  have "evm_run H E Ids w (w\<lparr> w_jobs := w_jobs w @ [j], w_tick := k \<rparr>)" for k
    using r_into_rtranclp [of "evm_step H E Ids", OF step_produce] run_tick by (rule rtranclp_trans)
  then show ?thesis
    by (auto simp: produceM_def run_tick split: option.splits)
qed

lemma running_produce: "preserves (running H S s0) (inW (produceM (sv_env S) j)) (\<lambda>_. True)"
  by (rule running_inW, rule run_produce)

lemma running_ask: "preserves (running H S s0) (inW (askM f)) (\<lambda>_. True)"
  by (rule running_inW) (simp add: askM_def run_tick)

lemma tracking_network_relayer:
  assumes "evm_only (app_relayers s0)"
  shows "preserves (tracking H S s0) (get_network_relayer S i) (\<lambda>nr. \<exists>net r. nr = evm_relayer S net r)"
  by (rule tracking_lookup, rule pres_conseq [OF ticked_network_relayer]) (use assms in auto)

lemma tracking_relayer: "preserves (tracking H S s0) (relayersM E (relayer_get_by_id i)) (\<lambda>_. True)"
  by (rule tracking_lookup, rule pres_conseq [OF ticked_relayer]) simp

lemma tracking_health:
  assumes "\<exists>net r. nr = evm_relayer S net r"
  shows "preserves (tracking H S s0) (inW (nr_check_health nr)) (\<lambda>_. True)"
    "preserves (tracking True S s0) (inW (nr_handle_health_action nr m)) (\<lambda>_. True)"
  using assms by (auto simp: evm_relayer_def intro!: tracking_inW r_into_rtranclp step_check_health step_health_action)

lemma recheck_runs:
  assumes "evm_only (app_relayers s0)"
  shows "ends (tracking H S s0) (running H S s0) (recheck_health S data)"
  unfolding recheck_health_def Let_def
  apply (rule checks.ends_bind [OF pres_map_err [OF tracking_relayer]], rule checks.ends_if)
   apply (rule checks.ends_first, rule pres_return, rule TrueI)
  apply (rule checks.ends_bind [OF pres_map_err [OF tracking_network_relayer [OF assms]]])
  apply (rule checks.ends_bind [OF pres_attempt [OF tracking_health(1)]], assumption)
  apply (rule checks.ends_second)
  by (rule pres running_relayers running_produce running_ask TrueI | split sum.split option.split, intro conjI allI impI)+

lemma health_job_runs:
  assumes "evm_only (app_relayers s0)"
  shows "ends (tracking True S s0) (running True S s0) (check_and_reenable_relayer S data)"
  unfolding check_and_reenable_relayer_def
proof (rule checks.ends_case_option)
  show "ends (tracking True S s0) (running True S s0) (recheck_health S data)"
    by (rule recheck_runs [OF assms])
next
  fix m
  show "ends (tracking True S s0) (running True S s0)
     (bindM (map_errM (\<lambda>e. ReportText (''Failed to get relayer for targeted action: '' @ show_api_error e))
                (get_network_relayer S (rhc_relayer_id data))) (\<lambda>relayer_service.
       bindM (map_errM (\<lambda>e. ReportText (''Targeted health action failed: '' @ show_relayer_error e))
                (inW (nr_handle_health_action relayer_service m))) (\<lambda>handled.
         if handled then returnM () else recheck_health S data)))"
    by (rule checks.ends_bind [OF pres_map_err [OF tracking_network_relayer [OF assms]]],
        rule checks.ends_bind [OF pres_map_err [OF tracking_health(2)]], assumption, rule checks.ends_if,
        rule checks.ends_first, rule pres_return, rule TrueI, rule recheck_runs [OF assms])
qed

section \<open>Controllers\<close>

lemma ticked_active:
  "preserves (ticked s0) (active_relayer S i) (\<lambda>r. map_of (app_relayers s0) i = Some r \<and> validate_active_state r = Inr ())"
  unfolding active_relayer_def thenM_def
  by (rule pres_bind [OF ticked_get_relayer], rule pres_bind [OF pres_map_err [OF pres_lift]], rule pres_return) simp

lemma wticked_valid_until: "preserves (wticked w0) (validate_valid_until E q) (\<lambda>_. True)"
  unfolding validate_valid_until_def
  by (rule pres wticked_ask TrueI | split option.split, intro conjI allI impI)+

lemma wticked_validate_evm_tx: "preserves (wticked w0) (validate_evm_transaction_request E q r) (\<lambda>_. True)"
  unfolding validate_evm_transaction_request_def Let_def
  by (rule pres wticked_valid_until | split option.split, intro conjI allI impI)+

lemma wticked_validate_evm: "preserves (wticked w0) (validate_evm_request E q r) (\<lambda>_. True)"
  unfolding validate_evm_request_def
  by (rule pres_then [OF pres_lift], rule pres_then [OF wticked_validate_evm_tx], rule pres_conseq [OF pres_lift]) simp

lemma from_json_evm: "from_json A NtEvm json = Inr req \<Longrightarrow> \<exists>q. req = RequestEvm q"
  by (auto simp: from_json_def split: sum.splits)

lemma ticked_validate: "\<exists>q. req = RequestEvm q \<Longrightarrow> preserves (ticked s0) (validate_request A req r) (\<lambda>_. True)"
  by (auto simp: validate_request_def intro!: ticked_inW [OF wticked_validate_evm])

lemma tracking_accept:
  assumes "\<exists>net r. nr = evm_relayer S net r" "\<exists>q. req = RequestEvm q"
  shows "preserves (tracking H S s0) (inW (nr_process_with_id nr req i)) (\<lambda>_. True)"
    "preserves (tracking H S s0) (inW (create_idempotent (sv_env S) T rid key fp ttl (nr_process_with_id nr req))) (\<lambda>_. True)"
  using assms by (auto simp: evm_relayer_def intro!: tracking_inW r_into_rtranclp step_accept step_accept_once)

lemma tracking_active:
  assumes "evm_only (app_relayers s0)"
  shows "preserves (tracking H S s0) (active_relayer S i) (\<lambda>r. r_network_type r = NtEvm)"
  by (rule tracking_lookup, rule pres_conseq [OF ticked_active]) (use assms stored_relayer in auto)

lemma tracking_send:
  assumes "evm_only (app_relayers s0)"
  shows "preserves (tracking H (ae_services A) s0) (send_transaction A rid request key) (\<lambda>_. True)"
proof -
  have "preserves (tracking H (ae_services A) s0) (inW (askM f)) (\<lambda>_. True)" for f :: "nat \<Rightarrow> string"
    by (rule tracking_lookup, rule ticked_ask)
  note ask = this
  show ?thesis
    unfolding send_transaction_def
  proof (rule pres_bind [OF tracking_active [OF assms]], rule pres_bind [OF tracking_network_relayer [OF assms]], rule pres_bind [OF pres_lift])
    fix r :: relayer_repo_model and nr req
    assume "r_network_type r = NtEvm" "from_json A (r_network_type r) request = Inr req"
      and nr: "\<exists>net r. nr = evm_relayer (ae_services A) net r"
    then have req: "\<exists>q. req = RequestEvm q"
      by (simp add: from_json_evm)
    show "preserves (tracking H (ae_services A) s0) (thenM (validate_request A req r)
       (case key of
          None \<Rightarrow> bindM (inW (askM (e_uuid (ae_env A)))) (\<lambda>i.
              map_errM api_error_of_relayer_error (inW (nr_process_with_id nr req i)))
        | Some raw_key \<Rightarrow>
            bindM (liftR (normalize_idempotency_key raw_key)) (\<lambda>key.
            bindM (liftR (ae_fingerprint A request)) (\<lambda>fp.
              inW (create_idempotent (ae_env A) (ae_request_timeout_seconds A) (r_id r) key fp
                     (ae_idempotency_key_ttl_seconds A) (nr_process_with_id nr req)))))) (\<lambda>_. True)"
      by (rule pres_then [OF tracking_lookup [OF ticked_validate [OF req]]], rule pres_case_option)
        (rule pres ask tracking_accept [OF nr req])+
  qed
qed

lemma follows_cancel:
  assumes "evm_only (app_relayers s0)" "repo_wf (w_repo (app_world s0))"
  shows "follows H (ae_services A) s0 (api_cancel_transaction A rid i)"
  unfolding api_cancel_transaction_def
proof (rule looks.ends_bind [OF ticked_active], elim conjE)
  fix r assume "map_of (app_relayers s0) rid = Some r"
  note evm = stored_relayer(3) [OF assms(1) this]
  show "follows H (ae_services A) s0
     (bindM (get_relayer_transaction_by_model (ae_services A) r) (\<lambda>relayer_transaction.
      bindM (get_transaction_by_id (ae_services A) i) (\<lambda>transaction_to_cancel.
        map_errM api_error_of_transaction_error (inW (nt_cancel relayer_transaction transaction_to_cancel)))))"
    by (rule looks.ends_bind [OF ticked_service_by_model [OF evm]], rule looks.ends_bind [OF ticked_get_tx],
        rule looks.ends_map_err, rule follows_step)
      (auto simp: evm_transaction_def dest!: lookup_current [OF assms(2)] intro!: step_cancel elim: current_later)
qed

lemma follows_replace:
  assumes "evm_only (app_relayers s0)" "repo_wf (w_repo (app_world s0))"
  shows "follows H (ae_services A) s0 (api_replace_transaction A rid i request)"
  unfolding api_replace_transaction_def thenM_def
proof (rule looks.ends_bind [OF ticked_active], rule looks.ends_bind [OF pres_lift], elim conjE)
  fix r req assume r: "map_of (app_relayers s0) rid = Some r" "from_json A (r_network_type r) request = Inr req"
  note evm = stored_relayer(3) [OF assms(1) r(1)]
  then have req: "\<exists>q. req = RequestEvm q"
    using r(2) by (simp add: from_json_evm)
  show "follows H (ae_services A) s0 (bindM (validate_request A req r) (\<lambda>_.
     bindM (get_transaction_by_id (ae_services A) i) (\<lambda>transaction_to_replace.
      bindM (get_relayer_transaction_by_model (ae_services A) r) (\<lambda>relayer_transaction.
        map_errM api_error_of_transaction_error
          (inW (nt_replace relayer_transaction transaction_to_replace req))))))"
    by (rule looks.ends_bind [OF ticked_validate [OF req]], rule looks.ends_bind [OF ticked_get_tx],
        rule looks.ends_bind [OF ticked_service_by_model [OF evm]], rule looks.ends_map_err, rule follows_step)
      (auto simp: evm_transaction_def dest!: lookup_current [OF assms(2)] intro!: step_replace elim: current_later)
qed

lemma tracking_delete_pending:
  assumes "evm_only (app_relayers s0)"
  shows "preserves (tracking H (ae_services A) s0) (api_delete_pending_transactions A rid) (\<lambda>_. True)"
  unfolding api_delete_pending_transactions_def
proof (rule pres_bind [OF tracking_active [OF assms]])
  fix r :: relayer_repo_model assume evm: "r_network_type r = NtEvm"
  show "preserves (tracking H (ae_services A) s0) (bindM (get_network_relayer_by_model (ae_services A) r)
      (\<lambda>relayer. map_errM api_error_of_relayer_error (inW (nr_delete_pending relayer)))) (\<lambda>_. True)"
    by (rule pres_bind [OF tracking_lookup [OF ticked_relayer_by_model [OF evm]]], rule pres_map_err)
      (auto simp: evm_relayer_def intro!: tracking_inW r_into_rtranclp step_delete_pending)
qed

lemma tracking_get_relayer: "preserves (tracking H S s0) (get_relayer_by_id S' i) (\<lambda>_. True)"
  by (rule tracking_lookup, rule pres_conseq [OF ticked_get_relayer]) simp

lemma tracking_count: "preserves (tracking H S s0) (inW (repoM E (count_by_status order rid sts))) (\<lambda>_. True)"
  by (rule tracking_lookup, rule pres_conseq [OF ticked_repo]) (simp_all add: count_by_status_def)

lemma delete_relayer_runs: "ends (tracking H (ae_services A) s0) (running H (ae_services A) s0) (delete_relayer A rid)"
  unfolding delete_relayer_def
  by (rule checks.ends_bind [OF tracking_get_relayer], rule checks.ends_bind [OF pres_map_err [OF tracking_count]],
      rule checks.ends_second) (rule pres running_relayers)+

section \<open>Properties\<close>

text \<open>
  C3: The workers refine the transition system. With EVM relayers stored under their ids and
  their counters below the end of the 64 bit range, every run of a request worker (on a job
  that names the relayer of its transaction), of a submission worker and of a status worker
  is a run of the system without health actions, and every run of a health check worker is a
  run of the system. No answer of the node, the storage, the queue or the signer is assumed.
\<close>

theorem workers_refine_system:
  assumes "evm_only (app_relayers s)" and "repo_wf (w_repo (app_world s))"
    and "\<forall>tx. tx_lookup (w_repo (app_world s)) (trq_transaction_id job) = Some tx \<longrightarrow> relayer_id tx = trq_relayer_id job"
    and "\<forall>i r. map_of (app_relayers s) i = Some r \<longrightarrow> next_counter r (app_world s) \<noteq> - 1"
  shows "running False S s (snd (transaction_request_handler S job attempt s))
    \<and> running False S s (snd (transaction_submission_handler S send attempt s))
    \<and> running False S s (snd (transaction_status_handler S check attempt s))
    \<and> running True S s (snd (relayer_health_check_handler S health attempt s))"
proof -
  have "tracking False S s (snd (transaction_request_handler S job attempt s))"
    unfolding transaction_request_handler_def worker_def
    by (intro looks.ends_run [OF looks.ends_worker] follows_transaction_request) (use assms in auto)
  moreover have "tracking False S s (snd (transaction_submission_handler S send attempt s))"
    unfolding transaction_submission_handler_def worker_def
    by (intro looks.ends_run [OF looks.ends_worker] follows_transaction_send assms ticked_refl)
  moreover have "tracking False S s (snd (transaction_status_handler S check attempt s))"
    by (intro looks.ends_run follows_status_handler assms ticked_refl)
  moreover have "running True S s (snd (relayer_health_check_handler S health attempt s))"
    unfolding relayer_health_check_handler_def worker_def
    by (intro checks.ends_run [OF checks.ends_worker] health_job_runs assms tracking_refl)
  ultimately show ?thesis
    by (simp add: tracking_def)
qed

text \<open>
  C4: The controllers refine the transition system. With EVM relayers stored under their ids,
  sending, cancelling and replacing a transaction, deleting the pending transactions of a
  relayer and deleting a relayer are runs of the system without health actions, whatever the
  request holds and the surroundings answer; all but the last keep the stored relayers.
\<close>

theorem controllers_refine_system:
  assumes "evm_only (app_relayers s)" and "repo_wf (w_repo (app_world s))"
  shows "tracking False (ae_services A) s (snd (send_transaction A rid request key s))
    \<and> tracking False (ae_services A) s (snd (api_cancel_transaction A rid i s))
    \<and> tracking False (ae_services A) s (snd (api_replace_transaction A rid i request s))
    \<and> tracking False (ae_services A) s (snd (api_delete_pending_transactions A rid s))
    \<and> running False (ae_services A) s (snd (delete_relayer A rid s))"
proof (intro conjI)
  show "tracking False (ae_services A) s (snd (send_transaction A rid request key s))"
    by (rule pres_snd [OF tracking_send [OF assms(1)]]) simp
  show "tracking False (ae_services A) s (snd (api_cancel_transaction A rid i s))"
    by (rule looks.ends_run [OF follows_cancel [OF assms]]) simp
  show "tracking False (ae_services A) s (snd (api_replace_transaction A rid i request s))"
    by (rule looks.ends_run [OF follows_replace [OF assms]]) simp
  show "tracking False (ae_services A) s (snd (api_delete_pending_transactions A rid s))"
    by (rule pres_snd [OF tracking_delete_pending [OF assms(1)]]) simp
  show "running False (ae_services A) s (snd (delete_relayer A rid s))"
    by (rule checks.ends_run [OF delete_relayer_runs]) simp
qed

section \<open>Witnesses\<close>

lemma ex_evm_only: "evm_only (app_relayers ex_app)"
  by (simp add: ex_app_def evm_only_def relayer_store_wf_def relayer_entry_ok_def ex_relayer_def)

lemma ex_app_world: "app_world ex_app = ex_world ex_tx"
  by (simp add: ex_app_def)

theorem workers_refine_system_witness:
  "running False ex_services ex_app
     (snd (transaction_request_handler ex_services (request_job ''tx-1'' ''relayer'') 0 ex_app))
   \<and> running True ex_services ex_app (snd (relayer_health_check_handler ex_services (nonce_health ''relayer'') 0 ex_app))"
proof -
  have "\<forall>i r. map_of (app_relayers ex_app) i = Some r \<longrightarrow> next_counter r (app_world ex_app) \<noteq> - 1"
    by (simp add: ex_app_world next_counter_def)
  moreover have "\<forall>tx. tx_lookup (w_repo (app_world ex_app)) (trq_transaction_id (request_job ''tx-1'' ''relayer'')) = Some tx
      \<longrightarrow> relayer_id tx = trq_relayer_id (request_job ''tx-1'' ''relayer'')"
    by (simp add: ex_app_world request_job_def ex_tx_sel)
  ultimately show ?thesis
    using workers_refine_system [OF ex_evm_only, unfolded ex_app_world, OF ex_world_wf,
        of "request_job ''tx-1'' ''relayer''" ex_services 0] by (auto simp: ex_app_world)
qed

theorem controllers_refine_system_witness:
  "tracking False ex_services ex_app (snd (api_cancel_transaction ex_api ''relayer'' ''tx-1'' ex_app))
   \<and> running False ex_services ex_app (snd (delete_relayer ex_api ''relayer'' ex_app))"
proof -
  have "ae_services ex_api = ex_services"
    by (simp add: ex_api_def)
  then show ?thesis
    using controllers_refine_system [OF ex_evm_only, unfolded ex_app_world, OF ex_world_wf, of ex_api] by auto
qed

end
