(* ===== verification/Rpc_Provider.thy ===== *)
theory Rpc_Provider
  imports Relayer_Errors Evm_Config
begin

text \<open>
  Calls to RPC nodes (\<open>services/provider\<close>): the health of the endpoints
  (\<open>rpc_health_store.rs\<close>), their selection (\<open>rpc_selector.rs\<close>) and the retries with
  failover (\<open>retry.rs\<close>). The clock, the random numbers and the answers of the nodes are
  functions of a tick. The sampling of a weighted index and the other random numbers belong to
  the random number library and are parameters, and so is the range of the jitter, a floating point
  product. The state keeps a log of the calls, by URL.
\<close>

section \<open>State and surroundings\<close>

record rpc_config_metadata =
  failure_timestamps :: "int list"
  paused_until :: "int option"

definition default_rpc_metadata :: rpc_config_metadata where
  "default_rpc_metadata = \<lparr> failure_timestamps = [], paused_until = None \<rparr>"

type_synonym rpc_health_store = "string \<Rightarrow> rpc_config_metadata option"

record rpc_state =
  rp_health :: rpc_health_store
  rp_next_index :: u64
  rp_current_index :: nat
  rp_has_current :: bool
  rp_total_attempts :: nat
  rp_calls :: "string list"
  rp_tick :: nat

record rpc_env =
  re_now :: "nat \<Rightarrow> int"
  re_weighted_index :: "u8 list \<Rightarrow> bool"
  re_sample :: "nat \<Rightarrow> u8 list \<Rightarrow> nat"
  re_jitter_range :: "u64 \<Rightarrow> u64"
  re_random_range :: "nat \<Rightarrow> u64 \<Rightarrow> u64"
  re_random_bool :: "nat \<Rightarrow> bool"

type_synonym ('e, 'a) rpc_op = "(rpc_state, 'e, 'a) eff"

definition askR :: "(nat \<Rightarrow> 'a) \<Rightarrow> ('e, 'a) rpc_op" where
  "askR f = (\<lambda>s. (Inr (f (rp_tick s)), s\<lparr> rp_tick := Suc (rp_tick s) \<rparr>))"

section \<open>Endpoint health\<close>

definition get_metadata :: "string \<Rightarrow> ('e, rpc_config_metadata) rpc_op" where
  "get_metadata url = readM (\<lambda>s. case rp_health s url of Some m \<Rightarrow> m | None \<Rightarrow> default_rpc_metadata)"

definition update_metadata :: "string \<Rightarrow> rpc_config_metadata \<Rightarrow> ('e, unit) rpc_op" where
  "update_metadata url m = modifyM (\<lambda>s. s\<lparr> rp_health := (rp_health s)(url \<mapsto> m) \<rparr>)"

definition remove_metadata :: "string \<Rightarrow> ('e, unit) rpc_op" where
  "remove_metadata url = modifyM (\<lambda>s. s\<lparr> rp_health := (rp_health s)(url := None) \<rparr>)"

definition mark_failed :: "rpc_env \<Rightarrow> string \<Rightarrow> u32 \<Rightarrow> int \<Rightarrow> int \<Rightarrow> ('e, unit) rpc_op" where
  "mark_failed E url threshold pause_duration failure_expiration =
     bindM (get_metadata url) (\<lambda>m.
     bindM (askR (re_now E)) (\<lambda>now.
       let stamps = filter (\<lambda>ts. now - ts \<le> failure_expiration) (failure_timestamps m) @ [now];
           max_size = unat (threshold * 2);
           stamps = (if length stamps > max_size then drop (length stamps - max_size) stamps else stamps);
           recent_failures = (of_nat (length stamps) :: u32);
           m = m\<lparr> failure_timestamps := stamps \<rparr>
       in update_metadata url
            (if recent_failures \<ge> threshold then m\<lparr> paused_until := Some (now + pause_duration) \<rparr> else m)))"

definition reset_failures :: "string \<Rightarrow> ('e, unit) rpc_op" where
  "reset_failures url = remove_metadata url"

definition reset_failures_if_exists :: "string \<Rightarrow> ('e, bool) rpc_op" where
  "reset_failures_if_exists url =
     bindM (readM (\<lambda>s. rp_health s url \<noteq> None)) (\<lambda>existed. thenM (remove_metadata url) (returnM existed))"

definition within_pause :: "int \<Rightarrow> rpc_config_metadata \<Rightarrow> bool" where
  "within_pause now m = (case paused_until m of Some t \<Rightarrow> now < t | None \<Rightarrow> False)"

definition is_paused_with_cleanup :: "string \<Rightarrow> u32 \<Rightarrow> int \<Rightarrow> int \<Rightarrow> ('e, bool) rpc_op" where
  "is_paused_with_cleanup url threshold failure_expiration now =
     bindM (readM (\<lambda>s. rp_health s url)) (\<lambda>entry. case entry of
       None \<Rightarrow> returnM False
     | Some m \<Rightarrow>
         (let m = m\<lparr> failure_timestamps := filter (\<lambda>ts. now - ts \<le> failure_expiration) (failure_timestamps m) \<rparr>
          in if (case paused_until m of Some t \<Rightarrow> now \<ge> t | None \<Rightarrow> False)
             then thenM (if failure_timestamps m = [] then remove_metadata url
                         else update_metadata url (m\<lparr> paused_until := None \<rparr>)) (returnM False)
             else if of_nat (length (failure_timestamps m)) \<ge> threshold
             then thenM (update_metadata url m) (returnM (within_pause now m))
             else thenM (if failure_timestamps m = [] \<and> paused_until m = None then remove_metadata url
                         else update_metadata url m) (returnM False)))"

definition is_paused :: "rpc_env \<Rightarrow> string \<Rightarrow> u32 \<Rightarrow> int \<Rightarrow> ('e, bool) rpc_op" where
  "is_paused E url threshold failure_expiration =
     bindM (askR (re_now E)) (\<lambda>now.
     bindM (readM (\<lambda>s. rp_health s url)) (\<lambda>entry. case entry of
       None \<Rightarrow> returnM False
     | Some m \<Rightarrow>
         (if (\<exists>ts \<in> set (failure_timestamps m). now - ts > failure_expiration)
             \<or> (case paused_until m of Some t \<Rightarrow> now \<ge> t | None \<Rightarrow> False)
             \<or> (failure_timestamps m = [] \<and> paused_until m = None)
          then is_paused_with_cleanup url threshold failure_expiration now
          else returnM (of_nat (length (failure_timestamps m)) \<ge> threshold \<and> within_pause now m))))"

section \<open>Selection\<close>

record rpc_selector =
  sel_configs :: "rpc_config list"
  sel_weights_dist :: "u8 list option"
  sel_failure_threshold :: u32
  sel_pause_duration_secs :: u64
  sel_failure_expiration_secs :: u64

definition create_weights_distribution :: "rpc_env \<Rightarrow> rpc_config list \<Rightarrow> nat set \<Rightarrow> u8 list option" where
  "create_weights_distribution E configs excluded =
     (let weights = map (\<lambda>(i, c). if i \<in> excluded then 0 else rpc_weight c) (enumerate 0 configs);
          positive = filter (\<lambda>w. w > 0) weights
      in case positive of
           [] \<Rightarrow> None
         | first_weight # _ \<Rightarrow>
             (if \<forall>w \<in> set positive. w = first_weight then None
              else if re_weighted_index E weights then Some weights else None))"

text \<open>The start of the round robin is drawn by the random number library.\<close>

definition new_selector ::
  "rpc_env \<Rightarrow> rpc_config list \<Rightarrow> u32 \<Rightarrow> u64 \<Rightarrow> u64 \<Rightarrow> rpc_selector_error + rpc_selector" where
  "new_selector E configs threshold pause expiration =
     (if configs = [] then Inl NoProviders
      else Inr \<lparr> sel_configs = configs, sel_weights_dist = create_weights_distribution E configs {},
             sel_failure_threshold = threshold, sel_pause_duration_secs = pause,
             sel_failure_expiration_secs = expiration \<rparr>)"

definition provider_count :: "rpc_selector \<Rightarrow> nat" where
  "provider_count S = length (sel_configs S)"

definition duration_secs :: "u64 \<Rightarrow> int" where
  "duration_secs n = secs (wrap_i64 (uint n))"

definition mark_current_as_failed :: "rpc_env \<Rightarrow> rpc_selector \<Rightarrow> ('e, unit) rpc_op" where
  "mark_current_as_failed E S =
     bindM (readM rp_has_current) (\<lambda>has_current. whenM has_current
       (bindM (readM rp_current_index) (\<lambda>current.
        thenM (mark_failed E (rpc_url (sel_configs S ! current)) (sel_failure_threshold S)
                 (duration_secs (sel_pause_duration_secs S)) (duration_secs (sel_failure_expiration_secs S)))
          (modifyM (\<lambda>s. s\<lparr> rp_has_current := False,
             rp_next_index := (if provider_count S > 1 then rp_next_index s + 1 else rp_next_index s) \<rparr>)))))"

text \<open>Whether an endpoint may be chosen, with the side effects of the pause check.\<close>

definition suitable :: "rpc_env \<Rightarrow> rpc_selector \<Rightarrow> string set \<Rightarrow> bool \<Rightarrow> nat \<Rightarrow> ('e, bool) rpc_op" where
  "suitable E S excluded allow_paused i =
     (let c = sel_configs S ! i
      in if rpc_weight c = 0 then returnM False
         else if rpc_url c \<in> excluded then returnM False
         else if allow_paused then returnM True
         else bindM (is_paused E (rpc_url c) (sel_failure_threshold S)
                       (duration_secs (sel_failure_expiration_secs S))) (\<lambda>paused. returnM (\<not> paused)))"

fun weighted_attempts ::
  "rpc_env \<Rightarrow> rpc_selector \<Rightarrow> u8 list \<Rightarrow> string set \<Rightarrow> bool \<Rightarrow> nat \<Rightarrow> ('e, string option) rpc_op" where
  "weighted_attempts E S dist excluded allow_paused 0 = returnM None"
| "weighted_attempts E S dist excluded allow_paused (Suc n) =
     bindM (askR (\<lambda>t. re_sample E t dist)) (\<lambda>i.
     bindM (suitable E S excluded allow_paused i) (\<lambda>ok.
       if ok then thenM (modifyM (\<lambda>s. s\<lparr> rp_current_index := i, rp_has_current := True \<rparr>))
                    (returnM (Some (rpc_url (sel_configs S ! i))))
       else weighted_attempts E S dist excluded allow_paused n))"

definition try_weighted_selection ::
  "rpc_env \<Rightarrow> rpc_selector \<Rightarrow> string set \<Rightarrow> bool \<Rightarrow> ('e, string option) rpc_op" where
  "try_weighted_selection E S excluded allow_paused = (case sel_weights_dist S of
     None \<Rightarrow> returnM None | Some dist \<Rightarrow> weighted_attempts E S dist excluded allow_paused 10)"

fun round_robin_from ::
  "rpc_env \<Rightarrow> rpc_selector \<Rightarrow> string set \<Rightarrow> bool \<Rightarrow> nat list \<Rightarrow> ('e, string option) rpc_op" where
  "round_robin_from E S excluded allow_paused [] = returnM None"
| "round_robin_from E S excluded allow_paused (i # is) =
     bindM (suitable E S excluded allow_paused i) (\<lambda>ok.
       if ok then thenM (modifyM (\<lambda>s. s\<lparr> rp_next_index := of_nat ((i + 1) mod provider_count S),
                                          rp_current_index := i, rp_has_current := True \<rparr>))
                    (returnM (Some (rpc_url (sel_configs S ! i))))
       else round_robin_from E S excluded allow_paused is)"

definition try_round_robin_selection ::
  "rpc_env \<Rightarrow> rpc_selector \<Rightarrow> string set \<Rightarrow> bool \<Rightarrow> nat \<Rightarrow> ('e, string option) rpc_op" where
  "try_round_robin_selection E S excluded allow_paused start =
     round_robin_from E S excluded allow_paused
       (map (\<lambda>i. (start + i) mod provider_count S) [0..<provider_count S])"

definition select_url_internal ::
  "rpc_env \<Rightarrow> rpc_selector \<Rightarrow> string set \<Rightarrow> (rpc_selector_error, string) rpc_op" where
  "select_url_internal E S excluded = (case sel_configs S of
     [] \<Rightarrow> throwM NoProviders
   | [c] \<Rightarrow>
       (if rpc_weight c = 0 then throwM AllProvidersFailed
        else if rpc_url c \<in> excluded then throwM AllProvidersFailed
        else thenM (modifyM (\<lambda>s. s\<lparr> rp_current_index := 0, rp_has_current := True \<rparr>)) (returnM (rpc_url c)))
   | _ \<Rightarrow>
       bindM (try_weighted_selection E S excluded False) (\<lambda>w. case w of Some url \<Rightarrow> returnM url | None \<Rightarrow>
       bindM (readM (\<lambda>s. unat (rp_next_index s) mod provider_count S)) (\<lambda>start.
       bindM (try_round_robin_selection E S excluded False start) (\<lambda>r. case r of Some url \<Rightarrow> returnM url | None \<Rightarrow>
       bindM (try_weighted_selection E S excluded True) (\<lambda>w. case w of Some url \<Rightarrow> returnM url | None \<Rightarrow>
       bindM (try_round_robin_selection E S excluded True start) (\<lambda>r. case r of Some url \<Rightarrow> returnM url | None \<Rightarrow>
         throwM AllProvidersFailed))))))"

definition get_current_url :: "rpc_env \<Rightarrow> rpc_selector \<Rightarrow> (rpc_selector_error, string) rpc_op" where
  "get_current_url E S = select_url_internal E S {}"

definition get_next_url :: "rpc_env \<Rightarrow> rpc_selector \<Rightarrow> string set \<Rightarrow> (rpc_selector_error, string) rpc_op" where
  "get_next_url E S excluded = select_url_internal E S excluded"

definition get_client ::
  "rpc_env \<Rightarrow> rpc_selector \<Rightarrow> (string \<Rightarrow> string + 'c) \<Rightarrow> string set \<Rightarrow> (rpc_selector_error, 'c) rpc_op" where
  "get_client E S initializer excluded =
     bindM (select_url_internal E S excluded) (\<lambda>url.
       map_errM ClientInitializationError (liftR (initializer url)))"

fun count_available :: "rpc_env \<Rightarrow> rpc_selector \<Rightarrow> rpc_config list \<Rightarrow> ('e, nat) rpc_op" where
  "count_available E S [] = returnM 0"
| "count_available E S (c # cs) =
     bindM (is_paused E (rpc_url c) (sel_failure_threshold S) (duration_secs (sel_failure_expiration_secs S))) (\<lambda>paused.
     bindM (count_available E S cs) (\<lambda>n. returnM (if paused then n else Suc n)))"

definition available_provider_count :: "rpc_env \<Rightarrow> rpc_selector \<Rightarrow> ('e, nat) rpc_op" where
  "available_provider_count E S = count_available E S (sel_configs S)"

section \<open>Retries\<close>

record retry_config =
  rt_max_retries :: u8
  rt_max_failovers :: u8
  rt_base_delay_ms :: u64
  rt_max_delay_ms :: u64

text \<open>\<open>RetryConfig::new\<close> panics on inconsistent delays, here \<open>None\<close>.\<close>

definition new_retry_config :: "u8 \<Rightarrow> u8 \<Rightarrow> u64 \<Rightarrow> u64 \<Rightarrow> retry_config option" where
  "new_retry_config retries failovers base_ms max_ms =
     (if (base_ms = 0) \<noteq> (max_ms = 0) then None
      else if base_ms > 0 \<and> max_ms > 0 \<and> max_ms < base_ms then None
      else Some \<lparr> rt_max_retries = retries, rt_max_failovers = failovers, rt_base_delay_ms = base_ms,
                 rt_max_delay_ms = max_ms \<rparr>)"

definition apply_jitter :: "rpc_env \<Rightarrow> nat \<Rightarrow> u64 \<Rightarrow> u64" where
  "apply_jitter E t delay_ms =
     (if delay_ms = 0 then 0
      else let jitter_range = re_jitter_range E delay_ms
           in if jitter_range = 0 then delay_ms
              else let jitter_value = re_random_range E t jitter_range
                   in if re_random_bool E t then saturating_add delay_ms jitter_value
                      else saturating_sub delay_ms jitter_value)"

definition calculate_retry_delay :: "rpc_env \<Rightarrow> nat \<Rightarrow> nat \<Rightarrow> u64 \<Rightarrow> u64 \<Rightarrow> u64" where
  "calculate_retry_delay E t attempt base_delay_ms max_delay_ms =
     (if base_delay_ms = 0 \<or> max_delay_ms = 0 then 0
      else let exp_backoff = (if attempt > 63 then max_delay_ms
                              else saturating_mul base_delay_ms (2 ^ attempt))
           in apply_jitter E t (min exp_backoff max_delay_ms))"

text \<open>What a caller hands over: the predicates on errors, the initialiser, the operation and the text of an error.\<close>

record ('p, 'e, 'a) rpc_call =
  ca_operation_name :: string
  ca_is_retriable_error :: "'e \<Rightarrow> bool"
  ca_should_mark_provider_failed :: "'e \<Rightarrow> bool"
  ca_provider_initializer :: "string \<Rightarrow> 'e + 'p"
  ca_operation :: "nat \<Rightarrow> 'p \<Rightarrow> 'e + 'a"
  ca_of_string :: "string \<Rightarrow> 'e"

datatype 'e internal_retry_error = NonRetriable 'e | RetriesExhausted 'e

definition invoke :: "('p, 'e, 'a) rpc_call \<Rightarrow> 'p \<Rightarrow> string \<Rightarrow> ('e, 'a) rpc_op" where
  "invoke C p url = (\<lambda>s. (ca_operation C (rp_tick s) p,
     s\<lparr> rp_tick := Suc (rp_tick s), rp_total_attempts := Suc (rp_total_attempts s), rp_calls := rp_calls s @ [url] \<rparr>))"

text \<open>The last argument of \<open>attempt_loop\<close> counts the attempts that may follow this one.\<close>

fun attempt_loop ::
  "rpc_env \<Rightarrow> retry_config \<Rightarrow> ('p, 'e, 'a) rpc_call \<Rightarrow> 'p \<Rightarrow> string \<Rightarrow> nat \<Rightarrow> nat \<Rightarrow> ('e internal_retry_error, 'a) rpc_op" where
  "attempt_loop E cfg C p url i 0 =
     bindM (attemptM (invoke C p url)) (\<lambda>result. case result of
       Inr x \<Rightarrow> returnM x
     | Inl e \<Rightarrow> (if \<not> ca_is_retriable_error C e then throwM (NonRetriable e) else throwM (RetriesExhausted e)))"
| "attempt_loop E cfg C p url i (Suc n) =
     bindM (attemptM (invoke C p url)) (\<lambda>result. case result of
       Inr x \<Rightarrow> returnM x
     | Inl e \<Rightarrow>
         (if \<not> ca_is_retriable_error C e then throwM (NonRetriable e)
          else bindM (askR (\<lambda>t. calculate_retry_delay E t (i + 1) (rt_base_delay_ms cfg) (rt_max_delay_ms cfg)))
                 (\<lambda>delay. attempt_loop E cfg C p url (i + 1) n)))"

definition try_with_retries ::
  "rpc_env \<Rightarrow> retry_config \<Rightarrow> ('p, 'e, 'a) rpc_call \<Rightarrow> 'p \<Rightarrow> string \<Rightarrow> ('e internal_retry_error, 'a) rpc_op" where
  "try_with_retries E cfg C p url =
     (if rt_max_retries cfg \<le> 1 then map_errM NonRetriable (invoke C p url)
      else attempt_loop E cfg C p url 0 (unat (rt_max_retries cfg) - 1))"

definition get_provider ::
  "rpc_env \<Rightarrow> rpc_selector \<Rightarrow> ('p, 'e, 'a) rpc_call \<Rightarrow> string set \<Rightarrow> ('e, 'p \<times> string) rpc_op" where
  "get_provider E S C excluded =
     bindM (map_errM (\<lambda>e. ca_of_string C (''Failed to get provider URL for '' @ ca_operation_name C @ '': ''
              @ show_rpc_selector_error e)) (get_client E S Inr excluded)) (\<lambda>url.
     bindM (liftR (ca_provider_initializer C url)) (\<lambda>p. returnM (p, url)))"

definition final_error :: "('p, 'e, 'a) rpc_call \<Rightarrow> 'e option \<Rightarrow> nat \<Rightarrow> ('e, 'a) rpc_op" where
  "final_error C last_error failover_count = (case last_error of
     Some e \<Rightarrow> throwM e
   | None \<Rightarrow> bindM (readM rp_total_attempts) (\<lambda>total_attempts.
       throwM (ca_of_string C (''RPC call '' @ [CHR 0x27] @ ca_operation_name C @ [CHR 0x27] @ '' failed after ''
         @ show_nat total_attempts @ '' total attempts across '' @ show_nat failover_count
         @ '' providers with no error details''))))"

text \<open>The last argument of \<open>failover_loop\<close> counts the rounds left: the limit less the failovers so far, plus one.\<close>

fun failover_loop ::
  "rpc_env \<Rightarrow> rpc_selector \<Rightarrow> retry_config \<Rightarrow> ('p, 'e, 'a) rpc_call \<Rightarrow> string set \<Rightarrow> 'e option \<Rightarrow> nat \<Rightarrow> nat \<Rightarrow> ('e, 'a) rpc_op" where
  "failover_loop E S cfg C tried_urls last_error failover_count 0 = final_error C last_error failover_count"
| "failover_loop E S cfg C tried_urls last_error failover_count (Suc n) =
     (if provider_count S = 0 then final_error C last_error failover_count
      else bindM (attemptM (get_provider E S C tried_urls)) (\<lambda>provider. case provider of
        Inl e \<Rightarrow>
          (if n = 0 then final_error C (Some e) (failover_count + 1)
           else thenM (mark_current_as_failed E S) (failover_loop E S cfg C tried_urls (Some e) (failover_count + 1) n))
      | Inr (p, url) \<Rightarrow>
          bindM (attemptM (try_with_retries E cfg C p url)) (\<lambda>result. case result of
            Inr x \<Rightarrow> returnM x
          | Inl (NonRetriable e) \<Rightarrow>
              thenM (whenM (ca_should_mark_provider_failed C e) (mark_current_as_failed E S)) (throwM e)
          | Inl (RetriesExhausted e) \<Rightarrow>
              thenM (mark_current_as_failed E S)
                (failover_loop E S cfg C (insert url tried_urls) (Some e) (failover_count + 1) n))))"

definition max_failovers :: "retry_config \<Rightarrow> rpc_selector \<Rightarrow> nat" where
  "max_failovers cfg S = min (unat (rt_max_failovers cfg)) (provider_count S - 1)"

definition retry_rpc_call ::
  "rpc_env \<Rightarrow> rpc_selector \<Rightarrow> retry_config \<Rightarrow> ('p, 'e, 'a) rpc_call \<Rightarrow> ('e, 'a) rpc_op" where
  "retry_rpc_call E S cfg C =
     thenM (modifyM (\<lambda>s. s\<lparr> rp_total_attempts := 0 \<rparr>))
       (failover_loop E S cfg C {} None 0 (Suc (max_failovers cfg S)))"

section \<open>What a pause check returns\<close>

text \<open>
  The reference: an endpoint is paused while its pause lasts and the failures within the
  expiration window reach the threshold.
\<close>

definition paused_at :: "int \<Rightarrow> u32 \<Rightarrow> int \<Rightarrow> rpc_config_metadata option \<Rightarrow> bool" where
  "paused_at now threshold expiration entry = (case entry of
     None \<Rightarrow> False
   | Some m \<Rightarrow> within_pause now m
       \<and> of_nat (length (filter (\<lambda>ts. now - ts \<le> expiration) (failure_timestamps m))) \<ge> threshold)"

lemma no_stale: "\<not> (\<exists>ts \<in> set xs. now - ts > d) \<Longrightarrow> filter (\<lambda>ts. now - ts \<le> d) xs = xs" for now :: int
  by (rule filter_True) auto

definition cleaned :: "int \<Rightarrow> u32 \<Rightarrow> int \<Rightarrow> rpc_config_metadata \<Rightarrow> rpc_config_metadata option" where
  "cleaned now threshold d m =
     (let fresh = filter (\<lambda>ts. now - ts \<le> d) (failure_timestamps m); m' = m\<lparr> failure_timestamps := fresh \<rparr>
      in if (case paused_until m of Some t \<Rightarrow> now \<ge> t | None \<Rightarrow> False)
         then (if fresh = [] then None else Some (m'\<lparr> paused_until := None \<rparr>))
         else if of_nat (length fresh) \<ge> threshold then Some m'
         else if fresh = [] \<and> paused_until m = None then None else Some m')"

lemma fresh_later:
  "now \<le> later \<Longrightarrow> filter (\<lambda>ts. later - ts \<le> d) (filter (\<lambda>ts. now - ts \<le> d) xs) = filter (\<lambda>ts. later - ts \<le> d) xs"
  for now :: int
  unfolding filter_filter by (rule filter_cong) auto

lemma cleaned_paused:
  assumes "now \<le> later"
  shows "paused_at later th d (cleaned now threshold d m) = paused_at later th d (Some m)"
proof (cases "case paused_until m of Some t \<Rightarrow> now \<ge> t | None \<Rightarrow> False")
  case True
  then have "\<not> within_pause later m"
    using assms by (auto simp: within_pause_def split: option.splits)
  with True show ?thesis
    by (simp add: paused_at_def cleaned_def within_pause_def Let_def)
next
  case False
  then show ?thesis
    using fresh_later [OF assms, of d "failure_timestamps m"]
    by (auto simp: paused_at_def cleaned_def within_pause_def Let_def)
qed

text \<open>Seen from any time, a cleaned entry counts as the old one does at the later of that time and the clean-up.\<close>

lemma cleaned_max: "paused_at t threshold d (cleaned now threshold d m) = paused_at (max t now) threshold d (Some m)"
proof (cases "now \<le> t")
  case True
  then show ?thesis
    by (simp add: cleaned_paused max_absorb1)
next
  case False
  then have "filter (\<lambda>ts. t - ts \<le> d) (filter (\<lambda>ts. now - ts \<le> d) xs) = filter (\<lambda>ts. now - ts \<le> d) xs" for xs
    unfolding filter_filter by (intro filter_cong) auto
  with False show ?thesis
    by (auto simp: paused_at_def cleaned_def within_pause_def Let_def max_absorb2 split: option.splits)
qed

lemma untouched_max:
  assumes "\<not> (\<exists>ts \<in> set (failure_timestamps m). now - ts > d)" "\<not> (case paused_until m of Some t \<Rightarrow> now \<ge> t | None \<Rightarrow> False)"
  shows "paused_at t threshold d (Some m) = paused_at (max t now) threshold d (Some m)"
proof (cases "now \<le> t")
  case False
  have "filter (\<lambda>ts. now - ts \<le> d) (failure_timestamps m) = failure_timestamps m"
    using assms(1) by (rule no_stale)
  moreover have "filter (\<lambda>ts. t - ts \<le> d) (failure_timestamps m) = failure_timestamps m"
    using assms(1) False by (intro no_stale) fastforce
  ultimately show ?thesis
    using assms(2) False by (auto simp: paused_at_def within_pause_def max_absorb2 split: option.splits)
qed (simp add: max_absorb1)

lemma cleanup_result:
  assumes "rp_health s url = Some m"
  shows "is_paused_with_cleanup url threshold d now s = (Inr (paused_at now threshold d (Some m)),
    s\<lparr> rp_health := (rp_health s)(url := cleaned now threshold d m) \<rparr>)"
proof (cases "case paused_until m of Some t \<Rightarrow> now \<ge> t | None \<Rightarrow> False")
  case True
  then have "\<not> within_pause now m"
    by (auto simp: within_pause_def split: option.splits)
  with True show ?thesis
    using assms by (simp add: is_paused_with_cleanup_def paused_at_def cleaned_def update_metadata_def remove_metadata_def eff_defs Let_def)
next
  case False
  then show ?thesis
    using assms
    by (simp add: is_paused_with_cleanup_def paused_at_def cleaned_def within_pause_def update_metadata_def remove_metadata_def
        eff_defs Let_def)
qed

lemma is_paused_result:
  "\<exists>h. is_paused E url threshold d s = (Inr (paused_at (re_now E (rp_tick s)) threshold d (rp_health s url)),
      s\<lparr> rp_tick := Suc (rp_tick s), rp_health := (rp_health s)(url := h) \<rparr>)
    \<and> (\<forall>th later. re_now E (rp_tick s) \<le> later \<longrightarrow> paused_at later th d h = paused_at later th d (rp_health s url))
    \<and> (\<forall>t. paused_at t threshold d h = paused_at (max t (re_now E (rp_tick s))) threshold d (rp_health s url))"
proof (cases "rp_health s url")
  case None
  then show ?thesis
    by (intro exI [of _ None]) (simp add: is_paused_def askR_def paused_at_def eff_defs fun_upd_idem)
next
  case (Some m)
  define now where "now = re_now E (rp_tick s)"
  let ?dirty = "(\<exists>ts \<in> set (failure_timestamps m). now - ts > d)
      \<or> (case paused_until m of Some t \<Rightarrow> now \<ge> t | None \<Rightarrow> False) \<or> failure_timestamps m = [] \<and> paused_until m = None"
  show ?thesis
  proof (cases ?dirty)
    case True
    have "is_paused E url threshold d s = is_paused_with_cleanup url threshold d now (s\<lparr> rp_tick := Suc (rp_tick s) \<rparr>)"
      using Some True unfolding now_def by (simp add: is_paused_def askR_def bindM_def readM_def)
    then show ?thesis
      unfolding now_def [symmetric] Some
      by (intro exI [of _ "cleaned now threshold d m"]) (simp add: cleanup_result [of _ url m] Some cleaned_paused cleaned_max)
  next
    case False
    then have "filter (\<lambda>ts. now - ts \<le> d) (failure_timestamps m) = failure_timestamps m"
      by (intro no_stale) blast
    moreover have "is_paused E url threshold d s
        = (Inr (within_pause now m \<and> of_nat (length (failure_timestamps m)) \<ge> threshold), s\<lparr> rp_tick := Suc (rp_tick s) \<rparr>)"
      using Some False unfolding now_def by (auto simp: is_paused_def askR_def bindM_def readM_def returnM_def)
    moreover have "paused_at t threshold d (Some m) = paused_at (max t now) threshold d (Some m)" for t
      using False by (intro untouched_max) blast+
    ultimately show ?thesis
      unfolding now_def [symmetric] Some
      by (intro exI [of _ "Some m"]) (auto simp: paused_at_def [of now] fun_upd_idem [of "rp_health s", OF Some])
  qed
qed


section \<open>Delays\<close>

text \<open>A delay differs from the exponential one by at most the range of the jitter.\<close>

lemma apply_jitter_bounds:
  assumes "\<And>n. re_random_range E t n \<le> n"
  shows "unat (apply_jitter E t d) \<in> {unat d - unat (re_jitter_range E d)..unat d + unat (re_jitter_range E d)}"
proof -
  have "unat (re_random_range E t (re_jitter_range E d)) \<le> unat (re_jitter_range E d)"
    using assms by (simp add: word_le_nat_alt)
  moreover have "unat d < 2 ^ 64"
    using unsigned_less [of d, where 'a = nat] by simp
  ultimately show ?thesis
    by (auto simp: apply_jitter_def Let_def unat_saturating_add unat_saturating_sub)
qed

section \<open>What a selection returns\<close>

text \<open>An endpoint that may be tried: it has a weight and is not excluded.\<close>

definition eligible :: "rpc_selector \<Rightarrow> string set \<Rightarrow> nat \<Rightarrow> bool" where
  "eligible S excluded i \<longleftrightarrow> i < provider_count S \<and> rpc_weight (sel_configs S ! i) \<noteq> 0
     \<and> rpc_url (sel_configs S ! i) \<notin> excluded"

text \<open>The current endpoint of the state is the one with this URL, and may be tried.\<close>

definition selected :: "rpc_selector \<Rightarrow> string set \<Rightarrow> string \<Rightarrow> rpc_state \<Rightarrow> bool" where
  "selected S excluded url s \<longleftrightarrow> rp_has_current s \<and> eligible S excluded (rp_current_index s)
     \<and> rpc_url (sel_configs S ! rp_current_index s) = url"

abbreviation samples_in_range :: "rpc_env \<Rightarrow> rpc_selector \<Rightarrow> bool" where
  "samples_in_range E S \<equiv> \<forall>t dist. sel_weights_dist S = Some dist \<longrightarrow> re_sample E t dist < provider_count S"

text \<open>
  The random number library samples an index of the list of weights. For a constructed selector
  that is the index of an endpoint.
\<close>

lemma distribution_length:
  assumes "create_weights_distribution E configs excluded = Some ws"
  shows "ws \<noteq> [] \<and> length ws = length configs"
proof -
  have "ws = map (\<lambda>(i, c). if i \<in> excluded then 0 else rpc_weight c) (enumerate 0 configs)" "filter (\<lambda>w. w > 0) ws \<noteq> []"
    using assms unfolding create_weights_distribution_def Let_def by (simp_all split: list.splits if_splits)
  then show ?thesis
    by auto
qed

lemma new_selector_samples:
  assumes "\<And>t ws. ws \<noteq> [] \<Longrightarrow> re_sample E t ws < length ws" "new_selector E configs threshold pause expiration = Inr S"
  shows "samples_in_range E S"
proof (intro allI impI)
  fix t ws
  assume "sel_weights_dist S = Some ws"
  moreover have "S = \<lparr> sel_configs = configs, sel_weights_dist = create_weights_distribution E configs {},
      sel_failure_threshold = threshold, sel_pause_duration_secs = pause, sel_failure_expiration_secs = expiration \<rparr>"
    using assms(2) by (simp add: new_selector_def split: if_splits)
  ultimately have "ws \<noteq> []" "length ws = provider_count S"
    using distribution_length [of E configs "{}" ws] by (simp_all add: provider_count_def)
  then show "re_sample E t ws < provider_count S"
    using assms(1) by metis
qed

text \<open>
  An endpoint that every reading of the clock from tick \<open>a\<close> to tick \<open>b\<close> finds paused, or every
  one finds not paused. Nothing is assumed of the readings.
\<close>

definition steady :: "rpc_env \<Rightarrow> rpc_selector \<Rightarrow> nat \<Rightarrow> nat \<Rightarrow> bool \<Rightarrow> rpc_config_metadata option \<Rightarrow> bool" where
  "steady E S a b paused entry \<longleftrightarrow> (\<forall>t \<in> {a..b}. paused_at (re_now E t) (sel_failure_threshold S)
     (duration_secs (sel_failure_expiration_secs S)) entry = paused)"

text \<open>
  What a selection that starts at tick \<open>a\<close> with the health \<open>H\<close> keeps: the log of calls, which
  endpoints are steadily paused or not paused, and a fact \<open>M\<close> that outlasts the clock.
\<close>

definition rising :: "(nat \<Rightarrow> bool) \<Rightarrow> bool" where
  "rising M \<longleftrightarrow> (\<forall>k k'. k \<le> k' \<longrightarrow> M k \<longrightarrow> M k')"

definition sel_inv ::
  "rpc_env \<Rightarrow> rpc_selector \<Rightarrow> nat \<Rightarrow> (string \<Rightarrow> rpc_config_metadata option) \<Rightarrow> (nat \<Rightarrow> bool) \<Rightarrow> string list \<Rightarrow> rpc_state \<Rightarrow> bool" where
  "sel_inv E S a H M calls s \<longleftrightarrow> rp_calls s = calls \<and> a \<le> rp_tick s \<and> M (rp_tick s)
     \<and> (\<forall>b paused url. rp_tick s \<le> b \<longrightarrow> steady E S a b paused (H url) \<longrightarrow> steady E S a b paused (rp_health s url))"

text \<open>The answers a check of an endpoint that ended at tick \<open>k\<close> may have given.\<close>

definition verdict ::
  "rpc_env \<Rightarrow> rpc_selector \<Rightarrow> nat \<Rightarrow> (string \<Rightarrow> rpc_config_metadata option) \<Rightarrow> string set \<Rightarrow> bool \<Rightarrow> nat \<Rightarrow> bool \<Rightarrow> nat \<Rightarrow> bool" where
  "verdict E S a H excluded allow_paused i ok k \<longleftrightarrow> (ok \<longrightarrow> eligible S excluded i)
     \<and> (allow_paused \<longrightarrow> ok = eligible S excluded i)
     \<and> (\<not> allow_paused \<and> eligible S excluded i \<longrightarrow>
          (\<forall>b. k \<le> b \<longrightarrow> \<not> steady E S a b ok (H (rpc_url (sel_configs S ! i)))))"

lemma rising_Suc: "rising M \<Longrightarrow> M k \<Longrightarrow> M (Suc k)"
  unfolding rising_def by (meson le_Suc_eq order_refl)

lemma rising_rules:
  "rising (\<lambda>_. True)" "rising (verdict E S a H excluded allow_paused i ok)"
  "rising M \<Longrightarrow> rising N \<Longrightarrow> rising (\<lambda>k. M k \<and> N k)" "(\<And>x. rising (F x)) \<Longrightarrow> rising (\<lambda>k. \<forall>x. V x \<longrightarrow> F x k)"
  "(\<And>x. rising (F x)) \<Longrightarrow> rising (\<lambda>k. \<forall>x \<in> X. F x k)" "rising (\<lambda>k. \<forall>b. k \<le> b \<longrightarrow> P b)"
  unfolding rising_def verdict_def by (blast intro: order_trans)+

lemma steady_checked:
  assumes "\<And>t. paused_at t (sel_failure_threshold S) (duration_secs (sel_failure_expiration_secs S)) h'
      = paused_at (max t (re_now E k)) (sel_failure_threshold S) (duration_secs (sel_failure_expiration_secs S)) h"
    and "a \<le> k" "k \<le> b" "steady E S a b paused h"
  shows "steady E S a b paused h'"
  using assms by (auto simp: steady_def max_def)

lemma pause_check_valid:
  assumes "rising M"
  shows "valid (sel_inv E S a H M calls)
     (is_paused E url (sel_failure_threshold S) (duration_secs (sel_failure_expiration_secs S)) :: ('e, bool) rpc_op)
     (\<lambda>paused s. sel_inv E S a H M calls s \<and> (\<forall>b. rp_tick s \<le> b \<longrightarrow> \<not> steady E S a b (\<not> paused) (H url))) Q"
  unfolding valid_def
proof (intro allI impI)
  fix s
  let ?th = "sel_failure_threshold S" and ?d = "duration_secs (sel_failure_expiration_secs S)"
  assume inv: "sel_inv E S a H M calls s"
  obtain h where run: "(is_paused E url ?th ?d :: ('e, bool) rpc_op) s = (Inr (paused_at (re_now E (rp_tick s)) ?th ?d (rp_health s url)),
      s\<lparr> rp_tick := Suc (rp_tick s), rp_health := (rp_health s)(url := h) \<rparr>)"
    and h: "\<And>t. paused_at t ?th ?d h = paused_at (max t (re_now E (rp_tick s))) ?th ?d (rp_health s url)"
    using is_paused_result by blast
  have kept: "steady E S a b paused (((rp_health s)(url := h)) u)" if "Suc (rp_tick s) \<le> b" "steady E S a b paused (H u)" for b paused u
    using inv that steady_checked [OF h] by (auto simp: sel_inv_def)
  have "\<not> steady E S a b (\<not> paused_at (re_now E (rp_tick s)) ?th ?d (rp_health s url)) (H url)" if "Suc (rp_tick s) \<le> b" for b
  proof
    assume "steady E S a b (\<not> paused_at (re_now E (rp_tick s)) ?th ?d (rp_health s url)) (H url)"
    then have "steady E S a b (\<not> paused_at (re_now E (rp_tick s)) ?th ?d (rp_health s url)) (rp_health s url)"
      using inv that by (auto simp: sel_inv_def)
    moreover have "rp_tick s \<in> {a..b}"
      using inv that by (auto simp: sel_inv_def)
    ultimately show False
      unfolding steady_def by blast
  qed
  moreover have "M (Suc (rp_tick s))"
    using inv by (intro rising_Suc [OF assms]) (simp add: sel_inv_def)
  ultimately show "case (is_paused E url ?th ?d :: ('e, bool) rpc_op) s of
      (Inr paused, s') \<Rightarrow> sel_inv E S a H M calls s' \<and> (\<forall>b. rp_tick s' \<le> b \<longrightarrow> \<not> steady E S a b (\<not> paused) (H url))
    | (Inl e, s') \<Rightarrow> Q e s'"
    using run inv kept by (auto simp: sel_inv_def)
qed

lemma suitable_valid:
  assumes "rising M" "i < provider_count S"
  shows "valid (sel_inv E S a H M calls) (suitable E S excluded allow_paused i)
    (\<lambda>ok s. sel_inv E S a H M calls s \<and> verdict E S a H excluded allow_paused i ok (rp_tick s)) Q"
  unfolding suitable_def Let_def
  by (intro valid_if valid_bind [OF pause_check_valid] valid_return) (use assms in \<open>auto simp: verdict_def eligible_def\<close>)

text \<open>
  The outcome of a search that looks at least at the endpoints \<open>is\<close>: a found endpoint is current and
  was judged suitable; with none found, none of \<open>is\<close> is.
\<close>

definition found ::
  "rpc_env \<Rightarrow> rpc_selector \<Rightarrow> nat \<Rightarrow> (string \<Rightarrow> rpc_config_metadata option) \<Rightarrow> (nat \<Rightarrow> bool) \<Rightarrow> string list \<Rightarrow> string set \<Rightarrow>
     bool \<Rightarrow> nat list \<Rightarrow> string option \<Rightarrow> rpc_state \<Rightarrow> bool" where
  "found E S a H M calls excluded allow_paused is r s \<longleftrightarrow> sel_inv E S a H M calls s \<and> (case r of
     None \<Rightarrow> \<forall>i \<in> set is. verdict E S a H excluded allow_paused i False (rp_tick s)
   | Some url \<Rightarrow> rp_has_current s \<and> verdict E S a H excluded allow_paused (rp_current_index s) True (rp_tick s)
       \<and> rpc_url (sel_configs S ! rp_current_index s) = url)"

lemma take_found:
  assumes "\<And>s. rp_calls (f s) = rp_calls s \<and> rp_health (f s) = rp_health s \<and> rp_tick (f s) = rp_tick s
      \<and> rp_has_current (f s) \<and> rp_current_index (f s) = i"
  shows "valid (\<lambda>s. sel_inv E S a H M calls s \<and> verdict E S a H excluded allow_paused i True (rp_tick s))
    (thenM (modifyM f) (returnM (Some (rpc_url (sel_configs S ! i)))))
    (found E S a H M calls excluded allow_paused is) Q"
  using assms by (auto simp: valid_def thenM_def bindM_def modifyM_def returnM_def found_def sel_inv_def)

lemma weighted_found:
  assumes "rising M" "\<And>t. re_sample E t dist < provider_count S"
  shows "valid (sel_inv E S a H M calls) (weighted_attempts E S dist excluded allow_paused n)
    (found E S a H M calls excluded allow_paused []) Q"
proof (induction n)
  case 0
  show ?case
    by (auto simp: found_def intro: valid_return)
next
  case (Suc n)
  have "valid (sel_inv E S a H M calls) (askR (\<lambda>t. re_sample E t dist))
      (\<lambda>i s. sel_inv E S a H M calls s \<and> i < provider_count S) Q"
    using assms(2) by (auto simp: valid_def askR_def sel_inv_def intro: rising_Suc [OF assms(1)])
  moreover have "valid (\<lambda>s. sel_inv E S a H M calls s \<and> i < provider_count S) (suitable E S excluded allow_paused i)
      (\<lambda>ok s. sel_inv E S a H M calls s \<and> verdict E S a H excluded allow_paused i ok (rp_tick s)) Q" for i
    by (rule valid_fact) (rule suitable_valid [OF assms(1)])
  moreover have "valid (\<lambda>s. sel_inv E S a H M calls s \<and> verdict E S a H excluded allow_paused i ok (rp_tick s))
      (if ok then thenM (modifyM (\<lambda>s. s\<lparr> rp_current_index := i, rp_has_current := True \<rparr>))
                    (returnM (Some (rpc_url (sel_configs S ! i))))
       else weighted_attempts E S dist excluded allow_paused n) (found E S a H M calls excluded allow_paused []) Q" for i ok
    by (cases ok) (auto intro: take_found valid_pre [OF Suc.IH])
  ultimately show ?case
    unfolding weighted_attempts.simps by (intro valid_bind)
qed

lemma round_robin_found:
  assumes "rising M" "\<forall>i \<in> set is. i < provider_count S"
  shows "valid (sel_inv E S a H (\<lambda>k. M k \<and> (\<forall>j \<in> set js. verdict E S a H excluded allow_paused j False k)) calls)
    (round_robin_from E S excluded allow_paused is)
    (found E S a H M calls excluded allow_paused (js @ is)) Q"
  using assms(2)
proof (induction "is" arbitrary: js)
  case Nil
  show ?case
    by (auto simp: found_def sel_inv_def intro: valid_return)
next
  case (Cons i "is")
  let ?V = "verdict E S a H excluded allow_paused"
  let ?M = "\<lambda>js k. M k \<and> (\<forall>j \<in> set js. ?V j False k)"
  have "valid (sel_inv E S a H (?M js) calls) (suitable E S excluded allow_paused i)
      (\<lambda>ok s. sel_inv E S a H (?M js) calls s \<and> ?V i ok (rp_tick s)) Q"
    using Cons.prems assms(1) by (intro suitable_valid rising_rules) auto
  moreover have "valid (\<lambda>s. sel_inv E S a H (?M js) calls s \<and> ?V i ok (rp_tick s))
      (if ok then thenM (modifyM (\<lambda>s. s\<lparr> rp_next_index := of_nat ((i + 1) mod provider_count S),
                                          rp_current_index := i, rp_has_current := True \<rparr>))
                    (returnM (Some (rpc_url (sel_configs S ! i))))
       else round_robin_from E S excluded allow_paused is) (found E S a H M calls excluded allow_paused (js @ i # is)) Q" for ok
  proof (cases ok)
    case True
    then show ?thesis
      by (auto simp: sel_inv_def intro!: valid_pre [OF take_found])
  next
    case False
    then show ?thesis
      using Cons.IH [of "js @ [i]"] Cons.prems by (auto simp: sel_inv_def elim!: valid_pre)
  qed
  ultimately show ?case
    unfolding round_robin_from.simps by (intro valid_bind)
qed

lemma try_weighted_found:
  assumes "rising M" "samples_in_range E S"
  shows "valid (sel_inv E S a H M calls) (try_weighted_selection E S excluded allow_paused)
    (found E S a H M calls excluded allow_paused []) Q"
  unfolding try_weighted_selection_def
  by (intro valid_case_option valid_return weighted_found) (use assms in \<open>auto simp: found_def\<close>)

lemma rotation_covers:
  assumes "0 < n"
  shows "set (map (\<lambda>i. (start + i) mod n) [0..<n]) = {..<n}"
proof
  show "{..<n} \<subseteq> set (map (\<lambda>i. (start + i) mod n) [0..<n])"
  proof
    fix j
    assume "j \<in> {..<n}"
    have turn: "start + (j + (n - start mod n)) = j + (1 + start div n) * n"
      using mod_less_divisor [OF assms, of start] div_mult_mod_eq [of start n] unfolding add_mult_distrib by linarith
    have "(start + (j + (n - start mod n)) mod n) mod n = j"
      unfolding mod_add_right_eq turn mod_mult_self1 using \<open>j \<in> {..<n}\<close> by simp
    moreover have "(j + (n - start mod n)) mod n \<in> set [0..<n]"
      using assms by simp
    ultimately show "j \<in> set (map (\<lambda>i. (start + i) mod n) [0..<n])"
      unfolding set_map by (metis image_eqI)
  qed
qed (use assms in auto)

lemma try_round_robin_found:
  assumes "rising M" "0 < provider_count S"
  shows "valid (sel_inv E S a H M calls) (try_round_robin_selection E S excluded allow_paused start)
    (found E S a H M calls excluded allow_paused [0..<provider_count S]) Q"
proof -
  let ?is = "map (\<lambda>i. (start + i) mod provider_count S) [0..<provider_count S]"
  have range: "set ?is = set [0..<provider_count S]"
    unfolding rotation_covers [OF assms(2)] by auto
  have "found E S a H M calls excluded allow_paused ?is = found E S a H M calls excluded allow_paused [0..<provider_count S]"
    by (intro ext) (simp only: found_def range)
  then show ?thesis
    unfolding try_round_robin_selection_def
    using round_robin_found [OF assms(1), of ?is S E a H "[]" excluded allow_paused calls Q] assms(2) by simp
qed

text \<open>The promise of a selection, and what its errors mean.\<close>

definition seen_paused ::
  "rpc_env \<Rightarrow> rpc_selector \<Rightarrow> nat \<Rightarrow> (string \<Rightarrow> rpc_config_metadata option) \<Rightarrow> string set \<Rightarrow> nat \<Rightarrow> bool" where
  "seen_paused E S a H excluded k \<longleftrightarrow> (\<forall>i. eligible S excluded i \<longrightarrow>
     (\<forall>b. k \<le> b \<longrightarrow> \<not> steady E S a b False (H (rpc_url (sel_configs S ! i)))))"

lemma rising_seen: "rising (seen_paused E S a H excluded)"
  unfolding seen_paused_def by (intro rising_rules)

definition chosen ::
  "rpc_env \<Rightarrow> rpc_selector \<Rightarrow> nat \<Rightarrow> (string \<Rightarrow> rpc_config_metadata option) \<Rightarrow> string list \<Rightarrow> string set \<Rightarrow> string \<Rightarrow> rpc_state \<Rightarrow> bool" where
  "chosen E S a H calls excluded url s \<longleftrightarrow> rp_calls s = calls \<and> selected S excluded url s
     \<and> (steady E S a (rp_tick s) True (H url) \<longrightarrow> seen_paused E S a H excluded (rp_tick s))"

definition none_left :: "rpc_selector \<Rightarrow> string list \<Rightarrow> string set \<Rightarrow> rpc_selector_error \<Rightarrow> rpc_state \<Rightarrow> bool" where
  "none_left S calls excluded e s \<longleftrightarrow> rp_calls s = calls \<and> (\<forall>i. \<not> eligible S excluded i)
     \<and> e = (if sel_configs S = [] then NoProviders else AllProvidersFailed)"

lemma found_chosen:
  "found E S a H M calls excluded False is (Some url) s \<Longrightarrow> chosen E S a H calls excluded url s"
  by (auto simp: found_def sel_inv_def chosen_def selected_def verdict_def)

lemma none_unpaused:
  "found E S a H M calls excluded False [0..<provider_count S] None s \<Longrightarrow>
     sel_inv E S a H (seen_paused E S a H excluded) calls s"
  by (auto simp: found_def sel_inv_def verdict_def eligible_def seen_paused_def)

lemma paused_chosen:
  assumes "found E S a H (seen_paused E S a H excluded) calls excluded True is (Some url) s"
  shows "chosen E S a H calls excluded url s"
  using assms by (auto simp: found_def sel_inv_def chosen_def selected_def verdict_def)

lemma none_eligible:
  assumes "found E S a H M calls excluded True [0..<provider_count S] None s" "sel_configs S \<noteq> []"
  shows "none_left S calls excluded AllProvidersFailed s"
  using assms by (auto simp: found_def sel_inv_def none_left_def verdict_def eligible_def)

lemma search_then:
  assumes "valid P search F E" "\<And>url s. F (Some url) s \<Longrightarrow> Q url s" "valid (F None) rest Q E"
  shows "valid P (bindM search (\<lambda>r. case r of Some url \<Rightarrow> returnM url | None \<Rightarrow> rest)) Q E"
  by (rule valid_bind [OF assms(1)], rule valid_case_option) (use assms in \<open>auto intro: valid_return\<close>)

lemma select_valid:
  assumes "samples_in_range E S"
  shows "valid (sel_inv E S a H (\<lambda>_. True) calls) (select_url_internal E S excluded)
    (chosen E S a H calls excluded) (none_left S calls excluded)"
proof -
  consider "sel_configs S = []" | (one) c where "sel_configs S = [c]" | (many) c d cs where "sel_configs S = c # d # cs"
    by (metis list.exhaust)
  then show ?thesis
  proof cases
    case 1
    then show ?thesis
      by (auto simp: select_url_internal_def valid_def throwM_def none_left_def eligible_def provider_count_def sel_inv_def)
  next
    case one
    have "\<not> (steady E S a b True h \<and> steady E S a b' False h)" if "a \<le> b" "b \<le> b'" for b b' h
      using that by (auto simp: steady_def)
    with one show ?thesis
      by (auto simp: select_url_internal_def valid_def eff_defs none_left_def chosen_def selected_def sel_inv_def
          eligible_def provider_count_def seen_paused_def)
  next
    case many
    have pos: "0 < provider_count S" and some: "sel_configs S \<noteq> []"
      using many by (simp_all add: provider_count_def)
    have robin: "valid (found E S a H M calls excluded ap [] None) (try_round_robin_selection E S excluded ap start)
        (found E S a H M calls excluded ap [0..<provider_count S]) Q" if "rising M" for M ap start Q
      by (rule valid_pre [OF try_round_robin_found [OF that pos]]) (simp add: found_def)
    note weighted = try_weighted_found [OF _ assms]
    have "valid (sel_inv E S a H (seen_paused E S a H excluded) calls)
       (bindM (try_weighted_selection E S excluded True) (\<lambda>w. case w of Some url \<Rightarrow> returnM url | None \<Rightarrow>
        bindM (try_round_robin_selection E S excluded True start) (\<lambda>r. case r of Some url \<Rightarrow> returnM url | None \<Rightarrow>
          throwM AllProvidersFailed)))
       (chosen E S a H calls excluded) (none_left S calls excluded)" for start
      by (intro search_then [OF weighted] search_then [OF robin] valid_throw rising_seen)
        (auto intro: paused_chosen none_eligible [OF _ some])
    then have again: "valid (found E S a H M calls excluded False [0..<provider_count S] None)
       (bindM (try_weighted_selection E S excluded True) (\<lambda>w. case w of Some url \<Rightarrow> returnM url | None \<Rightarrow>
        bindM (try_round_robin_selection E S excluded True start) (\<lambda>r. case r of Some url \<Rightarrow> returnM url | None \<Rightarrow>
          throwM AllProvidersFailed)))
       (chosen E S a H calls excluded) (none_left S calls excluded)" for start M
      by (rule valid_pre) (rule none_unpaused)
    have start: "valid F (readM f) (\<lambda>_. F) Q" for F Q and f :: "rpc_state \<Rightarrow> nat"
      by (rule valid_read)
    show ?thesis
      unfolding select_url_internal_def many list.case
      by (intro search_then [OF weighted] search_then [OF robin] valid_bind [OF start] again rising_rules(1))
        (auto intro: found_chosen)
  qed
qed

section \<open>How often the nodes are called\<close>

text \<open>The URLs a call may use: those of the configured endpoints with a weight.\<close>

definition usable_urls :: "rpc_selector \<Rightarrow> string set" where
  "usable_urls S = set (map rpc_url (filter (\<lambda>c. rpc_weight c \<noteq> 0) (sel_configs S)))"

lemma usable_subset: "usable_urls S \<subseteq> excluded \<longleftrightarrow> (\<forall>i. \<not> eligible S excluded i)"
  unfolding usable_urls_def eligible_def provider_count_def by (auto simp: in_set_conv_nth)

lemma sel_inv_start: "sel_inv E S (rp_tick s) (rp_health s) (\<lambda>_. True) (rp_calls s) s"
  by (simp add: sel_inv_def)

lemma select_calls:
  assumes "samples_in_range E S"
  shows "valid (\<lambda>s. rp_calls s = xs) (select_url_internal E S excluded)
    (\<lambda>url s. rp_calls s = xs \<and> selected S excluded url s) (\<lambda>_ s. rp_calls s = xs \<and> usable_urls S \<subseteq> excluded)"
  unfolding usable_subset
  by (rule validI) (use valid_Inr [OF select_valid [OF assms] sel_inv_start] valid_Inl [OF select_valid [OF assms] sel_inv_start]
      in \<open>auto simp: chosen_def none_left_def\<close>)

lemma get_client_url: "get_client E S Inr excluded = select_url_internal E S excluded"
  unfolding get_client_def map_errM_def liftR_def bindM_def by (auto split: prod.splits sum.splits)

lemma get_provider_calls:
  assumes "samples_in_range E S"
  shows "valid (\<lambda>s. rp_calls s = xs) (get_provider E S C excluded)
    (\<lambda>(p, url) s. rp_calls s = xs \<and> url \<in> usable_urls S \<and> url \<notin> excluded) (\<lambda>_ s. rp_calls s = xs)"
  unfolding get_provider_def get_client_url
proof (rule valid_bind [OF valid_map_err])
  show "valid (\<lambda>s. rp_calls s = xs) (select_url_internal E S excluded)
      (\<lambda>url s. rp_calls s = xs \<and> selected S excluded url s) (\<lambda>_ s. rp_calls s = xs)"
    by (rule valid_conseq [OF select_calls [OF assms]]) auto
next
  fix url
  show "valid (\<lambda>s. rp_calls s = xs \<and> selected S excluded url s)
      (bindM (liftR (ca_provider_initializer C url)) (\<lambda>p. returnM (p, url)))
      (\<lambda>(p, url) s. rp_calls s = xs \<and> url \<in> usable_urls S \<and> url \<notin> excluded) (\<lambda>_ s. rp_calls s = xs)"
    by (auto simp: valid_def eff_defs selected_def eligible_def usable_urls_def provider_count_def split: sum.splits)
qed

lemma mark_current_calls:
  "valid (\<lambda>s. F (rp_calls s)) (mark_current_as_failed E S) (\<lambda>_ s. F (rp_calls s)) Q"
  by (auto simp: valid_def mark_current_as_failed_def mark_failed_def get_metadata_def update_metadata_def askR_def
      eff_defs Let_def)

lemma invoke_calls:
  "valid (\<lambda>s. rp_calls s = xs) (invoke C p url) (\<lambda>_ s. rp_calls s = xs @ [url]) (\<lambda>_ s. rp_calls s = xs @ [url])"
  by (auto simp: valid_def invoke_def split: sum.splits)

text \<open>A round calls one endpoint once or more, up to the number of attempts.\<close>

definition round_calls :: "nat \<Rightarrow> string list \<Rightarrow> string \<Rightarrow> string list \<Rightarrow> bool" where
  "round_calls n xs url ys \<longleftrightarrow> (\<exists>j \<in> {1..n}. ys = xs @ replicate j url)"

lemma attempt_calls:
  "valid (\<lambda>s. rp_calls s = xs) (attempt_loop E cfg C p url i n)
     (\<lambda>_ s. round_calls (Suc n) xs url (rp_calls s)) (\<lambda>_ s. round_calls (Suc n) xs url (rp_calls s))"
proof (induction n arbitrary: xs i)
  case 0
  have "round_calls (Suc 0) xs url (rp_calls s)" if "rp_calls s = xs @ [url]" for s
    using that by (auto simp: round_calls_def)
  then show ?case
    unfolding attempt_loop.simps
    by (intro valid_bind [OF valid_attempt [OF invoke_calls]] valid_case_sum valid_if valid_throw valid_return)
next
  case (Suc n)
  let ?R = "\<lambda>s. round_calls (Suc (Suc n)) xs url (rp_calls s)"
  have once: "?R s" if "rp_calls s = xs @ [url]" for s
    using that by (auto simp: round_calls_def intro!: bexI [of _ 1])
  have more: "?R s" if "round_calls (Suc n) (xs @ [url]) url (rp_calls s)" for s
    using that by (fastforce simp: round_calls_def intro!: bexI [of _ "Suc j" for j])
  have ask: "valid (\<lambda>s. rp_calls s = ys) (askR f) (\<lambda>_ s. rp_calls s = ys) Q" for ys Q and f :: "nat \<Rightarrow> u64"
    by (simp add: valid_def askR_def)
  have next_attempt: "valid (\<lambda>s. rp_calls s = xs @ [url]) (attempt_loop E cfg C p url j n) (\<lambda>_. ?R) (\<lambda>_. ?R)" for j
    by (rule valid_conseq [OF Suc.IH]) (auto intro: more)
  show ?case
    unfolding attempt_loop.simps
    by (intro valid_bind [OF valid_attempt [OF invoke_calls]] valid_case_sum valid_if valid_throw valid_return
        valid_bind [OF ask] next_attempt once)
qed

lemma try_with_retries_calls:
  "valid (\<lambda>s. rp_calls s = xs) (try_with_retries E cfg C p url)
     (\<lambda>_ s. round_calls (max 1 (unat (rt_max_retries cfg))) xs url (rp_calls s))
     (\<lambda>_ s. round_calls (max 1 (unat (rt_max_retries cfg))) xs url (rp_calls s))"
proof (cases "rt_max_retries cfg \<le> 1")
  case True
  have "round_calls (max 1 (unat (rt_max_retries cfg))) xs url (rp_calls s)" if "rp_calls s = xs @ [url]" for s
    using that by (auto simp: round_calls_def intro!: bexI [of _ 1])
  then show ?thesis
    unfolding try_with_retries_def using True
    by (simp) (rule valid_map_err, rule valid_conseq [OF invoke_calls])
next
  case False
  then have "Suc (unat (rt_max_retries cfg) - 1) = max 1 (unat (rt_max_retries cfg))"
    by (simp add: word_le_nat_alt)
  then show ?thesis
    unfolding try_with_retries_def using False attempt_calls [of xs E cfg C p url 0 "unat (rt_max_retries cfg) - 1"] by simp
qed


text \<open>
  The calls of a failover cycle: rounds at different endpoints, none of them tried before, each of at least
  one and at most \<open>retries\<close> calls.
\<close>

definition rounds :: "rpc_selector \<Rightarrow> nat \<Rightarrow> string set \<Rightarrow> nat \<Rightarrow> string list \<Rightarrow> string list \<Rightarrow> bool" where
  "rounds S retries tried n xs ys \<longleftrightarrow> (\<exists>rs. ys = xs @ concat (map (\<lambda>(url, j). replicate j url) rs)
     \<and> distinct (map fst rs) \<and> set (map fst rs) \<subseteq> usable_urls S - tried \<and> length rs \<le> n
     \<and> (\<forall>(url, j) \<in> set rs. j \<in> {1..retries}))"

lemma rounds_none: "rounds S retries tried n xs xs"
  unfolding rounds_def by (rule exI [of _ "[]"]) simp

lemma rounds_more:
  assumes "round_calls retries xs url zs" "url \<in> usable_urls S" "url \<notin> tried"
    "rounds S retries (insert url tried) n zs ys"
  shows "rounds S retries tried (Suc n) xs ys"
proof -
  from assms(1) obtain j where j: "j \<in> {1..retries}" "zs = xs @ replicate j url"
    unfolding round_calls_def by blast
  from assms(4) obtain rs where rs: "ys = zs @ concat (map (\<lambda>(url, j). replicate j url) rs)"
    "distinct (map fst rs)" "set (map fst rs) \<subseteq> usable_urls S - insert url tried" "length rs \<le> n"
    "\<forall>(url, j) \<in> set rs. j \<in> {1..retries}"
    unfolding rounds_def by blast
  show ?thesis
    unfolding rounds_def by (rule exI [of _ "(url, j) # rs"]) (use j rs assms(2,3) in auto)
qed

lemma rounds_Suc: "rounds S retries tried n xs ys \<Longrightarrow> rounds S retries tried (Suc n) xs ys"
  unfolding rounds_def using le_SucI by blast

lemma rounds_length:
  assumes "rounds S retries tried n xs ys"
  shows "length ys \<le> length xs + n * retries"
proof -
  from assms obtain rs where rs: "ys = xs @ concat (map (\<lambda>(url, j). replicate j url) rs)" "length rs \<le> n"
    "\<forall>(url, j) \<in> set rs. j \<in> {1..retries}"
    unfolding rounds_def by blast
  have "length (concat (map (\<lambda>(url, j). replicate j url) rs)) \<le> length rs * retries"
    using rs(3) by (induction rs) auto
  also have "\<dots> \<le> n * retries"
    using rs(2) by simp
  finally show ?thesis
    by (simp add: rs(1))
qed

lemma calls_cases:
  "(\<And>ys. F ys \<Longrightarrow> valid (\<lambda>s. rp_calls s = ys) m Q E) \<Longrightarrow> valid (\<lambda>s. F (rp_calls s)) m Q E"
  by (auto simp: valid_def)

lemma valid_case_retry:
  "(\<And>e. r = NonRetriable e \<Longrightarrow> valid P (f e) Q E) \<Longrightarrow> (\<And>e. r = RetriesExhausted e \<Longrightarrow> valid P (g e) Q E) \<Longrightarrow>
   valid P (case r of NonRetriable e \<Rightarrow> f e | RetriesExhausted e \<Rightarrow> g e) Q E"
  by (cases r) auto

lemma final_error_calls: "valid P (final_error C e k) Q (\<lambda>_. P)"
  unfolding final_error_def by (auto simp: valid_def eff_defs split: option.splits)

lemma failover_calls:
  assumes "samples_in_range E S"
  shows "valid (\<lambda>s. rp_calls s = xs) (failover_loop E S cfg C tried last_error k n)
    (\<lambda>_ s. rounds S (max 1 (unat (rt_max_retries cfg))) tried n xs (rp_calls s))
    (\<lambda>_ s. rounds S (max 1 (unat (rt_max_retries cfg))) tried n xs (rp_calls s))"
proof (induction n arbitrary: xs tried last_error k)
  case 0
  show ?case
    unfolding failover_loop.simps by (rule valid_conseq [OF final_error_calls]) (auto simp: rounds_none)
next
  case (Suc n)
  let ?r = "max 1 (unat (rt_max_retries cfg))"
  let ?R = "\<lambda>s. rounds S ?r tried (Suc n) xs (rp_calls s)"
  have final: "valid (\<lambda>s. rp_calls s = xs) (final_error C e k) (\<lambda>_. ?R) (\<lambda>_. ?R)" for e k
    by (rule valid_conseq [OF final_error_calls [where Q = "\<lambda>_. ?R"]]) (auto simp: rounds_none)
  have skip: "valid (\<lambda>s. rp_calls s = xs) (failover_loop E S cfg C tried e k n) (\<lambda>_. ?R) (\<lambda>_. ?R)" for e k
    by (rule valid_conseq [OF Suc.IH]) (auto intro: rounds_Suc)
  have called: "?R s" if "round_calls ?r xs url (rp_calls s)" "url \<in> usable_urls S" "url \<notin> tried" for s url
    using that rounds_none by (rule rounds_more)
  have onward: "valid (\<lambda>s. round_calls ?r xs url (rp_calls s)) (failover_loop E S cfg C (insert url tried) e k n) (\<lambda>_. ?R) (\<lambda>_. ?R)"
    if "url \<in> usable_urls S" "url \<notin> tried" for url e k
    by (rule calls_cases, rule valid_conseq [OF Suc.IH]) (use that in \<open>auto intro: rounds_more\<close>)
  have round: "valid (\<lambda>s. rp_calls s = xs) (bindM (attemptM (try_with_retries E cfg C p url)) (\<lambda>result. case result of
            Inr x \<Rightarrow> returnM x
          | Inl (NonRetriable e) \<Rightarrow>
              thenM (whenM (ca_should_mark_provider_failed C e) (mark_current_as_failed E S)) (throwM e)
          | Inl (RetriesExhausted e) \<Rightarrow>
              thenM (mark_current_as_failed E S)
                (failover_loop E S cfg C (insert url tried) (Some e) (k + 1) n))) (\<lambda>_. ?R) (\<lambda>_. ?R)"
    if "url \<in> usable_urls S" "url \<notin> tried" for p url
    by (intro valid_bind [OF valid_attempt [OF try_with_retries_calls]] valid_case_sum valid_case_retry valid_return
        valid_then [OF valid_when [OF mark_current_calls]] valid_then [OF mark_current_calls] valid_throw onward that)
      (use that called in auto)
  have pick: "valid (\<lambda>s. rp_calls s = xs) (attemptM (get_provider E S C tried))
      (\<lambda>r s. rp_calls s = xs \<and> (\<forall>p url. r = Inr (p, url) \<longrightarrow> url \<in> usable_urls S \<and> url \<notin> tried)) (\<lambda>_. ?R)"
    by (rule valid_attempt, rule valid_conseq [OF get_provider_calls [OF assms]]) auto
  show ?case
    unfolding failover_loop.simps
    by (intro valid_if final valid_bind [OF pick] valid_fact valid_case_sum valid_case_prod valid_then [OF mark_current_calls]
        skip round) simp_all
qed

text \<open>C13: A call is made in at most one round per endpoint and per permitted failover. Every round calls one
  configured endpoint that has a weight, no endpoint has two rounds, and a round consists of at least one call and
  at most the configured attempts. Hence the calls of one request are bounded by the configuration whatever the
  nodes answer. The sampled index is assumed to be in range, as the random number library promises.\<close>

theorem retry_calls_bounded:
  assumes "samples_in_range E S" and "retry_rpc_call E S cfg C s = (result, s')"
  shows "(\<exists>rs. rp_calls s' = rp_calls s @ concat (map (\<lambda>(url, j). replicate j url) rs)
      \<and> distinct (map fst rs) \<and> set (map fst rs) \<subseteq> usable_urls S \<and> length rs \<le> max_failovers cfg S + 1
      \<and> (\<forall>(url, j) \<in> set rs. j \<in> {1..max 1 (unat (rt_max_retries cfg))}))
    \<and> length (rp_calls s') \<le> length (rp_calls s) + (max_failovers cfg S + 1) * max 1 (unat (rt_max_retries cfg))"
proof -
  let ?R = "\<lambda>t. rounds S (max 1 (unat (rt_max_retries cfg))) {} (max_failovers cfg S + 1) (rp_calls s) (rp_calls t)"
  have "valid (\<lambda>t. rp_calls t = rp_calls s) (retry_rpc_call E S cfg C) (\<lambda>_. ?R) (\<lambda>_. ?R)"
    unfolding retry_rpc_call_def Suc_eq_plus1
    by (rule valid_then [OF _ failover_calls [OF assms(1)]]) (rule valid_modify, simp)
  from valid_snd [OF this, of s] have "?R s'"
    by (simp add: assms(2))
  from rounds_length [OF this] this show ?thesis
    unfolding rounds_def by simp
qed


section \<open>What a failover achieves\<close>

definition healthy :: "('p, 'e, 'a) rpc_call \<Rightarrow> string \<Rightarrow> bool" where
  "healthy C url \<longleftrightarrow> (\<forall>p t. ca_provider_initializer C url = Inr p \<longrightarrow> (\<exists>x. ca_operation C t p = Inr x))"

definition transient :: "('p, 'e, 'a) rpc_call \<Rightarrow> bool" where
  "transient C \<longleftrightarrow> (\<forall>p t e. ca_operation C t p = Inl e \<longrightarrow> ca_is_retriable_error C e)"

lemma get_provider_succeeds:
  assumes "samples_in_range E S" "\<not> usable_urls S \<subseteq> excluded" "\<forall>url \<in> usable_urls S. \<exists>p. ca_provider_initializer C url = Inr p"
  shows "valid (\<lambda>_. True) (get_provider E S C excluded)
    (\<lambda>(p, url) _. url \<in> usable_urls S \<and> url \<notin> excluded \<and> ca_provider_initializer C url = Inr p) (\<lambda>_ _. False)"
  unfolding get_provider_def get_client_url
proof (rule valid_bind [OF valid_map_err])
  show "valid (\<lambda>_. True) (select_url_internal E S excluded) (selected S excluded) (\<lambda>_ _. False)"
    by (rule validI) (use valid_Inr [OF select_calls [OF assms(1)] refl] valid_Inl [OF select_calls [OF assms(1)] refl] assms(2)
        in blast)+
next
  fix url
  show "valid (selected S excluded url) (bindM (liftR (ca_provider_initializer C url)) (\<lambda>p. returnM (p, url)))
    (\<lambda>(p, url) _. url \<in> usable_urls S \<and> url \<notin> excluded \<and> ca_provider_initializer C url = Inr p) (\<lambda>_ _. False)"
  proof (cases "url \<in> usable_urls S")
    case True
    then show ?thesis
      using assms(3) by (auto simp: valid_def eff_defs selected_def eligible_def dest!: bspec)
  next
    case False
    then have "\<not> selected S excluded url s" for s
      by (auto simp: selected_def eligible_def usable_urls_def provider_count_def)
    then show ?thesis
      by (simp add: valid_def)
  qed
qed

lemma attempt_exhausts:
  assumes "transient C"
  shows "valid (\<lambda>_. True) (attempt_loop E cfg C p url i n) (\<lambda>_ _. True) (\<lambda>r _. (\<exists>e. r = RetriesExhausted e) \<and> (\<exists>t e. ca_operation C t p = Inl e))"
proof (induction n arbitrary: i)
  case 0
  show ?case
    using assms by (auto simp: valid_def eff_defs invoke_def transient_def split: sum.splits)
next
  case (Suc n)
  have call: "valid (\<lambda>_. True) (attemptM (invoke C p url)) (\<lambda>r s. True \<and> (\<forall>e. r = Inl e \<longrightarrow> ca_is_retriable_error C e)) Q" for Q
    using assms by (auto simp: valid_def eff_defs invoke_def transient_def split: sum.splits)
  have ask: "valid (\<lambda>_. True) (askR f) (\<lambda>_ _. True) Q" for Q and f :: "nat \<Rightarrow> u64"
    by (simp add: valid_def askR_def)
  show ?case
    unfolding attempt_loop.simps
    by (intro valid_bind [OF call] valid_fact valid_case_sum valid_if valid_throw valid_return valid_bind [OF ask] Suc.IH) auto
qed

lemma try_with_retries_exhausts:
  assumes "transient C" "rt_max_retries cfg > 1"
  shows "valid (\<lambda>_. True) (try_with_retries E cfg C p url) (\<lambda>_ _. True)
    (\<lambda>r _. (\<exists>e. r = RetriesExhausted e) \<and> (\<exists>t e. ca_operation C t p = Inl e))"
  unfolding try_with_retries_def using assms attempt_exhausts by auto

lemma finite_usable: "finite (usable_urls S)"
  by (simp add: usable_urls_def)

lemma mark_succeeds: "valid (\<lambda>_. True) (mark_current_as_failed E S) (\<lambda>_ _. True) Q"
  by (rule valid_conseq [OF mark_current_calls [where F = "\<lambda>_. True"]]) auto

lemma failover_succeeds:
  assumes "samples_in_range E S" "transient C" "rt_max_retries cfg > 1"
    "\<forall>url \<in> usable_urls S. \<exists>p. ca_provider_initializer C url = Inr p" "healthy C u" "u \<in> usable_urls S"
  shows "u \<notin> tried \<Longrightarrow> card (usable_urls S - tried) \<le> n \<Longrightarrow>
    valid (\<lambda>_. True) (failover_loop E S cfg C tried last_error k n) (\<lambda>_ _. True) (\<lambda>_ _. False)"
proof (induction n arbitrary: tried last_error k)
  case 0
  then show ?case
    using assms(6) finite_usable [of S] by auto
next
  case (Suc n)
  have "provider_count S \<noteq> 0"
    using assms(6) by (auto simp: usable_urls_def provider_count_def)
  have pick: "valid (\<lambda>_. True) (attemptM (get_provider E S C tried))
      (\<lambda>r s. True \<and> (\<exists>p url. r = Inr (p, url) \<and> url \<in> usable_urls S \<and> url \<notin> tried \<and> ca_provider_initializer C url = Inr p))
      Q" for Q
    by (rule valid_attempt, rule valid_conseq [OF get_provider_succeeds [OF assms(1) _ assms(4)]]) (use Suc.prems assms(6) in auto)
  have ok: False if "ca_provider_initializer C u = Inr p" "ca_operation C t p = Inl e" for p t e
    using that assms(5) unfolding healthy_def by (metis Inl_Inr_False)
  have attempt: "valid (\<lambda>_. True) (attemptM (try_with_retries E cfg C p url))
      (\<lambda>r s. True \<and> (\<forall>x. r = Inl x \<longrightarrow> (\<exists>e. x = RetriesExhausted e) \<and> url \<noteq> u)) Q"
    if "ca_provider_initializer C url = Inr p" for p url Q
    by (rule valid_attempt, rule valid_conseq [OF try_with_retries_exhausts [OF assms(2,3)]])
      (use that ok in blast)+
  have onward: "valid (\<lambda>_. True) (failover_loop E S cfg C (insert url tried) e k n) (\<lambda>_ _. True) (\<lambda>_ _. False)"
    if "url \<noteq> u" "url \<in> usable_urls S" "url \<notin> tried" for url e k
  proof (rule Suc.IH)
    have "Suc (card (usable_urls S - tried - {url})) = card (usable_urls S - tried)"
      by (rule card_Suc_Diff1) (use that finite_usable [of S] in auto)
    with Suc.prems(2) show "card (usable_urls S - insert url tried) \<le> n"
      by (metis Diff_insert Suc_le_mono)
  qed (use Suc.prems that in auto)
  show ?case
    unfolding failover_loop.simps
    by (intro valid_if valid_bind [OF pick] valid_fact valid_case_sum valid_case_prod valid_bind [OF attempt] valid_case_retry
        valid_return valid_then [OF mark_succeeds] onward) (use \<open>provider_count S \<noteq> 0\<close> in auto)
qed



text \<open>C20: A selection fails exactly when no endpoint is left that has a weight and is not excluded, and otherwise
  makes such an endpoint the current one, without calling a node. If the selected endpoint counts as paused at every
  reading of the clock from the start of the selection to its end, then no endpoint that could have been selected
  counts as not paused at every one of them. Nothing is assumed of the clock; the index sampled from the weights is
  one of the list.\<close>

theorem selection_exact:
  assumes "samples_in_range E S"
  shows "case select_url_internal E S excluded s of
      (Inr url, s') \<Rightarrow> selected S excluded url s' \<and> rp_calls s' = rp_calls s
        \<and> (\<forall>i. steady E S (rp_tick s) (rp_tick s') True (rp_health s url) \<and> eligible S excluded i \<longrightarrow>
             \<not> steady E S (rp_tick s) (rp_tick s') False (rp_health s (rpc_url (sel_configs S ! i))))
    | (Inl e, s') \<Rightarrow> (\<forall>i. \<not> eligible S excluded i) \<and> e = (if sel_configs S = [] then NoProviders else AllProvidersFailed)"
  using valid_run [OF select_valid [OF assms] sel_inv_start, of s excluded]
  by (auto simp: chosen_def none_left_def seen_paused_def split: prod.splits sum.splits)

text \<open>C28: The pause check answers whether the endpoint is paused: its pause still lasts and the failures within the
  expiration window reach the threshold. The clean-up it does on the way cannot be observed: at no later time
  does any endpoint count as paused that would not have without it, or the other way round.\<close>

theorem pause_check_exact:
  fixes r :: "'e + bool"
  assumes "is_paused E url threshold expiration s = (r, s')" "re_now E (rp_tick s) \<le> later"
  shows "r = Inr (paused_at (re_now E (rp_tick s)) threshold expiration (rp_health s url))
    \<and> paused_at later any_threshold expiration (rp_health s' other) = paused_at later any_threshold expiration (rp_health s other)"
proof -
  obtain h where "(is_paused E url threshold expiration s :: ('e + bool) \<times> rpc_state)
      = (Inr (paused_at (re_now E (rp_tick s)) threshold expiration (rp_health s url)),
         s\<lparr> rp_tick := Suc (rp_tick s), rp_health := (rp_health s)(url := h) \<rparr>)"
    "paused_at later any_threshold expiration h = paused_at later any_threshold expiration (rp_health s url)"
    using is_paused_result assms(2) by blast
  with assms(1) show ?thesis
    by (cases "other = url") auto
qed

section \<open>Witnesses\<close>

definition ex_rpc_env :: rpc_env where
  "ex_rpc_env = \<lparr> re_now = (\<lambda>_. 100), re_weighted_index = (\<lambda>_. True), re_sample = (\<lambda>_ _. 0),
     re_jitter_range = (\<lambda>d. d div 5), re_random_range = (\<lambda>_ n. n), re_random_bool = (\<lambda>_. True) \<rparr>"

definition ex_rpc_selector :: rpc_selector where
  "ex_rpc_selector = \<lparr> sel_configs = [\<lparr> rpc_url = ''a'', rpc_weight = 1 \<rparr>, \<lparr> rpc_url = ''b'', rpc_weight = 2 \<rparr>],
     sel_weights_dist = Some [1, 2], sel_failure_threshold = 1, sel_pause_duration_secs = 60, sel_failure_expiration_secs = 60 \<rparr>"

definition ex_rpc_state :: rpc_state where
  "ex_rpc_state = \<lparr> rp_health = (\<lambda>_. None)(''a'' \<mapsto> \<lparr> failure_timestamps = [10], paused_until = Some 90 \<rparr>),
     rp_next_index = 0, rp_current_index = 0, rp_has_current = False, rp_total_attempts = 0, rp_calls = [], rp_tick = 0 \<rparr>"

definition ex_rpc_call :: "(string, string, nat) rpc_call" where
  "ex_rpc_call = \<lparr> ca_operation_name = ''get_balance'', ca_is_retriable_error = (\<lambda>_. True),
     ca_should_mark_provider_failed = (\<lambda>_. True), ca_provider_initializer = Inr,
     ca_operation = (\<lambda>_ p. if p = ''b'' then Inr 7 else Inl ''down''), ca_of_string = (\<lambda>m. m) \<rparr>"

definition ex_retry_config :: retry_config where
  "ex_retry_config = \<lparr> rt_max_retries = 2, rt_max_failovers = 1, rt_base_delay_ms = 0, rt_max_delay_ms = 0 \<rparr>"

lemmas ex_rpc_defs = ex_rpc_env_def ex_rpc_selector_def ex_rpc_state_def ex_rpc_call_def ex_retry_config_def

theorem retry_calls_bounded_witness:
  "length (rp_calls (snd (retry_rpc_call ex_rpc_env ex_rpc_selector ex_retry_config ex_rpc_call ex_rpc_state))) \<le> 4"
proof -
  have "samples_in_range ex_rpc_env ex_rpc_selector"
    by (simp add: ex_rpc_defs provider_count_def)
  from retry_calls_bounded [OF this prod.collapse [symmetric], of ex_retry_config ex_rpc_call ex_rpc_state] show ?thesis
    by (simp add: max_failovers_def provider_count_def) (simp add: ex_rpc_defs)
qed


definition ex_rpc_paused :: rpc_state where
  "ex_rpc_paused = ex_rpc_state\<lparr> rp_health := (\<lambda>_. None)(''a'' \<mapsto> \<lparr> failure_timestamps = [90], paused_until = Some 150 \<rparr>) \<rparr>"

theorem selection_exact_witness:
  "\<exists>s'. select_url_internal ex_rpc_env ex_rpc_selector {} ex_rpc_paused = (Inr ''b'', s') \<and> rp_calls s' = []"
proof -
  have "samples_in_range ex_rpc_env ex_rpc_selector"
    by (simp add: ex_rpc_defs provider_count_def)
  note sel = selection_exact [OF this, of "{}" ex_rpc_paused]
  have e: "eligible ex_rpc_selector {} 0" "eligible ex_rpc_selector {} 1"
    by (simp_all add: eligible_def provider_count_def ex_rpc_defs)
  have steady: "steady ex_rpc_env ex_rpc_selector 0 b True (rp_health ex_rpc_paused ''a'')"
    "steady ex_rpc_env ex_rpc_selector 0 b False (rp_health ex_rpc_paused ''b'')" for b
    by (simp_all add: steady_def paused_at_def within_pause_def duration_secs_def secs_def wrap_i64_def ex_rpc_paused_def ex_rpc_defs)
  obtain x s' where run: "select_url_internal ex_rpc_env ex_rpc_selector {} ex_rpc_paused = (x, s')"
    by fastforce
  have tick: "rp_tick ex_rpc_paused = 0" "rp_calls ex_rpc_paused = []" "rpc_url (sel_configs ex_rpc_selector ! 1) = ''b''"
    by (simp_all add: ex_rpc_paused_def ex_rpc_defs)
  obtain url where url: "x = Inr url"
    using sel e(1) by (cases x) (auto simp: run)
  have post: "selected ex_rpc_selector {} url s'" "rp_calls s' = []"
    "steady ex_rpc_env ex_rpc_selector 0 (rp_tick s') True (rp_health ex_rpc_paused url) \<Longrightarrow>
       \<not> steady ex_rpc_env ex_rpc_selector 0 (rp_tick s') False (rp_health ex_rpc_paused ''b'')"
    using sel e(2) tick(3) by (auto simp: run url tick(1,2))
  then have "url \<noteq> ''a''"
    using steady by blast
  moreover from post(1) have "url = ''a'' \<or> url = ''b''"
    by (auto simp: selected_def eligible_def provider_count_def ex_rpc_selector_def less_Suc_eq)
  ultimately show ?thesis
    using run url post(2) by auto
qed

theorem pause_check_exact_witness:
  "\<exists>s'. is_paused ex_rpc_env ''a'' 1 60 ex_rpc_state = (Inr False :: string + bool, s')
     \<and> paused_at 120 1 60 (rp_health s' ''a'') = paused_at 120 1 60 (rp_health ex_rpc_state ''a'')"
proof (cases "is_paused ex_rpc_env ''a'' 1 60 ex_rpc_state :: (string + bool) \<times> rpc_state")
  case (Pair r s')
  have "re_now ex_rpc_env (rp_tick ex_rpc_state) \<le> 120"
    by (simp add: ex_rpc_defs)
  with pause_check_exact [OF Pair] have "r = Inr (paused_at 100 1 60 (rp_health ex_rpc_state ''a''))"
    "paused_at 120 1 60 (rp_health s' ''a'') = paused_at 120 1 60 (rp_health ex_rpc_state ''a'')"
    by (auto simp: ex_rpc_env_def)
  moreover have "\<not> paused_at 100 1 60 (rp_health ex_rpc_state ''a'')"
    by (simp add: paused_at_def within_pause_def ex_rpc_defs)
  ultimately show ?thesis
    using Pair by simp
qed

end
