(* ===== verification/Evm_Provider.thy ===== *)
theory Evm_Provider
  imports Job_Handlers Rpc_Provider
begin

text \<open>
  The EVM provider (\<open>services/provider/evm/mod.rs\<close>): its construction from the configured
  endpoints, the conversion of node errors (\<open>services/provider/mod.rs\<close>) and every operation, each
  of which is one call with retries and failover. The node client, the parsers of the client library,
  the HTTP client and the check of a URL against private addresses are parameters, collected in a
  record. The answer of a node to a call is a function of the tick.
\<close>

section \<open>Endpoint configuration\<close>

definition DEFAULT_RPC_WEIGHT :: u8 where "DEFAULT_RPC_WEIGHT = 100"

definition new_rpc_config :: "string \<Rightarrow> rpc_config" where
  "new_rpc_config url = \<lparr> rpc_url = url, rpc_weight = DEFAULT_RPC_WEIGHT \<rparr>"

text \<open>The error \<open>InvalidWeight\<close> carries the weight.\<close>

definition with_weight :: "string \<Rightarrow> u8 \<Rightarrow> u8 + rpc_config" where
  "with_weight url weight = (if weight > 100 then Inl weight else Inr \<lparr> rpc_url = url, rpc_weight = weight \<rparr>)"

definition validate_url_scheme :: "string \<Rightarrow> string + unit" where
  "validate_url_scheme url =
     (if \<not> starts_with ''http://'' url \<and> \<not> starts_with ''https://'' url
      then Inl (''Invalid URL scheme for '' @ url @ '': Only HTTP and HTTPS are supported'') else Inr ())"

fun validate_list :: "rpc_config list \<Rightarrow> string + unit" where
  "validate_list [] = Inr ()"
| "validate_list (c # cs) = (case validate_url_scheme (rpc_url c) of Inl e \<Rightarrow> Inl e | Inr _ \<Rightarrow> validate_list cs)"

record server_settings =
  sv_rpc_timeout_ms :: u64
  sv_provider_max_retries :: u8
  sv_provider_retry_base_delay_ms :: u64
  sv_provider_retry_max_delay_ms :: u64
  sv_provider_max_failovers :: u8
  sv_provider_failure_threshold :: u32
  sv_provider_pause_duration_secs :: u64
  sv_provider_failure_expiration_secs :: u64

record provider_config =
  pc_rpc_configs :: "rpc_config list"
  pc_timeout_seconds :: u64
  pc_failure_threshold :: u32
  pc_pause_duration_secs :: u64
  pc_failure_expiration_secs :: u64

definition from_server_config :: "server_settings \<Rightarrow> rpc_config list \<Rightarrow> provider_config" where
  "from_server_config sv configs =
     \<lparr> pc_rpc_configs = configs, pc_timeout_seconds = sv_rpc_timeout_ms sv div 1000,
       pc_failure_threshold = sv_provider_failure_threshold sv,
       pc_pause_duration_secs = sv_provider_pause_duration_secs sv,
       pc_failure_expiration_secs = sv_provider_failure_expiration_secs sv \<rparr>"

definition retry_config_from_env :: "server_settings \<Rightarrow> retry_config option" where
  "retry_config_from_env sv = new_retry_config (sv_provider_max_retries sv) (sv_provider_max_failovers sv)
     (sv_provider_retry_base_delay_ms sv) (sv_provider_retry_max_delay_ms sv)"

section \<open>Errors of a node\<close>

text \<open>
  What the HTTP client reports of an error, and the errors of the RPC client: of the transport, which
  may be an HTTP error, a JSON-RPC error response, or another one, of which only the text is used.
\<close>

record reqwest_error =
  rq_is_timeout :: bool
  rq_status :: "nat option"
  rq_text :: string

datatype rpc_error = Transport "reqwest_error + string" | ErrorResp int string "string option" | OtherRpcError string

definition categorize_reqwest_error :: "reqwest_error \<Rightarrow> provider_error" where
  "categorize_reqwest_error err =
     (if rq_is_timeout err then Timeout
      else case rq_status err of
        Some code \<Rightarrow> (if code = 429 then RateLimited else if code = 502 then BadGateway
                        else RequestError (rq_text err) code)
      | None \<Rightarrow> OtherProviderError (rq_text err))"

fun provider_error_of_rpc_error :: "(string \<Rightarrow> string option) \<Rightarrow> rpc_error \<Rightarrow> provider_error" where
  "provider_error_of_rpc_error json (Transport (Inl err)) = categorize_reqwest_error err"
| "provider_error_of_rpc_error json (Transport (Inr text)) = TransportError text"
| "provider_error_of_rpc_error json (ErrorResp code message data) =
     RpcErrorCode code message (case data of Some raw \<Rightarrow> json raw | None \<Rightarrow> None)"
| "provider_error_of_rpc_error json (OtherRpcError text) = OtherProviderError (''Other RPC error: '' @ text)"

definition provider_error_of_selector_error :: "rpc_selector_error \<Rightarrow> provider_error" where
  "provider_error_of_selector_error err = PNetworkConfiguration (''RPC selector error: '' @ show_rpc_selector_error err)"

section \<open>Requests\<close>

datatype tx_kind = Call "u8 list" | Create

record transaction_request =
  tr_from :: "u8 list"
  tr_to :: tx_kind
  tr_gas_price :: "u128 option"
  tr_value :: u256
  tr_input :: "u8 list"
  tr_nonce :: "u64 option"
  tr_chain_id :: u64
  tr_max_fee_per_gas :: "u128 option"
  tr_max_priority_fee_per_gas :: "u128 option"

text \<open>
  The parameters. \<open>al_revert_data\<close> is what the client library reads as the revert payload of an
  error response. Blocks, fee histories, their arguments and JSON values are not inspected and
  given as strings.
\<close>

record 'p alloy =
  al_parse_address :: "string \<Rightarrow> string + u8 list"
  al_parse_hash :: "string \<Rightarrow> string + u8 list"
  al_parse_bytes :: "string \<Rightarrow> string + u8 list"
  al_json :: "string \<Rightarrow> string option"
  al_validate_safe_url :: "string \<Rightarrow> string + unit"
  al_parse_url :: "string \<Rightarrow> string + unit"
  al_connect :: "string \<Rightarrow> u64 \<Rightarrow> provider_error + 'p"
  al_get_balance :: "nat \<Rightarrow> 'p \<Rightarrow> u8 list \<Rightarrow> rpc_error + u256"
  al_get_block_number :: "nat \<Rightarrow> 'p \<Rightarrow> rpc_error + u64"
  al_estimate_gas :: "nat \<Rightarrow> 'p \<Rightarrow> transaction_request \<Rightarrow> rpc_error + u64"
  al_get_gas_price :: "nat \<Rightarrow> 'p \<Rightarrow> rpc_error + u128"
  al_send_transaction :: "nat \<Rightarrow> 'p \<Rightarrow> transaction_request \<Rightarrow> rpc_error + string"
  al_send_raw_transaction :: "nat \<Rightarrow> 'p \<Rightarrow> u8 list \<Rightarrow> rpc_error + string"
  al_get_transaction_count :: "nat \<Rightarrow> 'p \<Rightarrow> u8 list \<Rightarrow> rpc_error + u64"
  al_get_block :: "nat \<Rightarrow> 'p \<Rightarrow> rpc_error + string option"
  al_get_transaction_receipt :: "nat \<Rightarrow> 'p \<Rightarrow> u8 list \<Rightarrow> rpc_error + evm_receipt option"
  al_call :: "nat \<Rightarrow> 'p \<Rightarrow> transaction_request \<Rightarrow> u64 option \<Rightarrow> rpc_error + u8 list"
  al_revert_data :: "rpc_error \<Rightarrow> u8 list option"
  al_get_fee_history :: "nat \<Rightarrow> 'p \<Rightarrow> u64 \<Rightarrow> string \<Rightarrow> string \<Rightarrow> rpc_error + string"
  al_to_raw_value :: "string \<Rightarrow> string + string"
  al_raw_request :: "nat \<Rightarrow> 'p \<Rightarrow> string \<Rightarrow> string \<Rightarrow> rpc_error + string"
  al_from_str :: "string \<Rightarrow> string + string"

definition data_to_bytes :: "'p alloy \<Rightarrow> evm_transaction_data \<Rightarrow> string + u8 list" where
  "data_to_bytes A d = (case al_parse_bytes A (case evm_data d of Some s \<Rightarrow> s | None \<Rightarrow> []) of
     Inl e \<Rightarrow> Inl (''Failed to sign transaction: Invalid transaction data: '' @ e) | Inr bytes \<Rightarrow> Inr bytes)"

text \<open>Widening a price or a nonce to 256 bits and narrowing it again never fails.\<close>

definition request_of_data :: "'p alloy \<Rightarrow> evm_transaction_data \<Rightarrow> transaction_error + transaction_request" where
  "request_of_data A d =
     (case (case evm_to d of
              Some address \<Rightarrow> (case al_parse_address A address of
                Inl _ \<Rightarrow> Inl (InvalidType ''Invalid address format'') | Inr a \<Rightarrow> Inr (Call a))
            | None \<Rightarrow> Inr Create) of
        Inl e \<Rightarrow> Inl e
      | Inr target \<Rightarrow> (case al_parse_address A (evm_from d) of
          Inl _ \<Rightarrow> Inl (InvalidType ''Invalid address format'')
        | Inr sender \<Rightarrow> (case data_to_bytes A d of
            Inl e \<Rightarrow> Inl (SignerError e)
          | Inr input \<Rightarrow> Inr \<lparr> tr_from = sender, tr_to = target, tr_gas_price = gas_price d, tr_value = evm_value d,
              tr_input = input, tr_nonce = nonce d, tr_chain_id = chain_id d, tr_max_fee_per_gas = max_fee_per_gas d,
              tr_max_priority_fee_per_gas = max_priority_fee_per_gas d \<rparr>)))"

section \<open>The provider\<close>

record evm_provider =
  ep_selector :: rpc_selector
  ep_timeout_seconds :: u64
  ep_retry_config :: retry_config

definition new_evm_provider ::
  "rpc_env \<Rightarrow> server_settings \<Rightarrow> provider_config \<Rightarrow> (provider_error + evm_provider) option" where
  "new_evm_provider E sv config =
     (if pc_rpc_configs config = []
      then Some (Inl (PNetworkConfiguration ''At least one RPC configuration must be provided''))
      else case validate_list (pc_rpc_configs config) of
        Inl e \<Rightarrow> Some (Inl (PNetworkConfiguration (''Invalid URL: '' @ e)))
      | Inr _ \<Rightarrow> (case new_selector E (pc_rpc_configs config) (pc_failure_threshold config)
                      (pc_pause_duration_secs config) (pc_failure_expiration_secs config) of
          Inl e \<Rightarrow> Some (Inl (PNetworkConfiguration (''Failed to create RPC selector: '' @ show_rpc_selector_error e)))
        | Inr S \<Rightarrow> map_option (\<lambda>cfg. Inr \<lparr> ep_selector = S, ep_timeout_seconds = pc_timeout_seconds config,
              ep_retry_config = cfg \<rparr>) (retry_config_from_env sv)))"

definition get_network_provider ::
  "rpc_env \<Rightarrow> server_settings \<Rightarrow> evm_network \<Rightarrow> rpc_config list option \<Rightarrow> (provider_error + evm_provider) option" where
  "get_network_provider E sv network custom_rpc_urls =
     (let urls = (case custom_rpc_urls of Some configs \<Rightarrow> (if configs \<noteq> [] then configs else net_rpc_urls network)
                  | None \<Rightarrow> net_rpc_urls network)
      in if urls = [] then Some (Inl (PNetworkConfiguration ''No public RPC URLs available for this network''))
         else new_evm_provider E sv (from_server_config sv urls))"

definition initialize_provider :: "'p alloy \<Rightarrow> evm_provider \<Rightarrow> string \<Rightarrow> provider_error + 'p" where
  "initialize_provider A pv url = (case al_validate_safe_url A url of
     Inl e \<Rightarrow> Inl (PNetworkConfiguration (''RPC URL security validation failed: '' @ e))
   | Inr _ \<Rightarrow> (case al_parse_url A url of
       Inl e \<Rightarrow> Inl (PNetworkConfiguration (''Invalid URL format: '' @ e))
     | Inr _ \<Rightarrow> al_connect A url (ep_timeout_seconds pv)))"

definition provider_call ::
  "'p alloy \<Rightarrow> evm_provider \<Rightarrow> (provider_error \<Rightarrow> bool) \<Rightarrow> string \<Rightarrow> (nat \<Rightarrow> 'p \<Rightarrow> provider_error + 'a) \<Rightarrow>
     ('p, provider_error, 'a) rpc_call" where
  "provider_call A pv should_mark operation_name operation =
     \<lparr> ca_operation_name = operation_name, ca_is_retriable_error = is_retriable_error,
       ca_should_mark_provider_failed = should_mark, ca_provider_initializer = initialize_provider A pv,
       ca_operation = operation, ca_of_string = OtherProviderError \<rparr>"

definition evm_retry_rpc_call ::
  "rpc_env \<Rightarrow> 'p alloy \<Rightarrow> evm_provider \<Rightarrow> string \<Rightarrow> (nat \<Rightarrow> 'p \<Rightarrow> provider_error + 'a) \<Rightarrow> (provider_error, 'a) rpc_op" where
  "evm_retry_rpc_call E A pv operation_name operation =
     retry_rpc_call E (ep_selector pv) (ep_retry_config pv)
       (provider_call A pv should_mark_provider_failed operation_name operation)"

definition evm_retry_rpc_call_best_effort ::
  "rpc_env \<Rightarrow> 'p alloy \<Rightarrow> evm_provider \<Rightarrow> string \<Rightarrow> (nat \<Rightarrow> 'p \<Rightarrow> provider_error + 'a) \<Rightarrow> (provider_error, 'a) rpc_op" where
  "evm_retry_rpc_call_best_effort E A pv operation_name operation =
     retry_rpc_call E (ep_selector pv) (ep_retry_config pv)
       (provider_call A pv (\<lambda>_. False) operation_name operation)"


section \<open>The operations\<close>

definition answered :: "'p alloy \<Rightarrow> rpc_error + 'a \<Rightarrow> provider_error + 'a" where
  "answered A r = (case r of Inl e \<Rightarrow> Inl (provider_error_of_rpc_error (al_json A) e) | Inr x \<Rightarrow> Inr x)"

definition provider_get_configs :: "evm_provider \<Rightarrow> rpc_config list" where
  "provider_get_configs pv = sel_configs (ep_selector pv)"

definition provider_get_balance :: "rpc_env \<Rightarrow> 'p alloy \<Rightarrow> evm_provider \<Rightarrow> string \<Rightarrow> (provider_error, u256) rpc_op" where
  "provider_get_balance E A pv address = (case al_parse_address A address of
     Inl e \<Rightarrow> throwM (InvalidAddress e)
   | Inr a \<Rightarrow> evm_retry_rpc_call E A pv ''get_balance'' (\<lambda>t p. answered A (al_get_balance A t p a)))"

definition provider_get_block_number :: "rpc_env \<Rightarrow> 'p alloy \<Rightarrow> evm_provider \<Rightarrow> (provider_error, u64) rpc_op" where
  "provider_get_block_number E A pv =
     evm_retry_rpc_call E A pv ''get_block_number'' (\<lambda>t p. answered A (al_get_block_number A t p))"

definition provider_estimate_gas ::
  "rpc_env \<Rightarrow> 'p alloy \<Rightarrow> evm_provider \<Rightarrow> evm_transaction_data \<Rightarrow> (provider_error, u64) rpc_op" where
  "provider_estimate_gas E A pv d = (case request_of_data A d of
     Inl e \<Rightarrow> throwM (OtherProviderError (''Failed to convert transaction: '' @ show_transaction_error e))
   | Inr request \<Rightarrow> evm_retry_rpc_call E A pv ''estimate_gas'' (\<lambda>t p. answered A (al_estimate_gas A t p request)))"

definition provider_get_gas_price :: "rpc_env \<Rightarrow> 'p alloy \<Rightarrow> evm_provider \<Rightarrow> (provider_error, u128) rpc_op" where
  "provider_get_gas_price E A pv =
     evm_retry_rpc_call E A pv ''get_gas_price'' (\<lambda>t p. answered A (al_get_gas_price A t p))"

text \<open>The answer of a node to a submission is given by the transaction hash of the pending transaction.\<close>

definition provider_send_transaction ::
  "rpc_env \<Rightarrow> 'p alloy \<Rightarrow> evm_provider \<Rightarrow> transaction_request \<Rightarrow> (provider_error, string) rpc_op" where
  "provider_send_transaction E A pv request =
     evm_retry_rpc_call E A pv ''send_transaction'' (\<lambda>t p. answered A (al_send_transaction A t p request))"

definition provider_send_raw_transaction ::
  "rpc_env \<Rightarrow> 'p alloy \<Rightarrow> evm_provider \<Rightarrow> u8 list \<Rightarrow> (provider_error, string) rpc_op" where
  "provider_send_raw_transaction E A pv raw =
     evm_retry_rpc_call E A pv ''send_raw_transaction'' (\<lambda>t p. answered A (al_send_raw_transaction A t p raw))"

definition provider_health_check :: "rpc_env \<Rightarrow> 'p alloy \<Rightarrow> evm_provider \<Rightarrow> (provider_error, bool) rpc_op" where
  "provider_health_check E A pv = bindM (provider_get_block_number E A pv) (\<lambda>_. returnM True)"

definition provider_get_transaction_count ::
  "rpc_env \<Rightarrow> 'p alloy \<Rightarrow> evm_provider \<Rightarrow> string \<Rightarrow> (provider_error, u64) rpc_op" where
  "provider_get_transaction_count E A pv address = (case al_parse_address A address of
     Inl e \<Rightarrow> throwM (InvalidAddress e)
   | Inr a \<Rightarrow> evm_retry_rpc_call E A pv ''get_transaction_count'' (\<lambda>t p. answered A (al_get_transaction_count A t p a)))"

definition provider_get_fee_history ::
  "rpc_env \<Rightarrow> 'p alloy \<Rightarrow> evm_provider \<Rightarrow> u64 \<Rightarrow> string \<Rightarrow> string \<Rightarrow> (provider_error, string) rpc_op" where
  "provider_get_fee_history E A pv block_count newest_block reward_percentiles =
     evm_retry_rpc_call E A pv ''get_fee_history''
       (\<lambda>t p. answered A (al_get_fee_history A t p block_count newest_block reward_percentiles))"

definition provider_get_block_by_number :: "rpc_env \<Rightarrow> 'p alloy \<Rightarrow> evm_provider \<Rightarrow> (provider_error, string) rpc_op" where
  "provider_get_block_by_number E A pv =
     bindM (evm_retry_rpc_call E A pv ''get_block_by_number'' (\<lambda>t p. answered A (al_get_block A t p))) (\<lambda>block. case block of
       Some b \<Rightarrow> returnM b | None \<Rightarrow> throwM (OtherProviderError ''Block not found''))"

definition provider_get_transaction_receipt ::
  "rpc_env \<Rightarrow> 'p alloy \<Rightarrow> evm_provider \<Rightarrow> string \<Rightarrow> (provider_error, evm_receipt option) rpc_op" where
  "provider_get_transaction_receipt E A pv tx_hash = (case al_parse_hash A tx_hash of
     Inl e \<Rightarrow> throwM (OtherProviderError (''Invalid transaction hash: '' @ e))
   | Inr h \<Rightarrow> evm_retry_rpc_call E A pv ''get_transaction_receipt'' (\<lambda>t p. answered A (al_get_transaction_receipt A t p h)))"

definition provider_call_contract ::
  "rpc_env \<Rightarrow> 'p alloy \<Rightarrow> evm_provider \<Rightarrow> transaction_request \<Rightarrow> (provider_error, u8 list) rpc_op" where
  "provider_call_contract E A pv request =
     evm_retry_rpc_call E A pv ''call_contract'' (\<lambda>t p. answered A (al_call A t p request None))"

definition raw_request :: "'p alloy \<Rightarrow> string \<Rightarrow> string \<Rightarrow> nat \<Rightarrow> 'p \<Rightarrow> provider_error + string" where
  "raw_request A meth params t p = (case al_to_raw_value A params of
     Inl e \<Rightarrow> Inl (OtherProviderError (''Failed to serialize params: '' @ e))
   | Inr raw \<Rightarrow> (case answered A (al_raw_request A t p meth raw) of
       Inl e \<Rightarrow> Inl e
     | Inr result \<Rightarrow> (case al_from_str A result of
         Inl e \<Rightarrow> Inl (OtherProviderError (''Failed to deserialize result: '' @ e)) | Inr v \<Rightarrow> Inr v)))"

definition raw_request_dyn_inner ::
  "rpc_env \<Rightarrow> 'p alloy \<Rightarrow> evm_provider \<Rightarrow> string \<Rightarrow> string \<Rightarrow> string \<Rightarrow> bool \<Rightarrow> (provider_error, string) rpc_op" where
  "raw_request_dyn_inner E A pv operation_name meth params best_effort =
     (if best_effort then evm_retry_rpc_call_best_effort E A pv operation_name (raw_request A meth params)
      else evm_retry_rpc_call E A pv operation_name (raw_request A meth params))"

definition provider_raw_request_dyn ::
  "rpc_env \<Rightarrow> 'p alloy \<Rightarrow> evm_provider \<Rightarrow> string \<Rightarrow> string \<Rightarrow> (provider_error, string) rpc_op" where
  "provider_raw_request_dyn E A pv meth params = raw_request_dyn_inner E A pv ''raw_request_dyn'' meth params False"

definition provider_raw_request_dyn_best_effort ::
  "rpc_env \<Rightarrow> 'p alloy \<Rightarrow> evm_provider \<Rightarrow> string \<Rightarrow> string \<Rightarrow> (provider_error, string) rpc_op" where
  "provider_raw_request_dyn_best_effort E A pv meth params =
     raw_request_dyn_inner E A pv ''raw_request_dyn_best_effort'' meth params True"

definition revert_answer :: "'p alloy \<Rightarrow> rpc_error + u8 list \<Rightarrow> provider_error + u8 list option" where
  "revert_answer A r = (case r of
     Inr _ \<Rightarrow> Inr None
   | Inl e \<Rightarrow> (case (case e of ErrorResp _ _ _ \<Rightarrow> al_revert_data A e | _ \<Rightarrow> None) of
       Some bytes \<Rightarrow> Inr (Some bytes)
     | None \<Rightarrow> Inl (provider_error_of_rpc_error (al_json A) e)))"

definition provider_get_call_revert_data ::
  "rpc_env \<Rightarrow> 'p alloy \<Rightarrow> evm_provider \<Rightarrow> transaction_request \<Rightarrow> u64 \<Rightarrow> (provider_error, u8 list option) rpc_op" where
  "provider_get_call_revert_data E A pv request block_number =
     evm_retry_rpc_call_best_effort E A pv ''get_call_revert_data''
       (\<lambda>t p. revert_answer A (al_call A t p request (Some block_number)))"

section \<open>Health accounting\<close>

text \<open>The operation of a call decides how an attempt ends; whether errors mark an endpoint does not matter.\<close>

lemma attempt_loop_mark [simp]:
  "attempt_loop E cfg (C\<lparr> ca_should_mark_provider_failed := f \<rparr>) p url i n = attempt_loop E cfg C p url i n"
proof (induction n arbitrary: i)
  case 0
  show ?case
    by (simp add: invoke_def)
next
  case (Suc n)
  show ?case
    unfolding attempt_loop.simps Suc by (simp add: invoke_def)
qed

lemma try_with_retries_mark [simp]:
  "try_with_retries E cfg (C\<lparr> ca_should_mark_provider_failed := f \<rparr>) p url = try_with_retries E cfg C p url"
  by (simp add: try_with_retries_def invoke_def)

lemma get_provider_mark [simp]:
  "get_provider E S (C\<lparr> ca_should_mark_provider_failed := f \<rparr>) excluded = get_provider E S C excluded"
  by (simp add: get_provider_def)

lemma final_error_mark [simp]:
  "final_error (C\<lparr> ca_should_mark_provider_failed := f \<rparr>) last_error k = final_error C last_error k"
  by (cases last_error) (simp_all add: final_error_def)

lemma failover_loop_mark:
  assumes "transient C" "rt_max_retries cfg > 1"
  shows "failover_loop E S cfg (C\<lparr> ca_should_mark_provider_failed := f \<rparr>) tried last_error k n
    = failover_loop E S cfg C tried last_error k n"
proof (induction n arbitrary: tried last_error k)
  case 0
  show ?case
    by simp
next
  case (Suc n)
  have exhausted: "\<exists>e. r = RetriesExhausted e" if "try_with_retries E cfg C p url s = (Inl r, s')" for p url s r s'
    using valid_Inl [OF try_with_retries_exhausts [OF assms] TrueI that] by blast
  show ?case
    by (rule ext) (auto simp: Suc bindM_def attemptM_def dest: exhausted
      split: prod.splits sum.splits internal_retry_error.splits)
qed

text \<open>C38: A best-effort call is documented never to mark an endpoint as failed. That is so for errors that are not
  retriable only: when every error of the operation is retriable and more than one attempt is configured, the
  best-effort call does exactly what the ordinary call does, the marking of every endpoint whose attempts are
  exhausted included.\<close>

theorem best_effort_marks_exhausted:
  assumes "\<forall>t p e. operation t p = Inl e \<longrightarrow> is_retriable_error e" "rt_max_retries (ep_retry_config pv) > 1"
  shows "evm_retry_rpc_call_best_effort E A pv name operation = evm_retry_rpc_call E A pv name operation"
proof -
  let ?C = "provider_call A pv should_mark_provider_failed name operation"
  have transient: "transient ?C"
    using assms(1) by (simp add: transient_def provider_call_def)
  have unmarked: "provider_call A pv (\<lambda>_. False) name operation = ?C\<lparr> ca_should_mark_provider_failed := \<lambda>_. False \<rparr>"
    by (simp add: provider_call_def)
  show ?thesis
    unfolding evm_retry_rpc_call_best_effort_def evm_retry_rpc_call_def retry_rpc_call_def unmarked
      failover_loop_mark [OF transient assms(2)] ..
qed

text \<open>C21: A submission that a node rejects for reasons of the transaction, because the nonce is too low or too high,
  a replacement is underpriced or the transaction is known, is not repeated: there is exactly one call, at the selected
  endpoint, the error is returned as it is, and the endpoint is not marked as failed.\<close>

theorem rejected_submission_sent_once:
  assumes "select_url_internal E (ep_selector pv) {} (s\<lparr> rp_total_attempts := 0 \<rparr>) = (Inr url, s1)"
    and "initialize_provider A pv url = Inr p"
    and "al_send_raw_transaction A (rp_tick s1) p raw = Inl (ErrorResp code message data)"
    and "is_non_retriable_transaction_rpc_message message" "code \<noteq> -32005"
  shows "\<exists>s'. provider_send_raw_transaction E A pv raw s
      = (Inl (RpcErrorCode code message (case data of Some d \<Rightarrow> al_json A d | None \<Rightarrow> None)), s')
    \<and> rp_calls s' = rp_calls s1 @ [url] \<and> rp_health s' = rp_health s1"
proof -
  let ?pe = "RpcErrorCode code message (case data of Some d \<Rightarrow> al_json A d | None \<Rightarrow> None)"
  let ?C = "provider_call A pv should_mark_provider_failed ''send_raw_transaction''
    (\<lambda>t p. answered A (al_send_raw_transaction A t p raw))"
  let ?s2 = "s1\<lparr> rp_tick := Suc (rp_tick s1), rp_total_attempts := Suc (rp_total_attempts s1), rp_calls := rp_calls s1 @ [url] \<rparr>"
  have "\<not> is_retriable_error ?pe" "\<not> should_mark_provider_failed ?pe"
    using assms(4,5) by simp_all
  have "invoke ?C p url s1 = (Inl ?pe, ?s2)"
    using assms(3) by (simp add: invoke_def provider_call_def answered_def)
  then have "try_with_retries E cfg ?C p url s1 = (Inl (NonRetriable ?pe), ?s2)" for cfg
    using \<open>\<not> is_retriable_error ?pe\<close>
    by (cases "unat (rt_max_retries cfg) - 1")
      (auto simp: try_with_retries_def map_errM_def bindM_def attemptM_def throwM_def provider_call_def)
  moreover have "get_provider E (ep_selector pv) ?C {} (s\<lparr> rp_total_attempts := 0 \<rparr>) = (Inr (p, url), s1)"
    using assms(1,2) by (simp add: get_provider_def get_client_url eff_defs provider_call_def)
  moreover have "provider_count (ep_selector pv) \<noteq> 0"
    using assms(1) by (auto simp: select_url_internal_def provider_count_def throwM_def)
  ultimately show ?thesis
    using \<open>\<not> should_mark_provider_failed ?pe\<close>
    by (simp add: provider_send_raw_transaction_def evm_retry_rpc_call_def retry_rpc_call_def thenM_def modifyM_def bindM_def
        attemptM_def whenM_def throwM_def returnM_def) (simp add: provider_call_def)
qed

section \<open>Witnesses\<close>

definition ex_alloy :: "string alloy" where
  "ex_alloy = \<lparr> al_parse_address = (\<lambda>_. Inr []), al_parse_hash = (\<lambda>_. Inr []), al_parse_bytes = (\<lambda>_. Inr []),
     al_json = Some, al_validate_safe_url = (\<lambda>_. Inr ()), al_parse_url = (\<lambda>_. Inr ()), al_connect = (\<lambda>url _. Inr url),
     al_get_balance = (\<lambda>_ _ _. Inr 5), al_get_block_number = (\<lambda>_ _. Inr 7), al_estimate_gas = (\<lambda>_ _ _. Inr 21000),
     al_get_gas_price = (\<lambda>_ _. Inr 1), al_send_transaction = (\<lambda>_ _ _. Inr ''0x01''),
     al_send_raw_transaction = (\<lambda>_ _ _. Inl (ErrorResp (-32000) ''nonce too low'' None)),
     al_get_transaction_count = (\<lambda>_ _ _. Inr 3), al_get_block = (\<lambda>_ _. Inr None),
     al_get_transaction_receipt = (\<lambda>_ _ _. Inr None), al_call = (\<lambda>_ _ _ _. Inl (Transport (Inr ''down''))),
     al_revert_data = (\<lambda>_. None), al_get_fee_history = (\<lambda>_ _ _ _ _. Inr []), al_to_raw_value = Inr,
     al_raw_request = (\<lambda>_ _ _ _. Inr ''{}''), al_from_str = Inr \<rparr>"

definition ex_single :: evm_provider where
  "ex_single = \<lparr> ep_selector = ex_rpc_selector\<lparr> sel_configs := [\<lparr> rpc_url = ''a'', rpc_weight = 1 \<rparr>], sel_weights_dist := None \<rparr>,
     ep_timeout_seconds = 10, ep_retry_config = ex_retry_config \<rparr>"

definition ex_revert_call :: "nat \<Rightarrow> string \<Rightarrow> provider_error + u8 list option" where
  "ex_revert_call t p = revert_answer ex_alloy (Inl (Transport (Inr ''down'')))"

theorem best_effort_marks_exhausted_witness:
  "evm_retry_rpc_call_best_effort ex_rpc_env ex_alloy ex_single ''get_call_revert_data'' ex_revert_call
     = evm_retry_rpc_call ex_rpc_env ex_alloy ex_single ''get_call_revert_data'' ex_revert_call"
  by (rule best_effort_marks_exhausted) (simp_all add: ex_revert_call_def ex_single_def ex_retry_config_def revert_answer_def)

theorem rejected_submission_sent_once_witness:
  "\<exists>s'. provider_send_raw_transaction ex_rpc_env ex_alloy ex_single [1] ex_rpc_state
      = (Inl (RpcErrorCode (-32000) ''nonce too low'' None), s') \<and> rp_calls s' = [''a'']"
proof -
  let ?s1 = "ex_rpc_state\<lparr> rp_total_attempts := 0, rp_current_index := 0, rp_has_current := True \<rparr>"
  have "select_url_internal ex_rpc_env (ep_selector ex_single) {} (ex_rpc_state\<lparr> rp_total_attempts := 0 \<rparr>) = (Inr ''a'', ?s1)"
    by (simp add: select_url_internal_def ex_single_def ex_rpc_defs eff_defs)
  moreover have "initialize_provider ex_alloy ex_single ''a'' = Inr ''a''"
    by (simp add: initialize_provider_def ex_alloy_def)
  moreover have "al_send_raw_transaction ex_alloy (rp_tick ?s1) ''a'' [1] = Inl (ErrorResp (-32000) ''nonce too low'' None)"
    by (simp add: ex_alloy_def)
  moreover have "is_non_retriable_transaction_rpc_message ''nonce too low''"
    by code_simp
  ultimately show ?thesis
    using rejected_submission_sent_once [of ex_rpc_env ex_single ex_rpc_state "''a''" ?s1 ex_alloy "''a''" "[1]" "-32000"]
    by (auto simp: ex_rpc_state_def)
qed

end
