(* ===== verification/Tx_Cleanup.thy ===== *)
theory Tx_Cleanup
  imports Job_Handlers
begin

text \<open>
  The periodic deletion of old transactions (\<open>jobs/handlers/transaction_cleanup_handler.rs\<close>).
  The relayers are processed one after the other; the source runs up to ten of them at once, on
  transactions that belong to different relayers, and only counts their results. The lock of the
  distributed mode is a parameter.
\<close>

section \<open>The worker\<close>

definition CLEANUP_PAGE_SIZE :: u32 where "CLEANUP_PAGE_SIZE = 100"
definition DELETE_BATCH_SIZE :: nat where "DELETE_BATCH_SIZE = 100"
definition MAX_CLEANUP_ITERATIONS_PER_STATUS :: nat where "MAX_CLEANUP_ITERATIONS_PER_STATUS = 1500"
definition WORKER_TRANSACTION_CLEANUP_RETRIES :: nat where "WORKER_TRANSACTION_CLEANUP_RETRIES = 5"

definition should_delete_transaction :: "evm_env \<Rightarrow> transaction_repo_model \<Rightarrow> int \<Rightarrow> bool" where
  "should_delete_transaction E tx now = (case delete_at tx of
     None \<Rightarrow> False
   | Some s \<Rightarrow> (case parse_rfc3339 E s of Some t \<Rightarrow> now \<ge> t | None \<Rightarrow> False))"

definition extract_nonce_from_network_data :: "network_transaction_data \<Rightarrow> u64 option" where
  "extract_nonce_from_network_data d = (case d of Evm e \<Rightarrow> nonce e | _ \<Rightarrow> None)"

function chunks :: "nat \<Rightarrow> 'a list \<Rightarrow> 'a list list" where
  "chunks n xs = (if n = 0 \<or> xs = [] then [] else take n xs # chunks n (drop n xs))"
  by pat_completeness auto
termination by (relation "measure (\<lambda>(n, xs). length xs)") auto

declare chunks.simps [simp del]

fun delete_batches :: "evm_env \<Rightarrow> transaction_delete_request list list \<Rightarrow> nat \<Rightarrow> (world, 'e, nat) eff" where
  "delete_batches E [] total_deleted = returnM total_deleted"
| "delete_batches E (batch # batches) total_deleted =
     bindM (attemptM (repoM E (delete_by_requests batch))) (\<lambda>result. case result of
       Inr r \<Rightarrow> delete_batches E batches (total_deleted + deleted_count r)
     | Inl _ \<Rightarrow> delete_batches E batches total_deleted)"

definition process_transactions_for_cleanup ::
  "evm_env \<Rightarrow> transaction_repo_model list \<Rightarrow> int \<Rightarrow> (world, 'e, nat) eff" where
  "process_transactions_for_cleanup E transactions now =
     (if transactions = [] then returnM 0
      else let delete_requests = map (\<lambda>tx. \<lparr> del_id = tx_id tx, del_relayer_id = relayer_id tx,
                 del_nonce = extract_nonce_from_network_data (network_data tx) \<rparr>)
               (filter (\<lambda>tx. status tx \<in> set FINAL_TRANSACTION_STATUSES \<and> should_delete_transaction E tx now) transactions)
           in if delete_requests = [] then returnM 0
              else delete_batches E (chunks DELETE_BATCH_SIZE delete_requests) 0)"

text \<open>The last argument of \<open>status_cleanup_loop\<close> counts the iterations that are left.\<close>

fun status_cleanup_loop ::
  "evm_env \<Rightarrow> string \<Rightarrow> transaction_status \<Rightarrow> int \<Rightarrow> u32 \<Rightarrow> nat \<Rightarrow> nat \<Rightarrow> (world, string, nat) eff" where
  "status_cleanup_loop E rid st now current_page total_cleaned 0 = returnM total_cleaned"
| "status_cleanup_loop E rid st now current_page total_cleaned (Suc n) =
     bindM (map_errM (\<lambda>e. ''Failed to fetch '' @ show_status st @ '' transactions for relayer '' @ rid @ '': ''
              @ show_repository_error e)
            (repoM E (find_by_status_paginated (e_values_order E) rid [st]
               \<lparr> page = current_page, per_page = CLEANUP_PAGE_SIZE \<rparr> True))) (\<lambda>page_result.
       if items page_result = [] then returnM total_cleaned
       else bindM (process_transactions_for_cleanup E (items page_result) now) (\<lambda>cleaned_count.
         status_cleanup_loop E rid st now (if cleaned_count = 0 then current_page + 1 else current_page)
           (total_cleaned + cleaned_count) n))"

definition process_status_cleanup :: "evm_env \<Rightarrow> string \<Rightarrow> transaction_status \<Rightarrow> int \<Rightarrow> (world, string, nat) eff" where
  "process_status_cleanup E rid st now = status_cleanup_loop E rid st now 1 0 MAX_CLEANUP_ITERATIONS_PER_STATUS"

record relayer_cleanup_result =
  rcr_relayer_id :: string
  rcr_cleaned_count :: nat
  rcr_error :: "string option"

definition reconcile_stale_status_indexes :: "string \<Rightarrow> nat repo_op" where
  "reconcile_stale_status_indexes rid = returnM 0"

fun cleanup_statuses ::
  "evm_env \<Rightarrow> relayer_repo_model \<Rightarrow> int \<Rightarrow> string option \<Rightarrow> transaction_status list \<Rightarrow> nat \<Rightarrow>
     (world, 'e, relayer_cleanup_result) eff" where
  "cleanup_statuses E r now reconcile_error [] total_cleaned =
     returnM \<lparr> rcr_relayer_id = r_id r, rcr_cleaned_count = total_cleaned, rcr_error = reconcile_error \<rparr>"
| "cleanup_statuses E r now reconcile_error (st # sts) total_cleaned =
     bindM (attemptM (process_status_cleanup E (r_id r) st now)) (\<lambda>result. case result of
       Inr cleaned \<Rightarrow> cleanup_statuses E r now reconcile_error sts (total_cleaned + cleaned)
     | Inl e \<Rightarrow> returnM \<lparr> rcr_relayer_id = r_id r, rcr_cleaned_count = total_cleaned,
         rcr_error = Some (case reconcile_error of
           Some e' \<Rightarrow> e' @ ''; status cleanup failed: '' @ e | None \<Rightarrow> e) \<rparr>)"

definition process_single_relayer ::
  "evm_env \<Rightarrow> relayer_repo_model \<Rightarrow> int \<Rightarrow> (world, 'e, relayer_cleanup_result) eff" where
  "process_single_relayer E r now =
     bindM (attemptM (repoM E (reconcile_stale_status_indexes (r_id r)))) (\<lambda>reconciled.
       cleanup_statuses E r now (case reconciled of Inl e \<Rightarrow> Some (show_repository_error e) | Inr _ \<Rightarrow> None)
         FINAL_TRANSACTION_STATUSES 0)"

fun process_relayers_in_batches ::
  "evm_env \<Rightarrow> relayer_repo_model list \<Rightarrow> int \<Rightarrow> (world, 'e, relayer_cleanup_result list) eff" where
  "process_relayers_in_batches E [] now = returnM []"
| "process_relayers_in_batches E (r # rs) now =
     bindM (process_single_relayer E r now) (\<lambda>result.
     bindM (process_relayers_in_batches E rs now) (\<lambda>results. returnM (result # results)))"

definition report_cleanup_results :: "relayer_cleanup_result list \<Rightarrow> report + unit" where
  "report_cleanup_results results =
     (let total_errors = length (filter (\<lambda>r. rcr_error r \<noteq> None) results)
      in if total_errors > 0
         then Inl (ReportText (''Cleanup completed with '' @ show_nat total_errors @ '' errors out of ''
                @ show_nat (length results) @ '' relayers''))
         else Inr ())"

definition cleanup_lock_taken :: "health_locks \<Rightarrow> bool" where
  "cleanup_lock_taken L = (distributed_mode L \<and> has_connection_info L \<longrightarrow> try_acquire L = Inr True)"

definition cleanup_handle_request :: "evm_env \<Rightarrow> health_locks \<Rightarrow> relayer_order \<Rightarrow> unit job_op" where
  "cleanup_handle_request E L order =
     (if \<not> cleanup_lock_taken L then returnM ()
      else bindM (inW (askM (e_now E))) (\<lambda>now.
           bindM (map_errM (\<lambda>e. ReportText (''Failed to fetch relayers: '' @ show_repository_error e))
                    (relayersM E (relayer_list_all order))) (\<lambda>relayers.
           bindM (inW (process_relayers_in_batches E relayers now)) (\<lambda>cleanup_results.
             liftR (report_cleanup_results cleanup_results)))))"

definition transaction_cleanup_handler ::
  "evm_env \<Rightarrow> health_locks \<Rightarrow> relayer_order \<Rightarrow> nat \<Rightarrow> (app, handler_error, unit) eff" where
  "transaction_cleanup_handler E L order attempt =
     worker (cleanup_handle_request E L order) attempt WORKER_TRANSACTION_CLEANUP_RETRIES"


section \<open>What a run deletes\<close>

definition expired_final :: "evm_env \<Rightarrow> int \<Rightarrow> transaction_repo_model \<Rightarrow> bool" where
  "expired_final E now tx \<longleftrightarrow> is_final_state (status tx) \<and> should_delete_transaction E tx now"

text \<open>\<open>R\<close> is \<open>R0\<close> without some transactions that are final and whose time of deletion has come.\<close>

definition trimmed :: "evm_env \<Rightarrow> int \<Rightarrow> tx_repo \<Rightarrow> tx_repo \<Rightarrow> bool" where
  "trimmed E now R0 R \<longleftrightarrow> repo_wf R \<and> idempotency R = idempotency R0
     \<and> (\<forall>i. tx_lookup R i = tx_lookup R0 i
          \<or> tx_lookup R i = None \<and> (\<exists>tx. tx_lookup R0 i = Some tx \<and> expired_final E now tx))"

definition cleaning :: "evm_env \<Rightarrow> int \<Rightarrow> world \<Rightarrow> world \<Rightarrow> bool" where
  "cleaning E now w0 w \<longleftrightarrow> trimmed E now (w_repo w0) (w_repo w) \<and> w_counter w = w_counter w0 \<and> w_jobs w = w_jobs w0
     \<and> w_broadcasts w = w_broadcasts w0 \<and> w_debounce w = w_debounce w0"

lemma cleaning_refl: "repo_wf (w_repo w) \<Longrightarrow> cleaning E now w w"
  by (simp add: cleaning_def trimmed_def)

lemma cleaning_tick [simp]:
  "cleaning E now w0 (w\<lparr> w_tick := t \<rparr>) = cleaning E now w0 w"
  "cleaning E now (w0\<lparr> w_tick := t \<rparr>) w = cleaning E now w0 w"
  by (simp_all add: cleaning_def)

lemma delete_by_requests_store:
  "snd (delete_by_requests reqs R) = R\<lparr> store := filter (\<lambda>(i, _). i \<notin> set (map del_id reqs)) (store R) \<rparr>"
  by (simp add: delete_by_requests_def delete_by_ids_def returnM_def delete_loop_store)

lemma map_of_filter_key: "map_of (filter (\<lambda>(i, _). P i) xs) k = (if P k then map_of xs k else None)"
  by (induction xs) auto

lemma delete_lookup:
  "tx_lookup (snd (delete_by_requests reqs R)) i = (if i \<in> set (map del_id reqs) then None else tx_lookup R i)"
  unfolding delete_by_requests_store by (simp add: map_of_filter_key)

definition deletable :: "evm_env \<Rightarrow> int \<Rightarrow> transaction_delete_request list \<Rightarrow> tx_repo \<Rightarrow> bool" where
  "deletable E now reqs R \<longleftrightarrow> (\<forall>q \<in> set reqs. \<forall>tx. tx_lookup R (del_id q) = Some tx \<longrightarrow> expired_final E now tx)"

lemma trimmed_delete:
  assumes "trimmed E now R0 R" "deletable E now reqs R"
  shows "trimmed E now R0 (snd (delete_by_requests reqs R))"
proof -
  have "repo_wf (snd (delete_by_requests reqs R))"
    using assms(1) by (auto simp: trimmed_def delete_by_requests_def delete_by_ids_def returnM_def repo_wf_delete_loop)
  moreover have "idempotency (snd (delete_by_requests reqs R)) = idempotency R0"
    using assms(1) by (simp add: delete_by_requests_store trimmed_def)
  moreover have "tx_lookup (snd (delete_by_requests reqs R)) i = tx_lookup R0 i
      \<or> tx_lookup (snd (delete_by_requests reqs R)) i = None \<and> (\<exists>tx. tx_lookup R0 i = Some tx \<and> expired_final E now tx)" for i
  proof -
    have "tx_lookup R i = tx_lookup R0 i \<or> tx_lookup R i = None \<and> (\<exists>tx. tx_lookup R0 i = Some tx \<and> expired_final E now tx)"
      using assms(1) unfolding trimmed_def by blast
    moreover have "expired_final E now tx" if "i \<in> set (map del_id reqs)" "tx_lookup R i = Some tx" for tx
      using assms(2) that by (auto simp: deletable_def)
    ultimately show ?thesis
      unfolding delete_lookup by (cases "tx_lookup R i") auto
  qed
  ultimately show ?thesis
    by (simp add: trimmed_def)
qed

lemma deletable_after: "deletable E now reqs' R \<Longrightarrow> deletable E now reqs' (snd (delete_by_requests reqs R))"
  unfolding deletable_def delete_lookup by (auto split: if_splits)

lemma delete_step:
  "valid (\<lambda>w. cleaning E now w0 w \<and> deletable E now (batch @ rest) (w_repo w)) (repoM E (delete_by_requests batch))
     (\<lambda>_ w. cleaning E now w0 w \<and> deletable E now rest (w_repo w)) (\<lambda>_ w. cleaning E now w0 w \<and> deletable E now rest (w_repo w))"
proof -
  have "deletable E now batch R \<and> deletable E now rest R" if "deletable E now (batch @ rest) R" for R
    using that by (auto simp: deletable_def)
  then show ?thesis
    unfolding valid_def repoM_def
    by (auto simp: cleaning_def trimmed_delete deletable_after split: option.splits prod.splits sum.splits)
      (metis snd_conv trimmed_delete deletable_after)+
qed


lemma concat_chunks: "0 < n \<Longrightarrow> concat (chunks n xs) = xs"
  by (induction n xs rule: chunks.induct) (subst chunks.simps, auto)

lemma delete_batches_cleaning:
  "valid (\<lambda>w. cleaning E now w0 w \<and> deletable E now (concat batches) (w_repo w)) (delete_batches E batches n)
     (\<lambda>_. cleaning E now w0) Q"
proof (induction batches arbitrary: n)
  case Nil
  show ?case
    by (auto intro: valid_return)
next
  case (Cons batch batches)
  show ?case
    unfolding delete_batches.simps concat.simps
    by (intro valid_bind [OF valid_attempt [OF delete_step]] valid_case_sum Cons.IH)
qed

lemma process_transactions_cleaning:
  "valid (\<lambda>w. cleaning E now w0 w \<and> (\<forall>tx \<in> set txs. tx_lookup (w_repo w) (tx_id tx) = Some tx))
     (process_transactions_for_cleanup E txs now) (\<lambda>_. cleaning E now w0) Q"
  unfolding process_transactions_for_cleanup_def Let_def
  by (intro valid_if valid_return valid_pre [OF delete_batches_cleaning])
    (auto simp: concat_chunks DELETE_BATCH_SIZE_def deletable_def expired_final_def)

lemma page_stored:
  assumes "repo_wf R" "\<And>xs. mset (order xs) = mset xs"
    "fst (find_by_status_paginated order rid sts q oldest R) = Inr r" "tx \<in> set (items r)"
  shows "tx_lookup R (tx_id tx) = Some tx"
proof -
  have "tx \<in> set (store_values order R)"
    using assms(3,4) by (auto simp: find_by_status_paginated_def Let_def split: if_splits dest!: in_set_takeD in_set_dropD)
  then show ?thesis
    using assms(1) unfolding set_store_values [OF assms(2)]
    by (auto simp: repo_wf_def)
qed

lemma find_page_cleaning:
  assumes "\<And>xs. mset (e_values_order E xs) = mset xs"
  shows "valid (cleaning E now w0) (repoM E (find_by_status_paginated (e_values_order E) rid sts q oldest))
    (\<lambda>r w. cleaning E now w0 w \<and> (\<forall>tx \<in> set (items r). tx_lookup (w_repo w) (tx_id tx) = Some tx)) (\<lambda>_. cleaning E now w0)"
proof (rule validI)
  fix w r w'
  assume w: "cleaning E now w0 w" "repoM E (find_by_status_paginated (e_values_order E) rid sts q oldest) w = (Inr r, w')"
  then have "fst (find_by_status_paginated (e_values_order E) rid sts q oldest (w_repo w)) = Inr r"
    and w': "w' = w\<lparr> w_tick := Suc (w_tick w) \<rparr>"
    by (auto simp: repoM_def find_by_status_paginated_def Let_def split: option.splits)
  moreover have "repo_wf (w_repo w)"
    using w(1) by (simp add: cleaning_def trimmed_def)
  ultimately show "cleaning E now w0 w' \<and> (\<forall>tx \<in> set (items r). tx_lookup (w_repo w') (tx_id tx) = Some tx)"
    using w(1) page_stored [OF _ assms] by auto
qed (auto simp: repoM_def find_by_status_paginated_def Let_def split: option.splits)

lemma loop_cleaning:
  assumes "\<And>xs. mset (e_values_order E xs) = mset xs"
  shows "valid (cleaning E now w0) (status_cleanup_loop E rid st now p k n) (\<lambda>_. cleaning E now w0) (\<lambda>_. cleaning E now w0)"
proof (induction n arbitrary: p k)
  case 0
  show ?case
    by (simp add: valid_return)
next
  case (Suc n)
  show ?case
    unfolding status_cleanup_loop.simps
    by (rule valid_bind, rule valid_map_err, rule find_page_cleaning [OF assms])
      (intro valid_if valid_return valid_bind [OF process_transactions_cleaning] Suc.IH, auto)
qed

lemma statuses_cleaning:
  assumes "\<And>xs. mset (e_values_order E xs) = mset xs"
  shows "valid (cleaning E now w0) (cleanup_statuses E r now re sts k) (\<lambda>_. cleaning E now w0) Q"
proof (induction sts arbitrary: k)
  case Nil
  show ?case
    by (simp add: valid_return)
next
  case (Cons st sts)
  show ?case
    unfolding cleanup_statuses.simps process_status_cleanup_def
    by (intro valid_bind [OF valid_attempt [OF loop_cleaning [OF assms]]] valid_case_sum Cons.IH valid_return)
qed

lemma reconcile_cleaning:
  "valid (cleaning E now w0) (attemptM (repoM E (reconcile_stale_status_indexes rid))) (\<lambda>_. cleaning E now w0) Q"
  by (auto simp: valid_def attemptM_def repoM_def reconcile_stale_status_indexes_def returnM_def split: option.splits)

lemma relayers_cleaning:
  assumes "\<And>xs. mset (e_values_order E xs) = mset xs"
  shows "valid (cleaning E now w0) (process_relayers_in_batches E rs now) (\<lambda>_. cleaning E now w0) Q"
proof (induction rs)
  case Nil
  show ?case
    by (simp add: valid_return)
next
  case (Cons r rs)
  show ?case
    unfolding process_relayers_in_batches.simps process_single_relayer_def
    by (intro valid_bind [OF valid_bind [OF reconcile_cleaning statuses_cleaning [OF assms]]] valid_bind [OF Cons.IH] valid_return)
qed

lemma valid_inW:
  assumes "valid P m Q F"
  shows "valid (\<lambda>t. P (app_world t) \<and> app_relayers t = R) (inW m)
    (\<lambda>x t. Q x (app_world t) \<and> app_relayers t = R) (\<lambda>e t. F e (app_world t) \<and> app_relayers t = R)"
  using assms unfolding valid_def inW_def by (fastforce split: prod.splits sum.splits)

text \<open>C15: Whatever storage faults occur, a run of the clean-up worker deletes transactions only that are final and
  whose time of deletion has come at a reading of the clock within the run. Every other transaction, the idempotency records,
  the nonce counters, the queued jobs, the broadcasts and the relayers are as before.\<close>

theorem cleanup_deletes_expired_only:
  assumes "repo_wf (w_repo (app_world s))" "\<And>xs. mset (e_values_order E xs) = mset xs"
  shows "cleaning E (e_now E (w_tick (app_world s))) (app_world s)
      (app_world (snd (transaction_cleanup_handler E L order attempt s)))
    \<and> app_relayers (snd (transaction_cleanup_handler E L order attempt s)) = app_relayers s"
proof -
  let ?now = "e_now E (w_tick (app_world s))"
  let ?J = "\<lambda>t. cleaning E ?now (app_world s) (app_world t) \<and> app_relayers t = app_relayers s"
  have start: "?J s"
    using cleaning_refl [OF assms(1)] by simp
  have listed: "valid ?J (map_errM f (relayersM E (relayer_list_all order))) (\<lambda>_. ?J) (\<lambda>_. ?J)" for f :: "repository_error \<Rightarrow> report"
    by (rule valid_map_err) (auto simp: valid_def relayersM_def relayer_list_all_def Let_def split: option.splits)
  have processed: "valid ?J (inW (process_relayers_in_batches E rs ?now)) (\<lambda>_. ?J) (\<lambda>_. ?J)" for rs
    by (rule valid_inW [OF relayers_cleaning [OF assms(2)]])
  have run: "valid ?J (bindM (inW (process_relayers_in_batches E rs ?now)) (\<lambda>results. liftR (report_cleanup_results results)))
      (\<lambda>_. ?J) (\<lambda>_. ?J)" for rs
    by (rule valid_bind [OF processed], rule valid_lift) simp_all
  have asked: "valid (\<lambda>t. t = s) (inW (askM (e_now E))) (\<lambda>now t. ?J t \<and> now = ?now) (\<lambda>_. ?J)"
    using start by (simp add: valid_def inW_def askM_def)
  have "valid (\<lambda>t. t = s) (cleanup_handle_request E L order) (\<lambda>_. ?J) (\<lambda>_. ?J)"
    unfolding cleanup_handle_request_def
    by (intro valid_if valid_return valid_bind [OF asked] valid_fact valid_bind [OF listed]) (use start run in auto)
  then have "valid (\<lambda>t. t = s) (transaction_cleanup_handler E L order attempt) (\<lambda>_. ?J) (\<lambda>_. ?J)"
    unfolding transaction_cleanup_handler_def worker_def by (intro valid_bind [OF valid_attempt] valid_lift) simp_all
  then show ?thesis
    by (rule valid_snd) simp
qed


section \<open>What a run leaves\<close>

definition remove_ids :: "string set \<Rightarrow> tx_repo \<Rightarrow> tx_repo" where
  "remove_ids I R = R\<lparr> store := filter (\<lambda>(i, _). i \<notin> I) (store R) \<rparr>"

abbreviation faultless :: "evm_env \<Rightarrow> bool" where
  "faultless E \<equiv> e_storage_fault E = (\<lambda>_. None)"

lemma remove_ids_wf: "repo_wf R \<Longrightarrow> repo_wf (remove_ids I R)"
  by (auto simp: repo_wf_def remove_ids_def distinct_map_filter)

lemma remove_ids_twice: "remove_ids J (remove_ids I R) = remove_ids (I \<union> J) R"
  unfolding remove_ids_def by (simp add: conj_commute case_prod_beta')

lemma delete_batches_exact:
  assumes "faultless E"
  shows "repo_wf (w_repo w) \<Longrightarrow> \<exists>n' t. (delete_batches E batches n :: (world, 'e, nat) eff) w
      = (Inr n', w\<lparr> w_repo := remove_ids (set (map del_id (concat batches))) (w_repo w), w_tick := t \<rparr>)
    \<and> n' + length (store (remove_ids (set (map del_id (concat batches))) (w_repo w))) = n + length (store (w_repo w))"
proof (induction batches arbitrary: n w)
  case Nil
  show ?case
    by (intro exI [of _ n] exI [of _ "w_tick w"]) (simp add: remove_ids_def returnM_def)
next
  case (Cons batch batches)
  let ?I = "set (map del_id batch)"
  obtain r where r: "delete_by_requests batch (w_repo w) = (Inr r, remove_ids ?I (w_repo w))"
    "deleted_count r + length (store (remove_ids ?I (w_repo w))) = length (store (w_repo w))"
    using delete_by_ids_exact [OF Cons.prems, of "map del_id batch"]
    by (cases "batch = []") (auto simp: delete_by_requests_def remove_ids_def returnM_def)
  let ?w = "w\<lparr> w_repo := remove_ids ?I (w_repo w), w_tick := Suc (w_tick w) \<rparr>"
  have step: "attemptM (repoM E (delete_by_requests batch)) w = (Inr (Inr r) :: 'e + _, ?w)"
    using assms r(1) by (simp add: attemptM_def repoM_def)
  have "repo_wf (w_repo ?w)"
    using Cons.prems by (simp add: remove_ids_wf)
  from Cons.IH [OF this, of "n + deleted_count r"] obtain n' t where
    "(delete_batches E batches (n + deleted_count r) :: (world, 'e, nat) eff) ?w
      = (Inr n', ?w\<lparr> w_repo := remove_ids (set (map del_id (concat batches))) (w_repo ?w), w_tick := t \<rparr>)"
    "n' + length (store (remove_ids (set (map del_id (concat batches))) (w_repo ?w)))
      = n + deleted_count r + length (store (w_repo ?w))"
    by blast
  then show ?case
    using step r(2) by (auto simp: bindM_def remove_ids_twice)
qed

lemma process_transactions_exact:
  assumes "faultless E" "repo_wf (w_repo w)" "\<forall>tx \<in> set txs. tx_lookup (w_repo w) (tx_id tx) = Some tx"
  shows "\<exists>c t. (process_transactions_for_cleanup E txs now :: (world, 'e, nat) eff) w
      = (Inr c, w\<lparr> w_repo := remove_ids (tx_id ` set (filter (expired_final E now) txs)) (w_repo w), w_tick := t \<rparr>)
    \<and> (c = 0 \<longleftrightarrow> filter (expired_final E now) txs = [])"
proof (cases "filter (expired_final E now) txs = []")
  case True
  then have "(process_transactions_for_cleanup E txs now :: (world, 'e, nat) eff) w = (Inr 0, w)"
    by (auto simp: process_transactions_for_cleanup_def expired_final_def [abs_def] returnM_def Let_def)
  with True show ?thesis
    by (intro exI [of _ 0] exI [of _ "w_tick w"]) (simp add: remove_ids_def)
next
  case False
  let ?reqs = "map (\<lambda>tx. \<lparr> del_id = tx_id tx, del_relayer_id = relayer_id tx,
      del_nonce = extract_nonce_from_network_data (network_data tx) \<rparr>) (filter (expired_final E now) txs)"
  let ?I = "tx_id ` set (filter (expired_final E now) txs)"
  have ids: "set (map del_id (concat (chunks DELETE_BATCH_SIZE ?reqs))) = ?I"
    by (simp add: concat_chunks DELETE_BATCH_SIZE_def image_image)
  have "(process_transactions_for_cleanup E txs now :: (world, 'e, nat) eff) = delete_batches E (chunks DELETE_BATCH_SIZE ?reqs) 0"
    using False by (auto simp: process_transactions_for_cleanup_def expired_final_def [abs_def] Let_def)
  moreover obtain n' t where n': "(delete_batches E (chunks DELETE_BATCH_SIZE ?reqs) 0 :: (world, 'e, nat) eff) w
      = (Inr n', w\<lparr> w_repo := remove_ids ?I (w_repo w), w_tick := t \<rparr>)"
      "n' + length (store (remove_ids ?I (w_repo w))) = length (store (w_repo w))"
    using delete_batches_exact [OF assms(1,2), of "chunks DELETE_BATCH_SIZE ?reqs" 0] unfolding ids by auto
  moreover obtain tx where "tx \<in> set txs" "tx_id tx \<in> ?I"
    using False by (auto simp: filter_empty_conv)
  then have "(tx_id tx, tx) \<in> set (store (w_repo w))"
    using assms(3) by (auto dest: map_of_SomeD)
  then have "length (store (remove_ids ?I (w_repo w))) < length (store (w_repo w))"
    unfolding remove_ids_def using \<open>tx_id tx \<in> ?I\<close> by (simp, intro length_filter_less) auto
  ultimately show ?thesis
    using False by (intro exI [of _ n'] exI [of _ t]) auto
qed

abbreviation oldest :: "string \<Rightarrow> transaction_status \<Rightarrow> tx_repo \<Rightarrow> transaction_repo_model list" where
  "oldest rid st R \<equiv> sorted_by compare_oldest_first (matching_by_status rid [st] R)"

lemma set_oldest: "set (oldest rid st R) = {tx \<in> snd ` set (store R). relayer_id tx = rid \<and> status tx = st}"
  by (auto simp: matching_by_status_def)

lemma stored_iff: "repo_wf R \<Longrightarrow> tx \<in> snd ` set (store R) \<longleftrightarrow> tx_lookup R (tx_id tx) = Some tx"
  by (force simp: repo_wf_def dest: map_of_SomeD)

lemma distinct_oldest:
  assumes "repo_wf R"
  shows "distinct (map tx_id (oldest rid st R))"
proof -
  have "map tx_id (map snd (store R)) = map fst (store R)"
    using assms by (auto simp: repo_wf_def)
  then have "distinct (map tx_id (map snd (store R)))"
    using assms by (simp only: repo_wf_def)
  then have "distinct (map tx_id (matching_by_status rid [st] R))"
    unfolding matching_by_status_def by (rule distinct_map_filter)
  then show ?thesis
    using mset_eq_imp_distinct_iff [of "map tx_id (oldest rid st R)" "map tx_id (matching_by_status rid [st] R)"] by simp
qed

lemma oldest_remove:
  assumes "repo_wf R"
  shows "oldest rid st (remove_ids I R) = filter (\<lambda>tx. tx_id tx \<notin> I) (oldest rid st R)"
proof (rule sorted_wrt_unique)
  show "sorted_wrt compare_oldest_first (oldest rid st (remove_ids I R))"
    by (rule sort_oldest.sorted_wrt_sorted_by)
  show "sorted_wrt compare_oldest_first (filter (\<lambda>tx. tx_id tx \<notin> I) (oldest rid st R))"
    by (rule sorted_wrt_filter) (rule sort_oldest.sorted_wrt_sorted_by)
  have "map snd (filter (\<lambda>(i, _). i \<notin> I) (store R)) = filter (\<lambda>tx. tx_id tx \<notin> I) (map snd (store R))"
    using assms unfolding filter_map by (intro arg_cong [where f = "map snd"] filter_cong) (auto simp: repo_wf_def)
  then have "matching_by_status rid [st] (remove_ids I R) = filter (\<lambda>tx. tx_id tx \<notin> I) (matching_by_status rid [st] R)"
    by (simp add: matching_by_status_def remove_ids_def filter_filter conj_ac del: filter_map)
  then show "mset (oldest rid st (remove_ids I R)) = mset (filter (\<lambda>tx. tx_id tx \<notin> I) (oldest rid st R))"
    by (simp only: mset_filter mset_sorted_by)
next
  fix x y
  assume xy: "x \<in> set (oldest rid st (remove_ids I R))" "y \<in> set (oldest rid st (remove_ids I R))"
    and "compare_oldest_first x y" "compare_oldest_first y x"
  then have "tx_id x = tx_id y"
    by (intro compare_oldest_first_antisym)
  moreover have "x \<in> snd ` set (store R)" "y \<in> snd ` set (store R)"
    using xy unfolding set_oldest by (auto simp: remove_ids_def)
  ultimately show "x = y"
    by (simp add: stored_iff [OF assms])
qed

text \<open>The page of a query, and how deleting from a page shortens the list.\<close>

lemma cleanup_page:
  assumes "faultless E" "\<And>xs. mset (e_values_order E xs) = mset xs" "repo_wf (w_repo w)" "0 < p" "(p - 1) * 100 < 2 ^ 32"
  shows "\<exists>r. repoM E (find_by_status_paginated (e_values_order E) rid [st] \<lparr> page = of_nat p, per_page = CLEANUP_PAGE_SIZE \<rparr> True) w
      = (Inr r, w\<lparr> w_tick := Suc (w_tick w) \<rparr>)
    \<and> items r = take 100 (drop ((p - 1) * 100) (oldest rid st (w_repo w)))"
proof -
  have "unat (of_nat p :: u32) = p"
    using assms(4,5) by (simp add: unsigned_of_nat take_bit_nat_eq_self)
  then have "unat (saturating_sub (of_nat p) 1 * CLEANUP_PAGE_SIZE) = (p - 1) * 100"
    using page_start [of "of_nat p" CLEANUP_PAGE_SIZE] assms(4,5) by (simp add: CLEANUP_PAGE_SIZE_def word_less_nat_alt)
  moreover have "sorted_by compare_oldest_first (filter (\<lambda>tx. relayer_id tx = rid \<and> status tx \<in> set [st])
      (store_values (e_values_order E) (w_repo w))) = oldest rid st (w_repo w)"
    using sorted_filter_unique [OF sort_oldest.comparator_axioms compare_oldest_first_antisym assms(3,2),
        where ordb = "\<lambda>xs. xs"]
    by (simp add: matching_by_status_def store_values_def)
  ultimately show ?thesis
    using assms(1) by (simp add: repoM_def find_by_status_paginated_def Let_def CLEANUP_PAGE_SIZE_def)
qed


lemma delete_from_page:
  assumes "distinct (map tx_id (A @ X @ B))" "filter e X \<noteq> []"
  defines "L' \<equiv> filter (\<lambda>tx. tx_id tx \<notin> tx_id ` set (filter e X)) (A @ X @ B)"
  shows "take (length A) L' = A \<and> length A \<le> length L' \<and> length L' \<le> length (A @ X @ B)
    \<and> length (filter e L') < length (filter e (A @ X @ B))"
proof -
  have "filter (\<lambda>tx. tx_id tx \<notin> tx_id ` set (filter e X)) A = A"
    using assms(1) by (intro filter_True) force
  then have "L' = A @ filter (\<lambda>tx. tx_id tx \<notin> tx_id ` set (filter e X)) (X @ B)"
    by (simp add: L'_def)
  then have "take (length A) L' = A" "length A \<le> length L'"
    by simp_all
  moreover have "length L' \<le> length (A @ X @ B)"
    unfolding L'_def by (rule length_filter_le)
  moreover obtain x where x: "x \<in> set (filter e X)"
    using assms(2) by (cases "filter e X") auto
  have "length (filter (\<lambda>tx. tx_id tx \<notin> tx_id ` set (filter e X)) (filter e (A @ X @ B))) < length (filter e (A @ X @ B))"
    by (rule length_filter_less [of x]) (use x in auto)
  moreover have "filter e L' = filter (\<lambda>tx. tx_id tx \<notin> tx_id ` set (filter e X)) (filter e (A @ X @ B))"
    unfolding L'_def filter_filter by (rule filter_cong) auto
  ultimately show ?thesis
    by (simp only: conj_assoc)
qed

definition pages :: "nat \<Rightarrow> nat" where
  "pages n = (n + 99) div 100"

lemma pages_mono: "m \<le> n \<Longrightarrow> pages m \<le> pages n"
  by (simp add: pages_def div_le_mono)

lemma pages_gt: "q * 100 < n \<Longrightarrow> q < pages n"
  unfolding pages_def by (simp add: Suc_le_eq [symmetric] less_eq_div_iff_mult_less_eq)

text \<open>One iteration: an empty page ends the loop; otherwise the expired transactions of the page are removed.\<close>

lemma cleanup_iteration:
  assumes "faultless E" "\<And>xs. mset (e_values_order E xs) = mset xs" "repo_wf (w_repo w)" "0 < p" "(p - 1) * 100 < 2 ^ 32"
    and X: "X = take 100 (drop ((p - 1) * 100) (oldest rid st (w_repo w)))"
  shows "if X = [] then status_cleanup_loop E rid st now (of_nat p) k (Suc n) w = (Inr k, w\<lparr> w_tick := Suc (w_tick w) \<rparr>)
    else \<exists>c t. (c = 0 \<longleftrightarrow> filter (expired_final E now) X = [])
      \<and> status_cleanup_loop E rid st now (of_nat p) k (Suc n) w
        = status_cleanup_loop E rid st now (if c = 0 then of_nat (Suc p) else of_nat p) (k + c) n
            (w\<lparr> w_repo := remove_ids (tx_id ` set (filter (expired_final E now) X)) (w_repo w), w_tick := t \<rparr>)"
proof -
  let ?w = "w\<lparr> w_tick := Suc (w_tick w) \<rparr>"
  obtain r where r: "repoM E (find_by_status_paginated (e_values_order E) rid [st] \<lparr> page = of_nat p, per_page = CLEANUP_PAGE_SIZE \<rparr> True) w
      = (Inr r, ?w)" "items r = X"
    using cleanup_page [OF assms(1-5), of rid st] unfolding X by auto
  have "set X \<subseteq> set (oldest rid st (w_repo w))"
    unfolding X by (meson in_set_dropD in_set_takeD subsetI)
  then have stored: "\<forall>tx \<in> set X. tx_lookup (w_repo ?w) (tx_id tx) = Some tx"
    using stored_iff [OF assms(3)] unfolding set_oldest by auto
  have "repo_wf (w_repo ?w)"
    using assms(3) by simp
  then obtain c t where c: "(process_transactions_for_cleanup E X now :: (world, string, nat) eff) ?w
      = (Inr c, ?w\<lparr> w_repo := remove_ids (tx_id ` set (filter (expired_final E now) X)) (w_repo ?w), w_tick := t \<rparr>)"
      "c = 0 \<longleftrightarrow> filter (expired_final E now) X = []"
    using process_transactions_exact [OF assms(1) _ stored, of now] by blast
  show ?thesis
  proof (cases "X = []")
    case True
    then show ?thesis
      using r by (simp add: bindM_def map_errM_def returnM_def)
  next
    case False
    then show ?thesis
      using r c by (auto simp: bindM_def map_errM_def add.commute)
  qed
qed

lemma loop_complete:
  assumes "faultless E" "\<And>xs. mset (e_values_order E xs) = mset xs"
  shows "repo_wf (w_repo w) \<Longrightarrow> 0 < p \<Longrightarrow> (p - 1) * 100 \<le> length (oldest rid st (w_repo w)) + 99 \<Longrightarrow>
    length (oldest rid st (w_repo w)) < 2 ^ 31 \<Longrightarrow>
    \<forall>tx \<in> set (take ((p - 1) * 100) (oldest rid st (w_repo w))). \<not> expired_final E now tx \<Longrightarrow>
    length (filter (expired_final E now) (oldest rid st (w_repo w))) + (pages (length (oldest rid st (w_repo w))) - (p - 1)) < n \<Longrightarrow>
    \<exists>k' w'. status_cleanup_loop E rid st now (of_nat p) k n w = (Inr k', w')
      \<and> (\<forall>tx \<in> set (oldest rid st (w_repo w')). \<not> expired_final E now tx)"
proof (induction n arbitrary: w p k)
  case 0
  then show ?case
    by simp
next
  case (Suc n)
  let ?L = "oldest rid st (w_repo w)" and ?e = "expired_final E now"
  define A where "A = take ((p - 1) * 100) ?L"
  define X where "X = take 100 (drop ((p - 1) * 100) ?L)"
  define B where "B = drop 100 (drop ((p - 1) * 100) ?L)"
  have L: "?L = A @ X @ B"
    unfolding A_def X_def B_def by (simp only: append_take_drop_id)
  have bound: "(p - 1) * 100 < 2 ^ 32"
    using Suc.prems(3,4) by simp
  note iteration = cleanup_iteration [OF assms Suc.prems(1,2) bound X_def, of now k n]
  show ?case
  proof (cases "X = []")
    case True
    then have "A = ?L"
      by (simp add: A_def X_def)
    then show ?thesis
      using Suc.prems(5) True iteration unfolding A_def by simp
  next
    case False
    then have len: "length A = (p - 1) * 100" "(p - 1) * 100 < length ?L"
      by (auto simp: A_def X_def)
    from iteration [unfolded if_not_P [OF False]] obtain c t where c: "c = 0 \<longleftrightarrow> filter ?e X = []"
      and run: "status_cleanup_loop E rid st now (of_nat p) k (Suc n) w
        = status_cleanup_loop E rid st now (if c = 0 then of_nat (Suc p) else of_nat p) (k + c) n
            (w\<lparr> w_repo := remove_ids (tx_id ` set (filter ?e X)) (w_repo w), w_tick := t \<rparr>)"
      by (elim exE conjE)
    let ?w = "w\<lparr> w_repo := remove_ids (tx_id ` set (filter ?e X)) (w_repo w), w_tick := t \<rparr>"
    have clear: "\<forall>tx \<in> set A. \<not> ?e tx"
      using Suc.prems(5) by (simp only: A_def)
    have wf: "repo_wf (w_repo ?w)"
      using Suc.prems(1) by (simp add: remove_ids_wf)
    show ?thesis
    proof (cases "filter ?e X = []")
      case True
      then have same: "oldest rid st (w_repo ?w) = ?L"
        by (simp add: remove_ids_def)
      have "p * 100 \<le> length ?L + 99"
        using len(2) Suc.prems(2) by (cases p) auto
      moreover have "p * 100 = (p - 1) * 100 + 100"
        using Suc.prems(2) by (cases p) simp_all
      then have upto: "take (p * 100) ?L = A @ X"
        unfolding A_def X_def by (simp only: take_add)
      have "\<forall>tx \<in> set (take (p * 100) ?L). \<not> ?e tx"
        unfolding upto set_append using clear True [unfolded filter_empty_conv] by blast
      moreover have "p - 1 < pages (length ?L)"
        using len(2) by (rule pages_gt)
      then have "pages (length ?L) - p < pages (length ?L) - (p - 1)"
        using Suc.prems(2) by linarith
      ultimately have "\<exists>k' w'. status_cleanup_loop E rid st now (of_nat (Suc p)) (k + c) n ?w = (Inr k', w')
          \<and> (\<forall>tx \<in> set (oldest rid st (w_repo w')). \<not> ?e tx)"
        by (intro Suc.IH wf) (use Suc.prems(4,6) in \<open>simp_all only: same diff_Suc_1 zero_less_Suc\<close>)
      moreover have "c = 0"
        using c True by simp
      ultimately show ?thesis
        unfolding run by (simp only: if_True simp_thms)
    next
      case False
      have "oldest rid st (w_repo ?w) = filter (\<lambda>tx. tx_id tx \<notin> tx_id ` set (filter ?e X)) (A @ X @ B)"
        using oldest_remove [OF Suc.prems(1)] L by simp
      with delete_from_page [of A X B ?e] False distinct_oldest [OF Suc.prems(1), of rid st] L
      have shorter: "take (length A) (oldest rid st (w_repo ?w)) = A" "length A \<le> length (oldest rid st (w_repo ?w))"
        "length (oldest rid st (w_repo ?w)) \<le> length ?L"
        "length (filter ?e (oldest rid st (w_repo ?w))) < length (filter ?e ?L)"
        by simp_all
      then have "length (filter ?e (oldest rid st (w_repo ?w))) + (pages (length (oldest rid st (w_repo ?w))) - (p - 1)) < n"
        using Suc.prems(6) pages_mono [OF shorter(3)] by linarith
      moreover have "\<forall>tx \<in> set (take ((p - 1) * 100) (oldest rid st (w_repo ?w))). \<not> ?e tx"
        using shorter(1) clear unfolding len(1) by simp
      ultimately have "\<exists>k' w'. status_cleanup_loop E rid st now (of_nat p) (k + c) n ?w = (Inr k', w')
          \<and> (\<forall>tx \<in> set (oldest rid st (w_repo w')). \<not> ?e tx)"
        by (intro Suc.IH wf Suc.prems(2)) (use shorter(2,3) len(1) Suc.prems(4) in linarith)+
      moreover have "c \<noteq> 0"
        using c False by simp
      ultimately show ?thesis
        unfolding run by (simp only: if_False simp_thms)
    qed
  qed
qed


definition clear_of :: "evm_env \<Rightarrow> int \<Rightarrow> (transaction_repo_model \<Rightarrow> bool) \<Rightarrow> world \<Rightarrow> bool" where
  "clear_of E now F w \<longleftrightarrow> (\<forall>i tx. tx_lookup (w_repo w) i = Some tx \<longrightarrow> F tx \<longrightarrow> \<not> expired_final E now tx)"

text \<open>At most this many transactions of a relayer in one status are certain to be looked at in a run.\<close>

definition few :: "tx_repo \<Rightarrow> string \<Rightarrow> bool" where
  "few R rid \<longleftrightarrow> (\<forall>st. length (matching_by_status rid [st] R) \<le> 1400)"

lemma trimmed_lookup: "trimmed E now R0 R \<Longrightarrow> tx_lookup R i = Some tx \<Longrightarrow> tx_lookup R0 i = Some tx"
  unfolding trimmed_def by (metis option.distinct(1))

lemma few_trimmed:
  assumes "trimmed E now R0 R" "repo_wf R0" "few R0 rid"
  shows "few R rid"
proof -
  have "length (oldest rid st R) \<le> length (oldest rid st R0)" for st
  proof -
    have "set (oldest rid st R) \<subseteq> set (oldest rid st R0)"
      using assms(1,2) trimmed_lookup [OF assms(1)] unfolding set_oldest
      by (auto simp: trimmed_def stored_iff simp del: image_iff)
    then have "card (set (oldest rid st R)) \<le> card (set (oldest rid st R0))"
      by (intro card_mono) auto
    moreover have "distinct (oldest rid st R)" "distinct (oldest rid st R0)"
      using distinct_oldest [of R rid st] distinct_oldest [of R0 rid st] assms(1,2) unfolding trimmed_def distinct_map by blast+
    ultimately show ?thesis
      by (simp only: distinct_card)
  qed
  then show ?thesis
    using assms(3) unfolding few_def length_sorted_by by (meson order_trans)
qed

lemma clear_trimmed:
  "clear_of E now F w \<Longrightarrow> trimmed E now (w_repo w) (w_repo w') \<Longrightarrow> clear_of E now F w'"
  unfolding clear_of_def using trimmed_lookup by blast

lemma trimmed_trans: "trimmed E now R0 R1 \<Longrightarrow> trimmed E now R1 R2 \<Longrightarrow> trimmed E now R0 R2"
  unfolding trimmed_def by (metis option.distinct(1))

lemma cleaning_wf: "cleaning E now w0 w \<Longrightarrow> repo_wf (w_repo w)"
  by (simp add: cleaning_def trimmed_def)

text \<open>What is clear stays clear, since a run only deletes.\<close>

lemma stays_clear:
  assumes "\<And>w0. valid (cleaning E now w0) m (\<lambda>_. cleaning E now w0) (\<lambda>_. cleaning E now w0)"
    "valid (cleaning E now w0) m (\<lambda>x w. cleaning E now w0 w \<and> Q x w) (\<lambda>_ _. False)"
  shows "valid (\<lambda>w. cleaning E now w0 w \<and> clear_of E now F w) m
    (\<lambda>x w. cleaning E now w0 w \<and> Q x w \<and> clear_of E now F w) (\<lambda>_ _. False)"
proof (rule validI)
  fix w x w'
  assume w: "cleaning E now w0 w \<and> clear_of E now F w" and run: "m w = (Inr x, w')"
  then have "cleaning E now w w'"
    using valid_Inr [OF assms(1) cleaning_refl [OF cleaning_wf]] by blast
  then show "cleaning E now w0 w' \<and> Q x w' \<and> clear_of E now F w'"
    using w valid_Inr [OF assms(2) _ run] clear_trimmed [of E now F w w'] by (simp add: cleaning_def)
next
  fix w e w'
  assume "cleaning E now w0 w \<and> clear_of E now F w" "m w = (Inl e, w')"
  then show False
    using valid_Inl [OF assms(2)] by blast
qed

lemma status_clear:
  assumes "faultless E" "\<And>xs. mset (e_values_order E xs) = mset xs" "repo_wf (w_repo w0)" "few (w_repo w0) rid"
  shows "valid (cleaning E now w0) (process_status_cleanup E rid st now)
    (\<lambda>_ w. cleaning E now w0 w \<and> clear_of E now (\<lambda>tx. relayer_id tx = rid \<and> status tx = st) w) (\<lambda>_ _. False)"
proof -
  have complete: "\<exists>k' w'. process_status_cleanup E rid st now w = (Inr k', w')
      \<and> clear_of E now (\<lambda>tx. relayer_id tx = rid \<and> status tx = st) w'" if "cleaning E now w0 w" for w
  proof -
    let ?L = "oldest rid st (w_repo w)"
    have wf: "repo_wf (w_repo w)"
      using that by (rule cleaning_wf)
    have len: "length ?L \<le> 1400"
      using few_trimmed [of E now "w_repo w0" "w_repo w" rid] assms(3,4) that by (simp add: cleaning_def few_def)
    then have "pages (length ?L) \<le> 14" "length (filter (expired_final E now) ?L) \<le> 1400"
      using pages_mono [OF len] length_filter_le [of "expired_final E now" ?L] by (simp_all add: pages_def)
    then have "\<exists>k' w'. status_cleanup_loop E rid st now (of_nat 1) 0 1500 w = (Inr k', w')
        \<and> (\<forall>tx \<in> set (oldest rid st (w_repo w')). \<not> expired_final E now tx)"
      using len by (intro loop_complete [OF assms(1,2) wf]) simp_all
    then obtain k' w' where run: "process_status_cleanup E rid st now w = (Inr k', w')"
      "\<forall>tx \<in> set (oldest rid st (w_repo w')). \<not> expired_final E now tx"
      by (auto simp: process_status_cleanup_def MAX_CLEANUP_ITERATIONS_PER_STATUS_def)
    then show ?thesis
      by (intro exI [of _ k'] exI [of _ w']) (force simp: clear_of_def matching_by_status_def dest!: map_of_SomeD)
  qed
  have kept: "valid (cleaning E now w0) (process_status_cleanup E rid st now) (\<lambda>_. cleaning E now w0) (\<lambda>_. cleaning E now w0)"
    unfolding process_status_cleanup_def by (rule loop_cleaning [OF assms(2)])
  show ?thesis
    by (rule validI) (use complete valid_Inr [OF kept] in force)+
qed

lemma statuses_clear:
  assumes "faultless E" "\<And>xs. mset (e_values_order E xs) = mset xs" "repo_wf (w_repo w0)" "few (w_repo w0) (r_id r)"
  shows "valid (\<lambda>w. cleaning E now w0 w \<and> clear_of E now (\<lambda>tx. relayer_id tx = r_id r \<and> status tx \<notin> set sts) w)
    (cleanup_statuses E r now None sts k)
    (\<lambda>res w. cleaning E now w0 w \<and> rcr_error res = None \<and> clear_of E now (\<lambda>tx. relayer_id tx = r_id r) w) (\<lambda>_ _. False)"
proof (induction sts arbitrary: k)
  case Nil
  show ?case
    by (auto intro: valid_return)
next
  case (Cons st sts)
  let ?F = "\<lambda>sts tx. relayer_id tx = r_id r \<and> status tx \<notin> set sts"
  have "valid (\<lambda>w. cleaning E now w0 w \<and> clear_of E now (?F (st # sts)) w) (process_status_cleanup E (r_id r) st now)
    (\<lambda>_ w. cleaning E now w0 w \<and> clear_of E now (\<lambda>tx. relayer_id tx = r_id r \<and> status tx = st) w
       \<and> clear_of E now (?F (st # sts)) w) (\<lambda>_ _. False)"
    using loop_cleaning [OF assms(2)] status_clear [OF assms] unfolding process_status_cleanup_def by (rule stays_clear)
  then have "valid (\<lambda>w. cleaning E now w0 w \<and> clear_of E now (?F (st # sts)) w)
    (attemptM (process_status_cleanup E (r_id r) st now))
    (\<lambda>r s. (cleaning E now w0 s \<and> clear_of E now (?F sts) s) \<and> (\<exists>x. r = Inr x)) (\<lambda>_ _. False)"
    by (intro valid_attempt, elim valid_conseq) (auto simp: clear_of_def)
  then show ?case
    unfolding cleanup_statuses.simps
    by (rule valid_bind) (intro valid_fact valid_case_sum Cons.IH, auto)
qed


lemma single_clear:
  assumes "faultless E" "\<And>xs. mset (e_values_order E xs) = mset xs" "repo_wf (w_repo w0)" "few (w_repo w0) (r_id r)"
  shows "valid (cleaning E now w0) (process_single_relayer E r now)
    (\<lambda>res w. cleaning E now w0 w \<and> rcr_error res = None \<and> clear_of E now (\<lambda>tx. relayer_id tx = r_id r) w) (\<lambda>_ _. False)"
proof -
  have reconciled: "valid (cleaning E now w0) (attemptM (repoM E (reconcile_stale_status_indexes (r_id r))))
      (\<lambda>x w. (cleaning E now w0 w
         \<and> clear_of E now (\<lambda>tx. relayer_id tx = r_id r \<and> status tx \<notin> set FINAL_TRANSACTION_STATUSES) w) \<and> x = Inr 0) Q" for Q
    using assms(1)
    by (auto simp: valid_def attemptM_def repoM_def reconcile_stale_status_indexes_def returnM_def clear_of_def expired_final_def)
  show ?thesis
    unfolding process_single_relayer_def
    by (rule valid_bind [OF reconciled], rule valid_fact, simp only: sum.case) (rule statuses_clear [OF assms])
qed

lemma single_cleaning:
  assumes "\<And>xs. mset (e_values_order E xs) = mset xs"
  shows "valid (cleaning E now w0) (process_single_relayer E r now) (\<lambda>_. cleaning E now w0) Q"
  unfolding process_single_relayer_def by (rule valid_bind [OF reconcile_cleaning statuses_cleaning [OF assms]])

lemma relayers_clear:
  assumes "faultless E" "\<And>xs. mset (e_values_order E xs) = mset xs" "repo_wf (w_repo w0)"
  shows "\<forall>r \<in> set rs. few (w_repo w0) (r_id r) \<Longrightarrow>
    valid (\<lambda>w. cleaning E now w0 w \<and> clear_of E now (\<lambda>tx. relayer_id tx \<in> D) w) (process_relayers_in_batches E rs now)
      (\<lambda>res w. cleaning E now w0 w \<and> (\<forall>x \<in> set res. rcr_error x = None)
         \<and> clear_of E now (\<lambda>tx. relayer_id tx \<in> D \<union> r_id ` set rs) w) (\<lambda>_ _. False)"
proof (induction rs arbitrary: D)
  case Nil
  show ?case
    by (auto intro: valid_return)
next
  case (Cons r rs)
  have "few (w_repo w0) (r_id r)"
    using Cons.prems by simp
  then have "valid (\<lambda>w. cleaning E now w0 w \<and> clear_of E now (\<lambda>tx. relayer_id tx \<in> D) w) (process_single_relayer E r now)
    (\<lambda>x w. cleaning E now w0 w \<and> (rcr_error x = None \<and> clear_of E now (\<lambda>tx. relayer_id tx = r_id r) w)
       \<and> clear_of E now (\<lambda>tx. relayer_id tx \<in> D) w) (\<lambda>_ _. False)"
    using single_cleaning [OF assms(2)] single_clear [OF assms] by (intro stays_clear)
  then have first: "valid (\<lambda>w. cleaning E now w0 w \<and> clear_of E now (\<lambda>tx. relayer_id tx \<in> D) w) (process_single_relayer E r now)
    (\<lambda>x w. (cleaning E now w0 w \<and> clear_of E now (\<lambda>tx. relayer_id tx \<in> insert (r_id r) D) w) \<and> rcr_error x = None) (\<lambda>_ _. False)"
    by (rule valid_conseq) (auto simp: clear_of_def)
  show ?case
    unfolding process_relayers_in_batches.simps
    by (rule valid_bind [OF first], rule valid_fact, rule valid_bind [OF Cons.IH], use Cons.prems in simp)
      (rule valid_return, simp)
qed

text \<open>C16: Without storage faults, and with at most 1400 transactions of each relayer in each status, a run of the
  clean-up worker that gets its lock completes and leaves no transaction of a stored relayer that is final and whose time
  of deletion had come when the run started. The loop over the pages, which stays on a page after a deletion, therefore passes
  over no transaction, and its limit of iterations is enough.\<close>

theorem cleanup_complete:
  assumes "faultless E" "\<And>xs. mset (e_values_order E xs) = mset xs" "\<And>xs. mset (order xs) = mset xs"
    and "repo_wf (w_repo (app_world s))" "cleanup_lock_taken L"
    and "\<forall>r \<in> snd ` set (app_relayers s). few (w_repo (app_world s)) (r_id r)"
  shows "\<exists>s'. transaction_cleanup_handler E L order attempt s = (Inr (), s')
    \<and> (\<forall>r \<in> snd ` set (app_relayers s). \<forall>i tx. tx_lookup (w_repo (app_world s')) i = Some tx \<longrightarrow> relayer_id tx = r_id r
         \<longrightarrow> \<not> expired_final E (e_now E (w_tick (app_world s))) tx)"
proof -
  let ?now = "e_now E (w_tick (app_world s))"
  let ?rs = "order (map snd (app_relayers s))"
  let ?w = "app_world s\<lparr> w_tick := Suc (Suc (w_tick (app_world s))) \<rparr>"
  have rs: "set ?rs = snd ` set (app_relayers s)"
    using mset_eq_setD [OF assms(3), of "map snd (app_relayers s)"] by simp
  have "clear_of E ?now (\<lambda>tx. relayer_id tx \<in> {}) ?w" "cleaning E ?now ?w ?w" "repo_wf (w_repo ?w)"
    using assms(4) by (auto simp: clear_of_def intro: cleaning_refl)
  moreover have "\<forall>r \<in> set ?rs. few (w_repo ?w) (r_id r)"
    using assms(6) rs by simp
  ultimately have "case (process_relayers_in_batches E ?rs ?now :: (world, report, _) eff) ?w of
      (Inr res, w) \<Rightarrow> cleaning E ?now ?w w \<and> (\<forall>x \<in> set res. rcr_error x = None)
        \<and> clear_of E ?now (\<lambda>tx. relayer_id tx \<in> {} \<union> r_id ` set ?rs) w
    | (Inl e, w) \<Rightarrow> False"
    by (intro valid_run [OF relayers_clear [OF assms(1,2)]] conjI)
  then obtain res w' where w': "(process_relayers_in_batches E ?rs ?now :: (world, report, _) eff) ?w = (Inr res, w')"
    "\<forall>x \<in> set res. rcr_error x = None" "clear_of E ?now (\<lambda>tx. relayer_id tx \<in> r_id ` set ?rs) w'"
    by (simp split: prod.splits sum.splits)
  moreover have "report_cleanup_results res = Inr ()"
    using w'(2) by (simp add: report_cleanup_results_def filter_empty_conv)
  ultimately have "transaction_cleanup_handler E L order attempt s = (Inr (), s\<lparr> app_world := w' \<rparr>)"
    using assms(1,5)
    by (simp add: transaction_cleanup_handler_def worker_def cleanup_handle_request_def bindM_def inW_def askM_def relayersM_def
        relayer_list_all_def map_errM_def liftR_def attemptM_def handle_result_def)
  then show ?thesis
    using w'(3) unfolding clear_of_def rs by auto
qed


section \<open>Witnesses\<close>

definition ex_old_tx :: transaction_repo_model where
  "ex_old_tx = ex_tx\<lparr> status := Confirmed, delete_at := Some ''+'' \<rparr>"

definition ex_cleanup_app :: "transaction_repo_model \<Rightarrow> app" where
  "ex_cleanup_app tx = \<lparr> app_world = ex_world tx, app_relayers = [(''relayer'', ex_relayer)] \<rparr>"

theorem cleanup_deletes_expired_only_witness:
  "tx_lookup (w_repo (app_world (snd (transaction_cleanup_handler ex_env ex_local_lock id 1 (ex_cleanup_app ex_tx))))) ''tx-1''
     = Some ex_tx"
proof -
  have "cleaning ex_env (e_now ex_env 0) (ex_world ex_tx)
      (app_world (snd (transaction_cleanup_handler ex_env ex_local_lock id 1 (ex_cleanup_app ex_tx))))"
    using cleanup_deletes_expired_only [of "ex_cleanup_app ex_tx" ex_env ex_local_lock id 1] ex_world_wf ex_env_order
    by (simp add: ex_cleanup_app_def)
  moreover have "tx_lookup (w_repo (ex_world ex_tx)) ''tx-1'' = Some ex_tx" "\<not> expired_final ex_env now ex_tx" for now
    by (simp_all add: ex_tx_def expired_final_def)
  ultimately show ?thesis
    unfolding cleaning_def trimmed_def by (metis option.inject)
qed

theorem cleanup_complete_witness:
  "\<exists>s'. transaction_cleanup_handler ex_env ex_local_lock id 1 (ex_cleanup_app ex_old_tx) = (Inr (), s')
     \<and> tx_lookup (w_repo (app_world s')) ''tx-1'' \<noteq> Some ex_old_tx"
proof -
  have "\<exists>s'. transaction_cleanup_handler ex_env ex_local_lock id 1 (ex_cleanup_app ex_old_tx) = (Inr (), s')
    \<and> (\<forall>r \<in> snd ` set (app_relayers (ex_cleanup_app ex_old_tx)). \<forall>i tx. tx_lookup (w_repo (app_world s')) i = Some tx \<longrightarrow>
         relayer_id tx = r_id r \<longrightarrow> \<not> expired_final ex_env (e_now ex_env (w_tick (app_world (ex_cleanup_app ex_old_tx)))) tx)"
  proof (rule cleanup_complete)
    show "repo_wf (w_repo (app_world (ex_cleanup_app ex_old_tx)))"
      by (simp add: ex_cleanup_app_def repo_wf_def)
    show "\<forall>r \<in> snd ` set (app_relayers (ex_cleanup_app ex_old_tx)). few (w_repo (app_world (ex_cleanup_app ex_old_tx))) (r_id r)"
      by (simp add: ex_cleanup_app_def few_def matching_by_status_def)
  qed (simp_all add: ex_env_def ex_local_lock_def cleanup_lock_taken_def)
  moreover have "expired_final ex_env (secs 100) ex_old_tx" "relayer_id ex_old_tx = ''relayer''"
    by (simp_all add: expired_final_def should_delete_transaction_def ex_old_tx_def ex_tx_def ex_env_def ex_parse_rfc3339_def secs_def)
  ultimately show ?thesis
    by (auto simp: ex_cleanup_app_def ex_relayer_def ex_env_def)
qed

end
