(* ===== verification/Spec2Isabelle.thy ===== *)
theory Spec2Isabelle
  imports Job_Refinement Evm_Provider Tx_Cleanup
begin

text \<open>
  A verification development for the OpenZeppelin Relayer, a service that accepts transaction
  requests over HTTP, signs and broadcasts them, and follows them until the chain has decided
  on them. The development covers the EVM side of the service, from the controllers to the calls
  of the nodes. File names below are relative to \<open>src/src\<close>.

  \<^bold>\<open>The program and the theories.\<close> A request enters a controller, which finds the relayer and
  stores a pending transaction together with two jobs, one to prepare it and one to check its
  status. Workers take the jobs and call the domain operations: preparation allocates a nonce and
  signs, submission broadcasts the signed bytes, status checks read receipts and decide on
  confirmation, resubmission at a higher price, or replacement by an empty transaction (a NOOP).
  A health job repairs the nonces of a relayer. All of them read and write the repositories and
  call the nodes through a provider that retries and changes between endpoints.

  \<^item> \<open>Relayer_Prelude\<close>: machine words with the saturating operations of Rust, string functions,
    the effect type \<open>eff\<close> of the asynchronous functions (a state that also passes through errors),
    the rules \<open>valid\<close> and \<open>preserves\<close> for it, and relations that every run keeps.
  \<^item> \<open>Relayer_Errors\<close>: the error types and which of them are retried
    (\<open>models/error\<close>, \<open>services/provider/mod.rs\<close>, \<open>constants/evm_transaction.rs\<close>).
  \<^item> \<open>Tx_Model\<close>: the stored transaction and its partial updates (\<open>models/transaction/repository.rs\<close>).
  \<^item> \<open>Tx_Repository\<close>: the in-memory transaction repository
    (\<open>repositories/transaction/transaction_in_memory.rs\<close>), with the locale \<open>tx_store\<close> for what its
    clients rely on; it refines a partial map, its pages partition a query, and an idempotency key has
    one winner.
  \<^item> \<open>Tx_Counter\<close>: nonce counters (\<open>repositories/transaction_counter\<close>,
    \<open>services/transaction_counter\<close>) with the locale \<open>nonce_counter\<close>; nonces are handed out once.
  \<^item> \<open>Evm_Config\<close>, \<open>Evm_Pricing\<close>: networks, relayer policies, the price calculator, replacement
    prices and price handlers (\<open>domain/transaction/evm/price_calculator.rs\<close>, \<open>replacement.rs\<close>,
    \<open>services/gas\<close>); caps, bumps and their limits.
  \<^item> \<open>Evm_World\<close>: the state \<open>world\<close> of the handlers (repository, counter, job queue, log of
    broadcasts, debounce map) and the record \<open>evm_env\<close> of everything that answers from outside.
  \<^item> \<open>Evm_Utils\<close>, \<open>Evm_Transaction\<close>, \<open>Evm_Status\<close>: the handlers of \<open>domain/transaction/evm\<close>, one
    definition per function; which updates each makes, what it broadcasts, when a status is final, and
    what the circuit breaker may do.
  \<^item> \<open>Evm_Nonce\<close>: \<open>domain/relayer/evm/nonce.rs\<close>; gaps are found exactly, a rewind passes over
    unused nonces only, and a health run keeps the invariants whatever fails on the way.
  \<^item> \<open>Relayer_Repository\<close>, \<open>Evm_Relayer\<close>: relayers and the relayer service
    (\<open>repositories/relayer/relayer_in_memory.rs\<close>, \<open>domain/relayer/evm/evm_relayer.rs\<close>).
  \<^item> \<open>Tx_Idempotency\<close>, \<open>Relayer_Api\<close>: the controllers (\<open>api/controllers/idempotency.rs\<close>,
    \<open>api/controllers/relayer.rs\<close>) with request validation and the conversion of errors.
  \<^item> \<open>Job_Handlers\<close>: the workers with their retry decisions and delays (\<open>jobs/handlers\<close>, \<open>queues\<close>).
  \<^item> \<open>Evm_Lifecycle\<close>: a transition system whose steps are the domain operations, with invariants of
    all its runs on transactions, nonces and broadcasts.
  \<^item> \<open>Job_Refinement\<close>: the workers and the controllers make runs of that system only, so the
    invariants hold of them.
  \<^item> \<open>Tx_Cleanup\<close>: the worker that deletes old transactions
    (\<open>jobs/handlers/transaction_cleanup_handler.rs\<close>). Beside the deletion of an expired
    transaction here nothing removes one: in the runs of \<open>Evm_Lifecycle\<close> none is lost. The worker
    deletes only what is final and expired, and leaves nothing of it behind.
  \<^item> \<open>Rpc_Provider\<close>: endpoint health, selection and retries with failover (\<open>services/provider\<close>:
    \<open>rpc_health_store.rs\<close>, \<open>rpc_selector.rs\<close>, \<open>retry.rs\<close>). The pause check equals a short
    reference, a selection fails only when no endpoint is left, the calls of a request are bounded, and a
    healthy endpoint is reached.
  \<^item> \<open>Evm_Provider\<close>: the EVM provider with all its operations (\<open>services/provider/evm/mod.rs\<close>).

  \<^bold>\<open>Conventions.\<close> A struct is a record, an enum a datatype; a function that can fail returns a sum
  with the error on the left; integers keep their width as words, except where a nat cannot overflow.
  Panics are errors of their own or \<open>None\<close>. Times are integers in nanoseconds, and \<open>secs\<close> converts
  seconds. Logging and metrics are left out. Errors whose text comes from a library carry the source's
  own part of the text.

  \<^bold>\<open>What is outside.\<close> The answers of nodes, signers, storage faults, clocks and random numbers are
  functions of a tick, which increases with every question, so two questions may have different
  answers and every theorem holds for all of them. Hypotheses about them are stated in the theorems, and
  each such theorem has a witness in which they hold. The hypothesis on sampled indices in
  \<open>Rpc_Provider\<close> follows from the documented range of the sampling for every constructed selector
  (\<open>new_selector_samples\<close>).

  \<^bold>\<open>Loops.\<close> Loops over lists are recursive on the list. The retry loop, the failover loop, the
  sampling attempts and the paged scans recurse on the number of turns left, which the source computes
  before the loop or bounds by a constant, so no definition has fuel that could run out before the
  source's loop does. The scan of a counter rewind, which has no such number, is a recursive function
  whose termination is proved. The clean-up loop is bounded in the source by 1500 iterations;
  \<open>cleanup_complete\<close> shows that they are enough for 1400 transactions of a relayer in one status,
  however the expired ones are spread over the pages.

  \<^bold>\<open>Atomicity.\<close> A handler runs on the transaction as it is stored when the handler starts, and its
  accesses are not interleaved with those of another handler. Jobs, controllers and health runs are
  interleaved as whole steps, in any order and any number of times. Concurrent callers of one RPC selector
  are not interleaved within a call, and the store is not changed between the two locks of a
  pause check.

  \<^bold>\<open>Not modelled.\<close> HTTP routing and decoding of requests, start-up wiring, parsing of configuration
  files, metrics and logging have no logic that the theorems could rest on. The Redis repositories are
  scripts for an external server; the contract they share with the in-memory ones is modelled there. Queue
  backends, signers and key stores, plugins and the fee services are clients of external
  systems. The Solana and Stellar sides rest on their SDKs, on encodings and on programs outside the
  source; the workers take their services as parameters. Fee history statistics and the gas price
  cache use floating point numbers and background tasks, so the prices they give are answers of the
  environment. The check of a URL against private addresses and the client library of the nodes are
  parameters of \<open>Evm_Provider\<close>. The controllers that read or change configuration entities, and the
  remaining repositories of such entities, are not covered. \<open>Duration::seconds\<close> panics for more
  than about 2.9e8 years; pause and expiration settings of that size are not treated.
\<close>

end
